(* ===== verification/Prelude.thy ===== *)
theory Prelude
  imports Main "HOL-Library.AList" "HOL-Library.Sublist" "HOL-Library.Char_ord"
    "HOL-Library.List_Lexorder"
begin

text \<open>
  Shared ground of the development: the rewrite collections, the effect type of every call the
  gateway makes on a collaborator it does not own, the reachability predicate and the locales
  for invariants of step relations, and generic facts on lists and association lists.
\<close>

named_theorems io_simps \<open>equations of the error-and-state monad\<close>
named_theorems frame_simps \<open>reading and building wire frames\<close>
named_theorems link_simps \<open>operations of the connection objects\<close>

section \<open>Calls that may raise and may change the world\<close>

text \<open>
  An awaited call takes the state of the world it acts on and gives either the exception it
  raised (\<open>Inl\<close>) or its result (\<open>Inr\<close>), together with the world it left behind.
\<close>

type_synonym ('c, 'e, 'a) call = "'c \<Rightarrow> ('e + 'a) \<times> 'c"

definition ret_io :: "'a \<Rightarrow> ('c, 'e, 'a) call" where
  "ret_io x = (\<lambda>c. (Inr x, c))"

definition raise_io :: "'e \<Rightarrow> ('c, 'e, 'a) call" where
  "raise_io e = (\<lambda>c. (Inl e, c))"

definition bind_io :: "('c, 'e, 'a) call \<Rightarrow> ('a \<Rightarrow> ('c, 'e, 'b) call) \<Rightarrow> ('c, 'e, 'b) call" where
  "bind_io m f = (\<lambda>c. case m c of (Inl e, c') \<Rightarrow> (Inl e, c') | (Inr x, c') \<Rightarrow> f x c')"

text \<open>\<open>try: m except e: h(e)\<close>, with the handler deciding which exceptions it takes.\<close>

definition catch_io :: "('c, 'e, 'a) call \<Rightarrow> ('e \<Rightarrow> ('c, 'e, 'a) call) \<Rightarrow> ('c, 'e, 'a) call" where
  "catch_io m h = (\<lambda>c. case m c of (Inl e, c') \<Rightarrow> h e c' | (Inr x, c') \<Rightarrow> (Inr x, c'))"

lemma ret_io_app [io_simps]: "ret_io x c = (Inr x, c)"
  by (simp add: ret_io_def)

lemma raise_io_app [io_simps]: "raise_io e c = (Inl e, c)"
  by (simp add: raise_io_def)

lemma bind_io_app [io_simps]:
  "bind_io m f c = (case m c of (Inl e, c') \<Rightarrow> (Inl e, c') | (Inr x, c') \<Rightarrow> f x c')"
  by (simp add: bind_io_def)

lemma catch_io_app [io_simps]:
  "catch_io m h c = (case m c of (Inl e, c') \<Rightarrow> h e c' | (Inr x, c') \<Rightarrow> (Inr x, c'))"
  by (simp add: catch_io_def)

lemma bind_ret_left [simp]: "bind_io (ret_io x) f = f x"
  by (rule ext) (simp add: io_simps)

lemma bind_ret_right [simp]: "bind_io m ret_io = m"
  by (rule ext) (simp add: io_simps split: prod.splits sum.splits)

lemma bind_raise [simp]: "bind_io (raise_io e) f = raise_io e"
  by (rule ext) (simp add: io_simps)

lemma bind_assoc: "bind_io (bind_io m f) g = bind_io m (\<lambda>x. bind_io (f x) g)"
  by (rule ext) (simp add: io_simps split: prod.splits sum.splits)

lemma bind_io_InrE:
  assumes "bind_io m f c = (Inr y, c'')"
  obtains x c' where "m c = (Inr x, c')" and "f x c' = (Inr y, c'')"
  using assms by (auto simp: io_simps split: prod.splits sum.splits)

lemma bind_io_Inr [io_simps]: "m c = (Inr x, c') \<Longrightarrow> bind_io m f c = f x c'"
  by (simp add: bind_io_def)

lemma bind_io_Inl [io_simps]: "m c = (Inl e, c') \<Longrightarrow> bind_io m f c = (Inl e, c')"
  by (simp add: bind_io_def)

section \<open>Reachability and invariants\<close>

inductive reach :: "('s \<Rightarrow> bool) \<Rightarrow> ('s \<Rightarrow> 's \<Rightarrow> bool) \<Rightarrow> 's \<Rightarrow> bool"
  for init :: "'s \<Rightarrow> bool" and step :: "'s \<Rightarrow> 's \<Rightarrow> bool" where
  reach_start: "init s \<Longrightarrow> reach init step s"
| reach_next: "reach init step s \<Longrightarrow> step s t \<Longrightarrow> reach init step t"

text \<open>The contract between a step relation and a property it maintains.\<close>

locale machine_invariant =
  fixes init :: "'s \<Rightarrow> bool" and step :: "'s \<Rightarrow> 's \<Rightarrow> bool" and inv :: "'s \<Rightarrow> bool"
  assumes inv_init: "init s \<Longrightarrow> inv s"
    and inv_step: "inv s \<Longrightarrow> step s t \<Longrightarrow> inv t"
begin

lemma reach_inv: "reach init step s \<Longrightarrow> inv s"
  by (induction rule: reach.induct) (auto intro: inv_init inv_step)

lemma steps_inv: "step\<^sup>*\<^sup>* s t \<Longrightarrow> inv s \<Longrightarrow> inv t"
  by (induction rule: rtranclp_induct) (auto intro: inv_step)

lemma reach_steps: "step\<^sup>*\<^sup>* s t \<Longrightarrow> reach init step s \<Longrightarrow> reach init step t"
  by (induction rule: rtranclp_induct) (auto intro: reach_next)

end

text \<open>
  A machine that keeps an append-only record of what it has said: the record of a later state
  extends the record of an earlier one.
\<close>

locale machine_log = machine_invariant +
  fixes log :: "'s \<Rightarrow> 'a list"
  assumes log_grows: "inv s \<Longrightarrow> step s t \<Longrightarrow> prefix (log s) (log t)"
begin

lemma steps_log: "step\<^sup>*\<^sup>* s t \<Longrightarrow> inv s \<Longrightarrow> prefix (log s) (log t)"
proof (induction rule: rtranclp_induct)
  case base
  then show ?case by simp
next
  case (step t u)
  then have "inv t" by (blast intro: steps_inv)
  with step.hyps have "prefix (log t) (log u)" by (blast intro: log_grows)
  with step show ?case by (blast intro: prefix_order.trans)
qed

lemma steps_log_nth:
  assumes "step\<^sup>*\<^sup>* s t" and "inv s" and "i < length (log s)"
  shows "log t ! i = log s ! i"
  using steps_log [OF assms(1,2)] assms(3) by (auto simp: prefix_def nth_append)

end

section \<open>Association lists as Python dicts\<close>

text \<open>
  A dict keeps its insertion order; storing under a key that is present replaces the value in
  place and storing under a new one appends, which is what \<open>AList.update\<close> does.
\<close>

definition dict_merge :: "('k \<times> 'v) list \<Rightarrow> ('k \<times> 'v) list \<Rightarrow> ('k \<times> 'v) list" where
  "dict_merge a b = fold (\<lambda>(k, v) d. AList.update k v d) b a"

lemma dict_merge_Nil [simp]: "dict_merge a [] = a"
  by (simp add: dict_merge_def)

lemma dict_merge_Cons [simp]: "dict_merge a ((k, v) # b) = dict_merge (AList.update k v a) b"
  by (simp add: dict_merge_def)

lemma map_of_dict_merge_notin: "k \<notin> fst ` set b \<Longrightarrow> map_of (dict_merge a b) k = map_of a k"
  by (induction b arbitrary: a) (auto simp: update_conv')

lemma map_of_dict_merge_in:
  "k \<in> fst ` set b \<Longrightarrow> map_of (dict_merge a b) k = map_of (rev b) k"
proof (induction b rule: rev_induct)
  case Nil
  then show ?case by simp
next
  case (snoc x b)
  then show ?case
    by (cases x) (auto simp: dict_merge_def update_conv')
qed

lemma hd_dict_merge:
  "a = (k, v) # a' \<Longrightarrow> k \<notin> fst ` set b \<Longrightarrow> \<exists>d. dict_merge a b = (k, v) # d"
proof (induction b arbitrary: a a')
  case Nil
  then show ?case by simp
next
  case (Cons x b)
  obtain k' v' where x: "x = (k', v')" by (cases x)
  with Cons.prems have "k \<noteq> k'" by auto
  then have "AList.update k' v' a = (k, v) # AList.update k' v' a'"
    by (simp add: Cons.prems(1))
  with Cons.IH Cons.prems(2) x show ?case by auto
qed

lemma map_of_rev_distinct: "distinct (map fst xs) \<Longrightarrow> map_of (rev xs) = map_of xs"
proof
  fix k
  assume d: "distinct (map fst xs)"
  then have "distinct (map fst (rev xs))" by (simp add: rev_map [symmetric])
  with d have "map_of (rev xs) k = Some v \<longleftrightarrow> map_of xs k = Some v" for v
    by (simp add: map_of_eq_Some_iff)
  then show "map_of (rev xs) k = map_of xs k" by (metis not_Some_eq)
qed

lemma dict_merge_append:
  "distinct (map fst b) \<Longrightarrow> fst ` set a \<inter> fst ` set b = {} \<Longrightarrow> dict_merge a b = a @ b"
proof (induction b arbitrary: a)
  case Nil
  then show ?case by simp
next
  case (Cons x b)
  obtain k v where x: "x = (k, v)" by (cases x)
  have "AList.update k v a = a @ [(k, v)]"
    using Cons.prems(2) x by (induction a) auto
  with Cons x show ?case by auto
qed

section \<open>Lists\<close>

lemma filter_sum_split: "length (filter P xs) + length (filter (\<lambda>x. \<not> P x) xs) = length xs"
  by (induction xs) auto

lemma set_takeWhile_sub: "x \<in> set (takeWhile P xs) \<Longrightarrow> x \<in> set xs \<and> P x"
  by (induction xs) (auto split: if_splits)

end
