(* ===== verification/Py_Values.thy ===== *)
theory Py_Values
  imports Prelude Complex_Main
begin

text \<open>
  The Python values that cross the gateway's wires: what \<open>json.loads\<close> gives, truthiness,
  \<open>dict.get\<close>, \<open>isinstance\<close>, hashing, \<open>repr\<close>, \<open>str\<close> and \<open>int\<close>, negative slices. A \<open>str\<close> is a
  char list holding its UTF-8 bytes; every test the gateway makes on one (equality, emptiness,
  ASCII character classes, code-point order) is the same on the bytes as on the code points.
\<close>

section \<open>JSON values\<close>

text \<open>
  A finite float is its value with the text \<open>repr\<close> prints for it; \<open>json.loads\<close> also gives the
  three non-finite floats for the literals \<open>Infinity\<close>, \<open>-Infinity\<close> and \<open>NaN\<close>.
\<close>

datatype pyfloat = Fin rat string | PosInf | NegInf | NaN

datatype json =
    JNull
  | JBool bool
  | JInt int
  | JFloat pyfloat
  | JStr string
  | JList "json list"
  | JObj "(string \<times> json) list"

type_synonym obj = "(string \<times> json) list"

text \<open>\<open>d.get(k)\<close>: the value, or \<open>None\<close> for a missing key.\<close>

definition dget :: "obj \<Rightarrow> string \<Rightarrow> json" where
  "dget d k = (case map_of d k of None \<Rightarrow> JNull | Some v \<Rightarrow> v)"

text \<open>\<open>d.get(k, default)\<close>.\<close>

definition dget_or :: "obj \<Rightarrow> string \<Rightarrow> json \<Rightarrow> json" where
  "dget_or d k v = (case map_of d k of None \<Rightarrow> v | Some w \<Rightarrow> w)"

lemma dget_Nil [simp]: "dget [] k = JNull"
  by (simp add: dget_def)

lemma dget_Cons [simp]: "dget ((k', v) # d) k = (if k = k' then v else dget d k)"
  by (simp add: dget_def)

lemma dget_or_Nil [simp]: "dget_or [] k v = v"
  by (simp add: dget_or_def)

lemma dget_or_Cons [simp]: "dget_or ((k', w) # d) k v = (if k = k' then w else dget_or d k v)"
  by (simp add: dget_or_def)

lemma dget_update [simp]: "dget (AList.update k v d) k' = (if k' = k then v else dget d k')"
  by (simp add: dget_def update_conv')

lemma dget_merge_notin: "k \<notin> fst ` set b \<Longrightarrow> dget (dict_merge a b) k = dget a k"
  by (simp add: dget_def map_of_dict_merge_notin)

fun truthy :: "json \<Rightarrow> bool" where
  "truthy JNull = False"
| "truthy (JBool b) = b"
| "truthy (JInt i) = (i \<noteq> 0)"
| "truthy (JFloat (Fin r t)) = (r \<noteq> 0)"
| "truthy (JFloat PosInf) = True"
| "truthy (JFloat NegInf) = True"
| "truthy (JFloat NaN) = True"
| "truthy (JStr s) = (s \<noteq> [])"
| "truthy (JList xs) = (xs \<noteq> [])"
| "truthy (JObj d) = (d \<noteq> [])"

text \<open>\<open>a or b\<close>.\<close>

definition py_or :: "json \<Rightarrow> json \<Rightarrow> json" where
  "py_or a b = (if truthy a then a else b)"

text \<open>Lists and dicts cannot be looked up in a set or a dict: doing so raises TypeError.\<close>

fun hashable :: "json \<Rightarrow> bool" where
  "hashable (JList xs) = False"
| "hashable (JObj d) = False"
| "hashable _ = True"

text \<open>\<open>isinstance(x, int)\<close>, which a \<open>bool\<close> also satisfies.\<close>

fun as_int :: "json \<Rightarrow> int option" where
  "as_int (JInt i) = Some i"
| "as_int (JBool b) = Some (if b then 1 else 0)"
| "as_int _ = None"

text \<open>\<open>x == n\<close> for an integer literal \<open>n\<close>: numbers compare by value across types.\<close>

fun eq_int :: "json \<Rightarrow> int \<Rightarrow> bool" where
  "eq_int (JInt i) n = (i = n)"
| "eq_int (JBool b) n = ((if b then 1 else 0) = n)"
| "eq_int (JFloat (Fin r t)) n = (r = of_int n)"
| "eq_int _ n = False"

text \<open>\<open>isinstance(x, str) and x\<close>.\<close>

definition nonempty_str :: "json \<Rightarrow> bool" where
  "nonempty_str j = (case j of JStr s \<Rightarrow> s \<noteq> [] | _ \<Rightarrow> False)"

lemma nonempty_str_simps [simp]:
  "nonempty_str (JStr s) = (s \<noteq> [])"
  "nonempty_str JNull = False"
  "nonempty_str (JBool b) = False"
  "nonempty_str (JInt i) = False"
  "nonempty_str (JFloat f) = False"
  "nonempty_str (JList xs) = False"
  "nonempty_str (JObj d) = False"
  by (simp_all add: nonempty_str_def)

lemma nonempty_strE:
  assumes "nonempty_str j"
  obtains s where "j = JStr s" and "s \<noteq> []"
  using assms by (cases j) auto

section \<open>Text\<close>

definition em_dash :: string where
  "em_dash = [CHR 0xE2, CHR 0x80, CHR 0x94]"

definition digit_char :: "nat \<Rightarrow> char" where
  "digit_char d = char_of (48 + d)"

fun nat_text :: "nat \<Rightarrow> string" where
  "nat_text n = (if n < 10 then [digit_char n] else nat_text (n div 10) @ [digit_char (n mod 10)])"

declare nat_text.simps [simp del]

definition int_text :: "int \<Rightarrow> string" where
  "int_text i = (if i < 0 then CHR ''-'' # nat_text (nat (- i)) else nat_text (nat i))"

text \<open>Reading the digits back, most significant first.\<close>

definition digit_val :: "char \<Rightarrow> nat" where
  "digit_val c = of_char c - 48"

definition digits_val :: "string \<Rightarrow> nat" where
  "digits_val s = foldl (\<lambda>n c. 10 * n + digit_val c) 0 s"

lemma digit_val_char: "d < 10 \<Longrightarrow> digit_val (digit_char d) = d"
  by (simp add: digit_val_def digit_char_def)

lemma digits_val_text: "digits_val (nat_text n) = n"
proof (induction n rule: nat_text.induct)
  case (1 n)
  show ?case
  proof (cases "n < 10")
    case True
    then show ?thesis
      by (subst nat_text.simps) (simp add: digits_val_def digit_val_char)
  next
    case False
    with "1.IH" have "digits_val (nat_text (n div 10)) = n div 10" by simp
    with False show ?thesis
      by (subst nat_text.simps) (simp add: digits_val_def digit_val_char)
  qed
qed

lemma nat_text_inject: "nat_text m = nat_text n \<Longrightarrow> m = n"
  by (metis digits_val_text)

lemma nat_text_digits: "c \<in> set (nat_text n) \<Longrightarrow> \<exists>d<10. c = digit_char d"
proof (induction n rule: nat_text.induct)
  case (1 n)
  show ?case
  proof (cases "n < 10 \<or> c \<notin> set (nat_text (n div 10))")
    case True
    with "1.prems" have "c = digit_char (n mod 10)"
      by (subst (asm) nat_text.simps) (auto split: if_splits)
    then show ?thesis by (intro exI [of _ "n mod 10"]) simp
  next
    case False
    with "1.IH" show ?thesis by simp
  qed
qed

lemma digit_chars: "list_all (\<lambda>d. digit_char d \<in> set ''0123456789'') [0..<10]"
  by code_simp

lemma digit_char_less: "d < 10 \<Longrightarrow> digit_char d \<in> set ''0123456789''"
proof -
  assume "d < 10"
  then have "d \<in> set [0..<10]" by (simp only: set_upt atLeastLessThan_iff) simp
  with digit_chars show ?thesis unfolding list_all_iff by blast
qed

lemma nat_text_chars: "set (nat_text n) \<subseteq> set ''0123456789''"
  using nat_text_digits digit_char_less by blast

lemma nat_text_nonempty: "nat_text n \<noteq> []"
  by (subst nat_text.simps) simp

lemma int_text_inject: "int_text i = int_text j \<Longrightarrow> i = j"
proof -
  have minus: "CHR ''-'' \<notin> set (nat_text n)" for n
    using nat_text_chars [of n] by auto
  have neq: "nat_text n \<noteq> CHR ''-'' # s" for n s
    using minus [of n] by (metis list.set_intros(1))
  assume eq: "int_text i = int_text j"
  show "i = j"
  proof (cases "i < 0")
    case True
    with eq neq have "j < 0" by (metis int_text_def)
    with True eq have "nat (- i) = nat (- j)"
      by (simp add: int_text_def) (metis nat_text_inject)
    with True \<open>j < 0\<close> show ?thesis by simp
  next
    case False
    with eq neq have "\<not> j < 0" by (metis int_text_def)
    with False eq have "nat i = nat j"
      by (simp add: int_text_def) (metis nat_text_inject)
    with False \<open>\<not> j < 0\<close> show ?thesis by simp
  qed
qed

lemma int_text_chars: "set (int_text i) \<subseteq> set ''-0123456789''"
proof -
  have "set (nat_text n) \<subseteq> set (CHR ''-'' # ''0123456789'')" for n
    using nat_text_chars set_subset_Cons by (rule subset_trans)
  then show ?thesis by (simp only: int_text_def split: if_split) (simp only: set_simps insert_subset, blast)
qed

section \<open>repr\<close>

definition hex_char :: "nat \<Rightarrow> char" where
  "hex_char d = (if d < 10 then char_of (48 + d) else char_of (87 + d))"

definition esc_char :: "char \<Rightarrow> char \<Rightarrow> string" where
  "esc_char q c =
     (if c = CHR 0x5C then [CHR 0x5C, CHR 0x5C]
      else if c = q then [CHR 0x5C, q]
      else if c = CHR 0x0A then [CHR 0x5C, CHR ''n'']
      else if c = CHR 0x0D then [CHR 0x5C, CHR ''r'']
      else if c = CHR 0x09 then [CHR 0x5C, CHR ''t'']
      else if (of_char c :: nat) < 32 \<or> c = CHR 0x7F
        then [CHR 0x5C, CHR ''x'', hex_char (of_char c div 16), hex_char (of_char c mod 16)]
      else [c])"

definition repr_str :: "string \<Rightarrow> string" where
  "repr_str s =
     (let q = (if CHR 0x27 \<in> set s \<and> CHR 0x22 \<notin> set s then CHR 0x22 else CHR 0x27)
      in q # concat (map (esc_char q) s) @ [q])"

fun join :: "string \<Rightarrow> string list \<Rightarrow> string" where
  "join sep [] = []"
| "join sep [s] = s"
| "join sep (s # t # ss) = s @ sep @ join sep (t # ss)"

fun py_repr :: "json \<Rightarrow> string" where
  "py_repr JNull = ''None''"
| "py_repr (JBool b) = (if b then ''True'' else ''False'')"
| "py_repr (JInt i) = int_text i"
| "py_repr (JFloat (Fin r t)) = t"
| "py_repr (JFloat PosInf) = ''inf''"
| "py_repr (JFloat NegInf) = ''-inf''"
| "py_repr (JFloat NaN) = ''nan''"
| "py_repr (JStr s) = repr_str s"
| "py_repr (JList xs) = ''['' @ join '', '' (map py_repr xs) @ '']''"
| "py_repr (JObj d) =
     ''{'' @ join '', '' (map (\<lambda>(k, v). repr_str k @ '': '' @ py_repr v) d) @ ''}''"

text \<open>\<open>str(x)\<close>: a string is itself, everything else prints as \<open>repr\<close>.\<close>

definition py_str :: "json \<Rightarrow> string" where
  "py_str j = (case j of JStr s \<Rightarrow> s | _ \<Rightarrow> py_repr j)"

section \<open>Slices\<close>

text \<open>\<open>xs[-n:]\<close> for a positive \<open>n\<close>: the last \<open>n\<close> elements, all of them when there are fewer.\<close>

definition last_n :: "int \<Rightarrow> 'a list \<Rightarrow> 'a list" where
  "last_n n xs = drop (length xs - nat n) xs"

lemma length_last_n: "length (last_n n xs) = min (length xs) (nat n)"
  by (simp add: last_n_def)

lemma suffix_last_n: "suffix (last_n n xs) xs"
  by (simp add: last_n_def suffix_drop)

lemma last_n_all: "length xs \<le> nat n \<Longrightarrow> last_n n xs = xs"
  by (simp add: last_n_def)

section \<open>Addresses without trailing slashes\<close>

text \<open>\<open>s.rstrip("/")\<close>.\<close>

definition rstrip_slash :: "string \<Rightarrow> string" where
  "rstrip_slash s = rev (dropWhile (\<lambda>c. c = CHR ''/'') (rev s))"

lemma rstrip_slash_clean:
  "rstrip_slash s = [] \<or> last (rstrip_slash s) \<noteq> CHR ''/''"
proof (cases "dropWhile (\<lambda>c. c = CHR ''/'') (rev s)")
  case Nil
  then show ?thesis by (simp add: rstrip_slash_def)
next
  case (Cons c cs)
  then have "c \<noteq> CHR ''/''" by (metis (full_types) hd_dropWhile list.discI list.sel(1))
  with Cons show ?thesis by (simp add: rstrip_slash_def)
qed

lemma rstrip_slash_idem [simp]: "rstrip_slash (rstrip_slash s) = rstrip_slash s"
  by (simp add: rstrip_slash_def dropWhile_idem)

section \<open>Lower case\<close>

text \<open>The ASCII part of \<open>str.lower\<close>.\<close>

definition ascii_lower :: "char \<Rightarrow> char" where
  "ascii_lower c = (if CHR ''A'' \<le> c \<and> c \<le> CHR ''Z'' then char_of (of_char c + 32 :: nat) else c)"

end
