(* ===== verification/Funduq_Core.thy ===== *)
theory Funduq_Core
  imports Py_Values
begin

text \<open>
  The boundary to the code this repository does not contain: the funduq core, its contract
  models and the JSON decoder. Each is a field of a record that the model's definitions take as
  an argument, so every theorem holds for every core that has these operations; what a theorem
  needs a core to do beyond that is a premise of the theorem.
\<close>

section \<open>Exceptions\<close>

text \<open>
  The classes the gateway names, and \<open>OtherExc\<close> for any other. An HTTPException carries its
  status and headers, a KyokRejected its status and the provider's refusal.
\<close>

datatype exn_class =
    AgentNotFound | LlmProviderNotFound | ThreadNotFound | RunNotFound
  | ThreadOwnershipMismatch | ProviderFingerprintTaken | AgentInUse | LlmOfferingInUse
  | InvalidRegistration | InvalidChain | PresenterRequired | StreamTaken
  | InvalidCancel | InvalidResolution | ThreadMembershipRequired | InvalidRunInput
  | ThreadQueueFull | FunduqError | TaskNotFoundError
  | ValueError | TypeError | KeyError | AttributeError | OverflowError | RecursionError
  | RuntimeError | ValidationError | JSONDecodeError | TimeoutError
  | OtherExc string

datatype exn =
    Exn (exn_cls: exn_class) (exn_msg: string)
  | HttpExn nat string "(string \<times> string) list"
  | KyokExn nat string "json option"

text \<open>\<open>str(e)\<close>.\<close>

fun exn_text :: "exn \<Rightarrow> string" where
  "exn_text (Exn k m) = m"
| "exn_text (HttpExn s m hs) = m"
| "exn_text (KyokExn s m r) = m"

definition is_class :: "exn_class \<Rightarrow> exn \<Rightarrow> bool" where
  "is_class k e = (case e of Exn k' m \<Rightarrow> k' = k | _ \<Rightarrow> False)"

lemma is_class_simps [simp]:
  "is_class k (Exn k' m) = (k' = k)"
  "\<not> is_class k (HttpExn s m' hs)"
  "\<not> is_class k (KyokExn s m' r)"
  by (simp_all add: is_class_def)

section \<open>Data that crosses the boundary\<close>

text \<open>An agent is the pair of its provider's key and its name.\<close>

record agent_ref =
  ref_provider_key :: string
  ref_name :: string

text \<open>
  What the gateway reads of a \<open>funduq_contract.Registration\<close>: its name and its interjection
  flag; the rest of the validated model travels with it untouched.
\<close>

record registration =
  reg_name :: string
  reg_interjections :: json
  reg_rest :: obj

text \<open>The two attributes core reads off a connection, and which object it is.\<close>

record conn =
  conn_id :: nat
  conn_key :: string
  conn_max :: json

text \<open>
  A call core makes on a connection while one of the gateway's own awaited calls is suspended:
  an offer handed down, or a request to stop a run.
\<close>

datatype link_call = CallDeliver obj | CallCancel json

text \<open>The answer to an offer: yes, no for now, or never with a reason.\<close>

datatype offer_answer = Accepted | Declined | RefusedBecause string

text \<open>What the gateway reads of a stored thread.\<close>

record thread_row =
  thread_provider_key :: string

section \<open>The contract models and the decoder\<close>

text \<open>
  \<open>json_loads\<close> raises JSONDecodeError on text that is not JSON and may raise other exceptions
  (a ValueError for an integer of too many digits, a RecursionError for nesting that is too
  deep). The three validators are pydantic models of \<open>funduq_contract\<close>: \<open>check_connect\<close> gives
  the text of the ValidationError, if any; the others give the error text or the validated value.
  The last two fields say which exceptions an \<open>except FunduqError\<close> and an
  \<open>except ValueError\<close> clause take.
\<close>

record contract =
  json_loads :: "string \<Rightarrow> exn + json"
  check_connect :: "json \<Rightarrow> json \<Rightarrow> json \<Rightarrow> json \<Rightarrow> json \<Rightarrow> string option"
  validate_registration :: "obj \<Rightarrow> string + registration"
  validate_verdict :: "json \<Rightarrow> string \<Rightarrow> string option \<Rightarrow> string option"
  is_funduq_error :: "exn \<Rightarrow> bool"
  is_value_error :: "exn \<Rightarrow> bool"

section \<open>The provider-facing operations of core\<close>

text \<open>
  \<open>'c\<close> is the state of core and of everything behind it. A plain \<open>call\<close> may raise; the two
  registration operations also say which calls core made on the connection while they ran.
\<close>

type_synonym ('c, 'a) link_op = "'c \<Rightarrow> (exn + 'a) \<times> link_call list \<times> 'c"

record 'c core = contract +
  identity_public_key :: string
  attach_provider :: "conn \<Rightarrow> json \<Rightarrow> json \<Rightarrow> json \<Rightarrow> ('c, exn, json) call"
  detach_provider :: "string \<Rightarrow> nat \<Rightarrow> 'c \<Rightarrow> 'c"
  register_agents ::
    "conn \<Rightarrow> (string \<Rightarrow> bool) \<Rightarrow> registration list \<Rightarrow> json \<Rightarrow> ('c, (string \<times> agent_ref) list) link_op"
  delete_agent :: "conn \<Rightarrow> string \<Rightarrow> ('c, unit) link_op"
  answer_offer :: "json \<Rightarrow> offer_answer \<Rightarrow> string \<Rightarrow> ('c, exn, bool) call"
  report_event :: "json \<Rightarrow> json \<Rightarrow> string \<Rightarrow> ('c, exn, bool) call"
  finish_run :: "json \<Rightarrow> string \<Rightarrow> ('c, exn, bool) call"
  get_thread :: "string \<Rightarrow> ('c, exn, thread_row option) call"
  parties_of :: "string \<Rightarrow> ('c, exn, string list option) call"
  get_thread_messages :: "string \<Rightarrow> ('c, exn, json list) call"
  get_agent :: "agent_ref \<Rightarrow> ('c, exn, bool) call"

end
