(* ===== verification/Ws_Common.thy ===== *)
theory Ws_Common
  imports Funduq_Core
begin

text \<open>
  \<open>souk_server/ws_common.py\<close>: the frame plumbing both sockets share. A raw ASGI message is its
  text, a binary payload or the disconnect; a parsed frame is a JSON object; the outbound queue
  is the list of frames put and not yet taken, oldest first.
\<close>

datatype asgi_message = TextMessage string | BinaryMessage | Disconnect

definition POLICY_VIOLATION :: int where
  "POLICY_VIOLATION = 1008"

definition INTERNAL_ERROR :: int where
  "INTERNAL_ERROR = 1011"

definition CLOSE :: string where
  "CLOSE = ''_close''"

definition close_frame :: "int \<Rightarrow> string \<Rightarrow> obj" where
  "close_frame code reason =
     [(''type'', JStr CLOSE), (''code'', JInt code), (''reason'', JStr reason)]"

text \<open>
  \<open>parse_frame\<close>: the object in a message, \<open>None\<close> if it holds none. Only JSONDecodeError is
  caught around the decoder; what else it raises propagates to the caller.
\<close>

fun message_text :: "asgi_message \<Rightarrow> string option" where
  "message_text (TextMessage t) = Some t"
| "message_text BinaryMessage = None"
| "message_text Disconnect = None"

definition parse_frame :: "'z contract_scheme \<Rightarrow> asgi_message \<Rightarrow> exn + obj option" where
  "parse_frame K m =
     (case message_text m of
        None \<Rightarrow> Inr None
      | Some t \<Rightarrow>
          (case json_loads K t of
             Inl e \<Rightarrow> if is_class JSONDecodeError e then Inr None else Inl e
           | Inr j \<Rightarrow> (case j of JObj d \<Rightarrow> Inr (Some d) | _ \<Rightarrow> Inr None)))"

text \<open>
  \<open>receive_hello\<close>: \<open>None\<close> for the first message is the timeout. The outcome is the hello, the
  close this side sent, or a peer that left.
\<close>

datatype hello_outcome = GotHello obj | ClosedHello int string | PeerGone

definition receive_hello ::
  "'z contract_scheme \<Rightarrow> asgi_message option \<Rightarrow> exn + hello_outcome" where
  "receive_hello K first =
     (case first of
        None \<Rightarrow> Inr (ClosedHello POLICY_VIOLATION ''no hello frame'')
      | Some m \<Rightarrow>
          if m = Disconnect then Inr PeerGone
          else (case parse_frame K m of
                  Inl e \<Rightarrow> Inl e
                | Inr None \<Rightarrow> Inr (ClosedHello POLICY_VIOLATION ''first frame must be hello'')
                | Inr (Some hello) \<Rightarrow>
                    if dget hello ''type'' \<noteq> JStr ''hello''
                    then Inr (ClosedHello POLICY_VIOLATION ''first frame must be hello'')
                    else Inr (GotHello hello)))"

text \<open>
  \<open>write_loop\<close>: sends what is queued in order, until a close frame ends it or the queue runs
  empty and it waits. The outcome holds the frames sent, how it stands, and what it left queued.
\<close>

datatype writer_state = Waiting | ClosedWith json json | WriterRaised exn

fun write_loop :: "obj list \<Rightarrow> obj list \<times> writer_state \<times> obj list" where
  "write_loop [] = ([], Waiting, [])"
| "write_loop (f # q) =
     (if dget f ''type'' = JStr CLOSE
      then (case (map_of f ''code'', map_of f ''reason'') of
              (Some c, Some r) \<Rightarrow> ([], ClosedWith c r, q)
            | _ \<Rightarrow> ([], WriterRaised (Exn KeyError ''code''), q))
      else (case write_loop q of (sent, st, rest) \<Rightarrow> (f # sent, st, rest)))"

section \<open>What the plumbing guarantees\<close>

lemma close_frame_type [frame_simps]: "dget (close_frame c r) ''type'' = JStr CLOSE"
  by (simp add: close_frame_def)

lemma parse_frame_Some:
  "parse_frame K m = Inr (Some d) \<longleftrightarrow> (\<exists>t. m = TextMessage t \<and> json_loads K t = Inr (JObj d))"
  by (cases m) (auto simp: parse_frame_def split: sum.splits json.splits)

lemma parse_frame_raises:
  "parse_frame K m = Inl e \<longleftrightarrow>
     (\<exists>t. m = TextMessage t \<and> json_loads K t = Inl e \<and> \<not> is_class JSONDecodeError e)"
  by (cases m) (auto simp: parse_frame_def split: sum.splits json.splits)

lemma parse_frame_Disconnect [simp]: "parse_frame K Disconnect = Inr None"
  by (simp add: parse_frame_def)

lemma receive_hello_got:
  "receive_hello K first = Inr (GotHello h) \<longleftrightarrow>
     (\<exists>m. first = Some m \<and> parse_frame K m = Inr (Some h) \<and> dget h ''type'' = JStr ''hello'')"
  by (cases first)
     (auto simp: receive_hello_def split: sum.splits option.splits)

lemma write_loop_sends:
  "fst (write_loop q) = takeWhile (\<lambda>f. dget f ''type'' \<noteq> JStr CLOSE) q"
  by (induction q) (auto split: prod.splits option.splits)

lemma write_loop_waiting:
  "fst (snd (write_loop q)) = Waiting \<longleftrightarrow> (\<forall>f \<in> set q. dget f ''type'' \<noteq> JStr CLOSE)"
  by (induction q) (auto split: prod.splits option.splits)

lemma write_loop_app_open:
  "\<forall>f \<in> set q. dget f ''type'' \<noteq> JStr CLOSE \<Longrightarrow>
   write_loop (q @ q') = (q @ fst (write_loop q'), snd (write_loop q'))"
  by (induction q) (auto split: prod.splits)

lemma write_loop_close:
  "\<forall>f \<in> set q. dget f ''type'' \<noteq> JStr CLOSE \<Longrightarrow>
   write_loop (q @ close_frame c r # rest) = (q, ClosedWith (JInt c) (JStr r), rest)"
  by (simp add: write_loop_app_open) (simp add: close_frame_def)

end
