(* ===== verification/Handshake.thy ===== *)
theory Handshake
  imports Ws_Common
begin

text \<open>
  \<open>souk_server/handshake.py\<close> and the two \<open>_hello_error\<close> functions: what a \<open>hello\<close> must carry
  before core is asked to verify its proof.
\<close>

definition WIRE_VERSION :: int where
  "WIRE_VERSION = 4"

definition version_text :: string where
  "version_text = ''v'' @ int_text WIRE_VERSION"

text \<open>The version check both sockets make first; the advice at the end differs per socket.\<close>

definition unsupported_version :: "json \<Rightarrow> string" where
  "unsupported_version version =
     ''unsupported wire version '' @ py_repr version @ ''; this souk speaks '' @ version_text"

fun first_missing :: "obj \<Rightarrow> (string \<times> string) list \<Rightarrow> string option" where
  "first_missing hello [] = None"
| "first_missing hello ((field, message) # rest) =
     (if nonempty_str (dget hello field) then first_missing hello rest else Some message)"

definition hello_fields :: "(string \<times> string) list" where
  "hello_fields =
     [(''publicKey'', ''hello needs a publicKey''),
      (''ticket'', ''hello needs a ticket '' @ em_dash @ '' POST /tickets issues one''),
      (''nonce'', ''hello needs a nonce''),
      (''proof'', ''hello needs a proof signed over the ticket'')]"

definition provider_hello_error :: "'z contract_scheme \<Rightarrow> obj \<Rightarrow> string option" where
  "provider_hello_error K hello =
     (let version = dget hello ''version'' in
      if \<not> eq_int version WIRE_VERSION
      then (if version = JNull
            then Some (''hello has no version: this souk speaks wire '' @ version_text @
                       '', the ticket handshake. Upgrade souk-agent-sdk.'')
            else Some (unsupported_version version))
      else (case first_missing hello hello_fields of
              Some message \<Rightarrow> Some message
            | None \<Rightarrow>
                (case check_connect K (dget hello ''publicKey'') (dget hello ''ticket'')
                        (dget hello ''nonce'') (dget hello ''proof'')
                        (dget hello ''maxConcurrentRuns'') of
                   Some e \<Rightarrow> Some (''hello is not a valid connect: '' @ e)
                 | None \<Rightarrow> None)))"

definition kyok_hello_error :: "obj \<Rightarrow> string option" where
  "kyok_hello_error hello =
     (let version = dget hello ''version'' in
      if \<not> eq_int version WIRE_VERSION
      then (if version = JNull
            then Some (''hello has no version: this souk speaks wire '' @ version_text @
                       '', the ticket handshake'')
            else Some (unsupported_version version))
      else if \<not> nonempty_str (dget hello ''publicKey'') then Some ''hello needs a publicKey''
      else if \<not> nonempty_str (dget hello ''ticket'')
        then Some (''hello needs a ticket '' @ em_dash @ '' POST /tickets issues one'')
      else if \<not> nonempty_str (dget hello ''nonce'') then Some ''hello needs a nonce''
      else if \<not> nonempty_str (dget hello ''proof'')
        then Some ''hello needs a proof signed over the ticket''
      else None)"

section \<open>What the checks admit\<close>

definition hello_complete :: "obj \<Rightarrow> bool" where
  "hello_complete hello \<longleftrightarrow>
     eq_int (dget hello ''version'') WIRE_VERSION \<and>
     (\<forall>k \<in> {''publicKey'', ''ticket'', ''nonce'', ''proof''}. nonempty_str (dget hello k))"

lemma first_missing_None:
  "first_missing hello fs = None \<longleftrightarrow> (\<forall>(k, m) \<in> set fs. nonempty_str (dget hello k))"
  by (induction fs) (auto split: prod.splits)

lemma first_missing_hello:
  "first_missing hello hello_fields = None \<longleftrightarrow>
     (\<forall>k \<in> {''publicKey'', ''ticket'', ''nonce'', ''proof''}. nonempty_str (dget hello k))"
  by (simp add: first_missing_None hello_fields_def)

lemma hello_complete_missing:
  "hello_complete hello \<longleftrightarrow>
     eq_int (dget hello ''version'') WIRE_VERSION \<and> first_missing hello hello_fields = None"
  by (simp only: hello_complete_def first_missing_hello)

lemma kyok_hello_ok: "kyok_hello_error hello = None \<longleftrightarrow> hello_complete hello"
  by (auto simp: kyok_hello_error_def hello_complete_def Let_def)

lemma provider_hello_ok:
  "provider_hello_error K hello = None \<longleftrightarrow>
     hello_complete hello \<and>
     check_connect K (dget hello ''publicKey'') (dget hello ''ticket'') (dget hello ''nonce'')
       (dget hello ''proof'') (dget hello ''maxConcurrentRuns'') = None"
  by (auto simp: provider_hello_error_def hello_complete_missing Let_def split: option.splits)

lemma hello_complete_key:
  assumes "hello_complete hello"
  obtains k where "dget hello ''publicKey'' = JStr k" and "k \<noteq> []"
  using assms by (auto simp: hello_complete_def elim: nonempty_strE)

lemma version_true_is_not_four: "\<not> eq_int (JBool b) WIRE_VERSION"
  by (simp add: WIRE_VERSION_def)

end
