(* ===== verification/Reads.thy ===== *)
theory Reads
  imports Funduq_Core
begin

text \<open>
  \<open>souk_server/reads.py\<close>: the one rule about who may read a thread, and its contract as a
  locale, which the provider socket's query and the three A2A reads are clients of.
\<close>

definition may_read :: "('c, 'z) core_scheme \<Rightarrow> string \<Rightarrow> string option \<Rightarrow> ('c, exn, bool) call" where
  "may_read F thread_id key =
     bind_io (get_thread F thread_id) (\<lambda>thread.
       if thread = None then ret_io False
       else bind_io (parties_of F thread_id) (\<lambda>parties.
         ret_io (case parties of
                   None \<Rightarrow> True
                 | Some ps \<Rightarrow> (case key of None \<Rightarrow> False | Some k \<Rightarrow> k \<in> set ps))))"

section \<open>The reading contract\<close>

text \<open>
  \<open>may t k\<close>: the door lets \<open>k\<close> read \<open>t\<close>. \<open>known t\<close>: the thread exists. \<open>parties t\<close>: what
  core answers when asked for the parties, \<open>None\<close> when it raised.
\<close>

locale reader_gate =
  fixes may :: "'t \<Rightarrow> 'k option \<Rightarrow> bool"
    and known :: "'t \<Rightarrow> bool"
    and parties :: "'t \<Rightarrow> 'k list option option"
  assumes missing_closed: "\<not> known t \<Longrightarrow> \<not> may t k"
    and failed_closed: "parties t = None \<Longrightarrow> \<not> may t k"
    and unbound_open: "known t \<Longrightarrow> parties t = Some None \<Longrightarrow> may t k"
    and bound_parties: "parties t = Some (Some ps) \<Longrightarrow>
      may t k \<longleftrightarrow> known t \<and> (\<exists>x. k = Some x \<and> x \<in> set ps)"
begin

lemma reads_known: "may t k \<Longrightarrow> known t"
  using missing_closed by blast

lemma nobody_reads_bound: "parties t = Some (Some ps) \<Longrightarrow> \<not> may t None"
  by (simp add: bound_parties)

lemma stranger_closed: "parties t = Some (Some ps) \<Longrightarrow> x \<notin> set ps \<Longrightarrow> \<not> may t (Some x)"
  by (simp add: bound_parties)

lemma anonymous_needs_unbound: "may t None \<Longrightarrow> parties t = Some None"
proof (cases "parties t")
  case None
  then show "may t None \<Longrightarrow> ?thesis" by (simp add: failed_closed)
next
  case (Some ps)
  then show "may t None \<Longrightarrow> ?thesis" by (cases ps) (auto dest: nobody_reads_bound)
qed

lemma reads_iff:
  "may t k \<longleftrightarrow> known t \<and>
     (\<exists>ps. parties t = Some ps \<and> (ps = None \<or> (\<exists>x xs. ps = Some xs \<and> k = Some x \<and> x \<in> set xs)))"
proof (cases "parties t")
  case None
  then show ?thesis by (simp add: failed_closed)
next
  case (Some ps)
  then show ?thesis
    by (cases ps) (auto simp: bound_parties intro: unbound_open dest: reads_known)
qed

end

text \<open>The contract's three views of a core in a given state.\<close>

definition may_read_at :: "('c, 'z) core_scheme \<Rightarrow> 'c \<Rightarrow> string \<Rightarrow> string option \<Rightarrow> bool" where
  "may_read_at F c t k \<longleftrightarrow> fst (may_read F t k c) = Inr True"

definition thread_known :: "('c, 'z) core_scheme \<Rightarrow> 'c \<Rightarrow> string \<Rightarrow> bool" where
  "thread_known F c t \<longleftrightarrow> (case fst (get_thread F t c) of Inr (Some r) \<Rightarrow> True | _ \<Rightarrow> False)"

definition parties_seen :: "('c, 'z) core_scheme \<Rightarrow> 'c \<Rightarrow> string \<Rightarrow> string list option option" where
  "parties_seen F c t =
     (case fst (parties_of F t (snd (get_thread F t c))) of Inl e \<Rightarrow> None | Inr ps \<Rightarrow> Some ps)"

interpretation rg: reader_gate "may_read_at F c" "thread_known F c" "parties_seen F c"
  for F :: "('c, 'z) core_scheme" and c :: 'c
  by unfold_locales
     (auto simp: may_read_at_def thread_known_def parties_seen_def may_read_def io_simps
        split: prod.splits sum.splits option.splits if_splits)

lemma may_read_false_or_true:
  "fst (may_read F t k c) = Inr b \<Longrightarrow> b = may_read_at F c t k"
  by (cases b) (auto simp: may_read_at_def)

end
