(* ===== verification/Provider_Link.thy ===== *)
theory Provider_Link
  imports Handshake Reads
begin

text \<open>
  \<open>souk_server/ws_provider.py\<close>, the pure half: the \<open>SocketProvider\<close> object core holds for an
  attached provider, and the readers of the \<open>register\<close> and \<open>ack\<close> frames.
\<close>

section \<open>The SocketProvider object\<close>

definition QUERY_METHODS :: "string set" where
  "QUERY_METHODS = {''thread_messages''}"

definition INBOUND_FRAME_TYPES :: "string set" where
  "INBOUND_FRAME_TYPES = {''register'', ''deleteAgent'', ''ack'', ''event'', ''finish'', ''query''}"

text \<open>
  The fields of the object: its identity, key and capacity, the queue the writer drains, the
  roster it last published and the interjection table that roster declared.
\<close>

record link =
  link_conn :: conn
  outbound :: "obj list"
  registered_names :: "string set"
  interjections :: "string \<rightharpoonup> bool"

definition PROTOCOL_SURFACE :: "string list" where
  "PROTOCOL_SURFACE =
     [''public_key'', ''max_concurrent_runs'', ''deliver'', ''cancel'', ''takes_interjections'']"

text \<open>The constructor: a class without the whole surface is refused with its missing names.\<close>

definition missing_surface :: "string list \<Rightarrow> string list \<Rightarrow> string list" where
  "missing_surface surface attrs = sort (filter (\<lambda>a. a \<notin> set attrs) surface)"

definition new_provider :: "string list \<Rightarrow> nat \<Rightarrow> string \<Rightarrow> json \<Rightarrow> exn + link" where
  "new_provider attrs cid public_key max_concurrent_runs =
     (let missing = missing_surface PROTOCOL_SURFACE attrs in
      if missing \<noteq> []
      then Inl (Exn TypeError (''SocketProvider is not a ConnectedProvider: missing '' @
                               py_repr (JList (map JStr missing))))
      else Inr \<lparr>link_conn = \<lparr>conn_id = cid, conn_key = public_key, conn_max = max_concurrent_runs\<rparr>,
                outbound = [], registered_names = {}, interjections = Map.empty\<rparr>)"

text \<open>The attributes the class itself has.\<close>

definition socket_provider_attrs :: "string list" where
  "socket_provider_attrs =
     [''public_key'', ''max_concurrent_runs'', ''declare_interjections'', ''takes_interjections'',
      ''deliver'', ''cancel'']"

definition put :: "obj \<Rightarrow> link \<Rightarrow> link" where
  "put frame l = l\<lparr>outbound := outbound l @ [frame]\<rparr>"

definition declare_interjections :: "registration list \<Rightarrow> link \<Rightarrow> link" where
  "declare_interjections regs l =
     l\<lparr>interjections := map_of (rev (map (\<lambda>r. (reg_name r, truthy (reg_interjections r))) regs))\<rparr>"

definition takes_interjections :: "link \<Rightarrow> string \<Rightarrow> bool" where
  "takes_interjections l agent_name =
     (case interjections l agent_name of None \<Rightarrow> False | Some b \<Rightarrow> b)"

text \<open>\<open>{"type": "run", **run.model_dump(...)}\<close>: the dump is the argument.\<close>

definition deliver :: "obj \<Rightarrow> link \<Rightarrow> link" where
  "deliver run l = put (dict_merge [(''type'', JStr ''run'')] run) l"

definition cancel :: "json \<Rightarrow> link \<Rightarrow> bool \<times> link" where
  "cancel run_id l = (True, put [(''type'', JStr ''cancel''), (''runId'', run_id)] l)"

text \<open>Core's calls on the connection while one of ours is suspended.\<close>

definition link_call :: "link_call \<Rightarrow> link \<Rightarrow> link" where
  "link_call k l = (case k of CallDeliver run \<Rightarrow> deliver run l | CallCancel r \<Rightarrow> snd (cancel r l))"

definition link_calls :: "link_call list \<Rightarrow> link \<Rightarrow> link" where
  "link_calls ks l = fold link_call ks l"

section \<open>Reading a register frame\<close>

definition name_char :: "char \<Rightarrow> bool" where
  "name_char c \<longleftrightarrow>
     (CHR ''A'' \<le> c \<and> c \<le> CHR ''Z'') \<or> (CHR ''a'' \<le> c \<and> c \<le> CHR ''z'') \<or>
     (CHR ''0'' \<le> c \<and> c \<le> CHR ''9'') \<or> c = CHR ''_'' \<or> c = CHR ''-''"

text \<open>
  \<open>re.match\<close> of the pattern \<open>^[A-Za-z0-9_-]{1,128}$\<close>: a run of 1 to 128 of these characters, then
  the end, where \<open>$\<close> also stands before one newline that ends the string.
\<close>

definition agent_name_match :: "string \<Rightarrow> bool" where
  "agent_name_match s \<longleftrightarrow>
     (let run = takeWhile name_char s; rest = dropWhile name_char s in
      1 \<le> length run \<and> length run \<le> 128 \<and> (rest = [] \<or> rest = [CHR 0x0A]))"

fun parse_entries :: "'z contract_scheme \<Rightarrow> json list \<Rightarrow> string + registration list" where
  "parse_entries K [] = Inr []"
| "parse_entries K (entry # rest) =
     (case entry of
        JObj d \<Rightarrow>
          (case validate_registration K d of
             Inl e \<Rightarrow> Inl (''invalid agent registration: '' @ e)
           | Inr registration \<Rightarrow>
               if \<not> agent_name_match (reg_name registration)
               then Inl (''invalid agent name '' @ repr_str (reg_name registration) @
                         '': names are 1-128 characters of [A-Za-z0-9_-]'')
               else (case parse_entries K rest of
                       Inl e \<Rightarrow> Inl e
                     | Inr regs \<Rightarrow> Inr (registration # regs)))
      | _ \<Rightarrow> Inl ''each agent must be an object'')"

definition parse_registration :: "'z contract_scheme \<Rightarrow> obj \<Rightarrow> string + registration list" where
  "parse_registration K frame =
     (case dget frame ''agents'' of
        JList agents \<Rightarrow>
          if agents = [] then Inl ''register needs a non-empty 'agents' list''
          else parse_entries K agents
      | _ \<Rightarrow> Inl ''register needs a non-empty 'agents' list'')"

section \<open>Reading an ack frame\<close>

record verdict =
  v_id :: json
  v_verdict :: string
  v_reason :: "string option"

definition reason_of :: "json \<Rightarrow> string option" where
  "reason_of reason = (case reason of JStr s \<Rightarrow> if s \<noteq> [] then Some s else None | _ \<Rightarrow> None)"

definition parse_verdict :: "'z contract_scheme \<Rightarrow> obj \<Rightarrow> string + verdict" where
  "parse_verdict K frame =
     (let reason = dget frame ''reason'';
          accepted = truthy (dget_or frame ''accepted'' (JBool True));
          word = (if accepted then ''accepted''
                  else if reason_of reason \<noteq> None then ''refused'' else ''declined'')
      in case validate_verdict K (dget frame ''runId'') word (reason_of reason) of
           Some e \<Rightarrow> Inl e
         | None \<Rightarrow> Inr \<lparr>v_id = dget frame ''runId'', v_verdict = word, v_reason = reason_of reason\<rparr>)"

text \<open>What the read loop hands to \<open>answer_offer\<close>.\<close>

definition verdict_answer :: "verdict \<Rightarrow> offer_answer" where
  "verdict_answer v =
     (if v_verdict v = ''refused''
      then RefusedBecause (case v_reason v of Some r \<Rightarrow> if r \<noteq> [] then r else ''refused''
                                           | None \<Rightarrow> ''refused'')
      else if v_verdict v = ''accepted'' then Accepted else Declined)"

section \<open>Facts about the object\<close>

lemma link_frame_simps [link_simps]:
  "link_conn (put f l) = link_conn l"
  "outbound (put f l) = outbound l @ [f]"
  "registered_names (put f l) = registered_names l"
  "interjections (put f l) = interjections l"
  "link_conn (deliver r l) = link_conn l"
  "registered_names (deliver r l) = registered_names l"
  "interjections (deliver r l) = interjections l"
  "link_conn (snd (cancel i l)) = link_conn l"
  "registered_names (snd (cancel i l)) = registered_names l"
  "interjections (snd (cancel i l)) = interjections l"
  "link_conn (declare_interjections rs l) = link_conn l"
  "outbound (declare_interjections rs l) = outbound l"
  "registered_names (declare_interjections rs l) = registered_names l"
  by (simp_all add: put_def deliver_def cancel_def declare_interjections_def)

lemma link_call_frame [link_simps]:
  "link_conn (link_call k l) = link_conn l"
  "registered_names (link_call k l) = registered_names l"
  "interjections (link_call k l) = interjections l"
  by (simp_all add: link_call_def link_frame_simps split: link_call.splits)

lemma link_calls_frame [link_simps]:
  "link_conn (link_calls ks l) = link_conn l"
  "registered_names (link_calls ks l) = registered_names l"
  "interjections (link_calls ks l) = interjections l"
  unfolding link_calls_def
  by (induction ks arbitrary: l) (simp_all add: link_call_frame)

lemma outbound_link_call: "\<exists>f. outbound (link_call k l) = outbound l @ [f]"
  by (auto simp: link_call_def deliver_def cancel_def put_def split: link_call.splits)

lemma outbound_link_calls: "\<exists>fs. outbound (link_calls ks l) = outbound l @ fs \<and> length fs = length ks"
proof (induction ks arbitrary: l)
  case Nil
  then show ?case by (simp add: link_calls_def)
next
  case (Cons k ks)
  obtain f where f: "outbound (link_call k l) = outbound l @ [f]"
    using outbound_link_call by blast
  obtain fs where "outbound (link_calls ks (link_call k l)) = outbound (link_call k l) @ fs"
    and "length fs = length ks"
    using Cons.IH by blast
  with f show ?case by (intro exI [of _ "f # fs"]) (simp add: link_calls_def)
qed

text \<open>The class has the whole surface, so its constructor never refuses.\<close>

lemma socket_provider_complete: "missing_surface PROTOCOL_SURFACE socket_provider_attrs = []"
  by (simp add: missing_surface_def PROTOCOL_SURFACE_def socket_provider_attrs_def)

lemma new_provider_ok:
  "new_provider socket_provider_attrs cid k m =
     Inr \<lparr>link_conn = \<lparr>conn_id = cid, conn_key = k, conn_max = m\<rparr>, outbound = [],
          registered_names = {}, interjections = Map.empty\<rparr>"
  by (simp add: new_provider_def socket_provider_complete)

lemma missing_surface_set: "set (missing_surface surface attrs) = set surface - set attrs"
  by (auto simp: missing_surface_def)

text \<open>The interjection table is the last roster's, and nothing of an earlier one survives.\<close>

lemma takes_interjections_declared:
  assumes "distinct (map reg_name regs)"
  shows "takes_interjections (declare_interjections regs l) n \<longleftrightarrow>
    (\<exists>r \<in> set regs. reg_name r = n \<and> truthy (reg_interjections r))"
proof -
  let ?t = "map (\<lambda>r. (reg_name r, truthy (reg_interjections r))) regs"
  have d: "distinct (map fst ?t)" using assms by (simp add: comp_def)
  then have "map_of (rev ?t) = map_of ?t" by (rule map_of_rev_distinct)
  then have "takes_interjections (declare_interjections regs l) n \<longleftrightarrow> map_of ?t n = Some True"
    by (simp only: takes_interjections_def declare_interjections_def) (simp split: option.splits)
  also have "\<dots> \<longleftrightarrow> (n, True) \<in> set ?t" using d by (rule map_of_eq_Some_iff)
  finally show ?thesis by auto
qed

lemma unpublished_takes_none:
  "n \<notin> reg_name ` set regs \<Longrightarrow> \<not> takes_interjections (declare_interjections regs l) n"
  by (auto simp: takes_interjections_def declare_interjections_def image_iff
      split: option.splits dest!: map_of_SomeD)

section \<open>Facts about the readers\<close>

definition url_name :: "string \<Rightarrow> bool" where
  "url_name s \<longleftrightarrow> 1 \<le> length s \<and> length s \<le> 128 \<and> list_all name_char s"

lemma name_char_newline: "\<not> name_char (CHR 0x0A)"
  by (simp add: name_char_def less_eq_char_def)

lemma agent_name_match_iff:
  "agent_name_match s \<longleftrightarrow> url_name s \<or> (\<exists>t. s = t @ [CHR 0x0A] \<and> url_name t)"
proof
  assume m: "agent_name_match s"
  define run rest where "run = takeWhile name_char s" and "rest = dropWhile name_char s"
  then have s: "s = run @ rest" by simp
  have "list_all name_char run" unfolding run_def list_all_iff by (meson set_takeWhileD)
  with m have run: "url_name run"
    by (simp add: agent_name_match_def url_name_def Let_def run_def)
  from m have "rest = [] \<or> rest = [CHR 0x0A]"
    by (simp add: agent_name_match_def Let_def rest_def)
  with s run show "url_name s \<or> (\<exists>t. s = t @ [CHR 0x0A] \<and> url_name t)" by auto
next
  assume "url_name s \<or> (\<exists>t. s = t @ [CHR 0x0A] \<and> url_name t)"
  then show "agent_name_match s"
  proof
    assume u: "url_name s"
    then have run: "takeWhile name_char s = s" and rest: "dropWhile name_char s = []"
      by (simp_all add: url_name_def list_all_iff)
    show ?thesis
      unfolding agent_name_match_def run rest using u by (simp add: url_name_def Let_def)
  next
    assume "\<exists>t. s = t @ [CHR 0x0A] \<and> url_name t"
    then obtain t where s: "s = t @ [CHR 0x0A]" and u: "url_name t" by blast
    from u have "\<forall>c \<in> set t. name_char c" by (simp add: url_name_def list_all_iff)
    with s have run: "takeWhile name_char s = t" and rest: "dropWhile name_char s = [CHR 0x0A]"
      by (simp_all add: takeWhile_append2 dropWhile_append2 name_char_newline)
    show ?thesis
      unfolding agent_name_match_def run rest using u by (simp add: url_name_def Let_def)
  qed
qed

lemma parse_entries_names:
  "parse_entries K es = Inr regs \<Longrightarrow> r \<in> set regs \<Longrightarrow> agent_name_match (reg_name r)"
  by (induction es arbitrary: regs) (auto split: json.splits sum.splits if_splits)

lemma parse_entries_length: "parse_entries K es = Inr regs \<Longrightarrow> length regs = length es"
  by (induction es arbitrary: regs) (auto split: json.splits sum.splits if_splits)

lemma parse_registration_ok:
  assumes "parse_registration K frame = Inr regs"
  shows "regs \<noteq> [] \<and> (\<forall>r \<in> set regs. agent_name_match (reg_name r))"
  using assms parse_entries_length parse_entries_names
  by (fastforce simp: parse_registration_def split: json.splits if_splits)

lemma reason_of_nonempty: "reason_of j = Some r \<Longrightarrow> r \<noteq> []"
  by (auto simp: reason_of_def split: json.splits if_splits)

lemma parse_verdict_answer:
  assumes "parse_verdict K frame = Inr v"
  shows "verdict_answer v =
    (if truthy (dget_or frame ''accepted'' (JBool True)) then Accepted
     else (case reason_of (dget frame ''reason'') of Some r \<Rightarrow> RefusedBecause r | None \<Rightarrow> Declined))"
  using assms reason_of_nonempty
  by (auto simp: parse_verdict_def verdict_answer_def Let_def split: option.splits if_splits)

end
