(* ===== verification/Provider_Socket.thy ===== *)
theory Provider_Socket
  imports Provider_Link
begin

text \<open>
  \<open>souk_server/ws_provider.py\<close>, the half with effects: opening \<open>/ws/provider\<close>, the read loop's
  handler for each frame type, the spawned query task, the registration watcher and the
  teardown, and the step relation that interleaves them with core's own calls on the link.
\<close>

section \<open>The state of one open socket\<close>

datatype phase = Opened | Closing | Gone

instantiation phase :: linorder
begin

fun rank :: "phase \<Rightarrow> nat" where
  "rank Opened = 0"
| "rank Closing = 1"
| "rank Gone = 2"

definition less_eq_phase :: "phase \<Rightarrow> phase \<Rightarrow> bool" where
  "less_eq_phase p q \<longleftrightarrow> rank p \<le> rank q"

definition less_phase :: "phase \<Rightarrow> phase \<Rightarrow> bool" where
  "less_phase p q \<longleftrightarrow> rank p < rank q"

instance
proof
  fix x y z :: phase
  show "(x < y) = (x \<le> y \<and> \<not> y \<le> x)" by (auto simp: less_phase_def less_eq_phase_def)
  show "x \<le> x" by (simp add: less_eq_phase_def)
  show "x \<le> y \<Longrightarrow> y \<le> z \<Longrightarrow> x \<le> z" by (simp add: less_eq_phase_def)
  show "x \<le> y \<Longrightarrow> y \<le> x \<Longrightarrow> x = y" by (cases x; cases y) (simp_all add: less_eq_phase_def)
  show "x \<le> y \<or> y \<le> x" by (auto simp: less_eq_phase_def)
qed

end

text \<open>
  The connection object, the world behind core, the query tasks spawned and not yet run, the
  frames the writer has sent, the close it made, whether the watcher still runs, and the phase:
  \<open>Closing\<close> once the writer has ended, \<open>Gone\<close> after the teardown.
\<close>

record 'c session =
  s_link :: link
  s_core :: 'c
  s_tasks :: "obj list"
  s_wire :: "obj list"
  s_close :: "obj option"
  s_watching :: bool
  s_phase :: phase

definition say :: "obj \<Rightarrow> 'c session \<Rightarrow> 'c session" where
  "say frame s = s\<lparr>s_link := put frame (s_link s)\<rparr>"

definition error_frame :: "string \<Rightarrow> obj" where
  "error_frame message = [(''type'', JStr ''error''), (''message'', JStr message)]"

definition named_error_frame :: "string \<Rightarrow> string \<Rightarrow> obj" where
  "named_error_frame name message =
     [(''type'', JStr ''error''), (''name'', JStr name), (''message'', JStr message)]"

definition run_error_frame :: "json \<Rightarrow> string \<Rightarrow> obj" where
  "run_error_frame run_id message =
     [(''type'', JStr ''error''), (''runId'', run_id), (''message'', JStr message)]"

text \<open>Looking a list or a dict up in a set raises TypeError.\<close>

definition unhashable :: "json \<Rightarrow> exn" where
  "unhashable j =
     Exn TypeError (''unhashable type: '' @
       (case j of JList xs \<Rightarrow> repr_str ''list'' | _ \<Rightarrow> repr_str ''dict''))"

section \<open>One query frame\<close>

definition query_result :: "json \<Rightarrow> obj \<Rightarrow> obj" where
  "query_result query_id extra =
     dict_merge [(''type'', JStr ''queryResult''), (''queryId'', query_id)] extra"

definition query_error :: "json \<Rightarrow> string \<Rightarrow> obj" where
  "query_error query_id message = query_result query_id [(''error'', JStr message)]"

definition no_such_thread :: string where
  "no_such_thread = ''no such thread for this provider''"

definition good_limit :: "json \<Rightarrow> bool" where
  "good_limit limit \<longleftrightarrow>
     limit = JNull \<or> (case as_int limit of Some n \<Rightarrow> n > 0 | None \<Rightarrow> False)"

definition trim_messages :: "json \<Rightarrow> json list \<Rightarrow> json list" where
  "trim_messages limit messages =
     (case as_int limit of Some n \<Rightarrow> last_n n messages | None \<Rightarrow> messages)"

definition answer_thread_messages ::
  "('c, 'z) core_scheme \<Rightarrow> string \<Rightarrow> json \<Rightarrow> obj \<Rightarrow> ('c, exn, obj list) call" where
  "answer_thread_messages F public_key query_id params =
     (case dget params ''threadId'' of
        JStr thread_id \<Rightarrow>
          if thread_id = [] then ret_io [query_error query_id ''thread_messages needs a threadId'']
          else if \<not> good_limit (dget params ''limit'')
            then ret_io [query_error query_id ''limit must be a positive integer'']
          else bind_io (get_thread F thread_id) (\<lambda>thread.
            case thread of
              None \<Rightarrow> ret_io [query_error query_id no_such_thread]
            | Some row \<Rightarrow>
                if thread_provider_key row \<noteq> public_key
                then ret_io [query_error query_id no_such_thread]
                else bind_io (may_read F thread_id (Some public_key)) (\<lambda>allowed.
                  if \<not> allowed then ret_io [query_error query_id no_such_thread]
                  else bind_io (get_thread_messages F thread_id) (\<lambda>messages.
                    ret_io [query_result query_id
                      [(''result'', JList (trim_messages (dget params ''limit'') messages))]])))
      | _ \<Rightarrow> ret_io [query_error query_id ''thread_messages needs a threadId''])"

definition answer_query ::
  "('c, 'z) core_scheme \<Rightarrow> string \<Rightarrow> obj \<Rightarrow> ('c, exn, obj list) call" where
  "answer_query F public_key parsed =
     (let query_id = dget parsed ''queryId'';
          query_method = dget parsed ''method'';
          params = py_or (dget parsed ''params'') (JObj [])
      in if \<not> nonempty_str query_id then ret_io [error_frame ''query needs a queryId'']
         else if \<not> hashable query_method then raise_io (unhashable query_method)
         else if query_method \<notin> JStr ` QUERY_METHODS
           then ret_io [query_error query_id (''unknown query method '' @ py_repr query_method)]
         else (case params of
                 JObj ps \<Rightarrow> answer_thread_messages F public_key query_id ps
               | _ \<Rightarrow> raise_io (Exn AttributeError ''get'')))"

section \<open>The read loop, frame type by frame type\<close>

text \<open>
  A handler gives the exception that leaves it, if any, and the session it leaves. A raised
  exception ends the read loop; everything else keeps the socket.
\<close>

type_synonym 'c handled = "exn option \<times> 'c session"

definition on_register :: "('c, 'z) core_scheme \<Rightarrow> obj \<Rightarrow> 'c session \<Rightarrow> 'c handled" where
  "on_register F parsed s =
     (case parse_registration F parsed of
        Inl message \<Rightarrow> (None, say (error_frame message) s)
      | Inr agents \<Rightarrow>
          (let l = declare_interjections agents (s_link s) in
           case register_agents F (link_conn l) (takes_interjections l) agents
                  (dget parsed ''providerName'') (s_core s) of
             (result, calls, c') \<Rightarrow>
               (let l' = link_calls calls l; s' = s\<lparr>s_link := l', s_core := c'\<rparr> in
                case result of
                  Inl e \<Rightarrow>
                    if is_funduq_error F e \<or> is_value_error F e
                    then (None, say (error_frame (exn_text e)) s') else (Some e, s')
                | Inr registered \<Rightarrow>
                    (let names = sort (map fst registered) in
                     (None, say [(''type'', JStr ''registered''), (''names'', JList (map JStr names))]
                              (s'\<lparr>s_link := l'\<lparr>registered_names := set names\<rparr>\<rparr>))))))"

definition on_delete_agent :: "('c, 'z) core_scheme \<Rightarrow> obj \<Rightarrow> 'c session \<Rightarrow> 'c handled" where
  "on_delete_agent F parsed s =
     (case dget parsed ''name'' of
        JStr name \<Rightarrow>
          if name = [] then (None, say (error_frame ''deleteAgent needs a name'') s)
          else (case delete_agent F (link_conn (s_link s)) name (s_core s) of
                  (result, calls, c') \<Rightarrow>
                    (let l' = link_calls calls (s_link s); s' = s\<lparr>s_link := l', s_core := c'\<rparr> in
                     case result of
                       Inl e \<Rightarrow>
                         if is_funduq_error F e
                         then (None, say (named_error_frame name (exn_text e)) s')
                         else (Some e, s')
                     | Inr u \<Rightarrow>
                         (None, say [(''type'', JStr ''deleted''), (''name'', JStr name)]
                            (s'\<lparr>s_link := l'\<lparr>registered_names := registered_names l' - {name}\<rparr>\<rparr>))))
      | _ \<Rightarrow> (None, say (error_frame ''deleteAgent needs a name'') s))"

definition on_ack :: "('c, 'z) core_scheme \<Rightarrow> obj \<Rightarrow> 'c session \<Rightarrow> 'c handled" where
  "on_ack F parsed s =
     (case parse_verdict F parsed of
        Inl e \<Rightarrow> (None, say (error_frame (''invalid ack: '' @ e)) s)
      | Inr v \<Rightarrow>
          (case answer_offer F (dget parsed ''runId'') (verdict_answer v)
                  (conn_key (link_conn (s_link s))) (s_core s) of
             (Inl e, c') \<Rightarrow> (Some e, s\<lparr>s_core := c'\<rparr>)
           | (Inr heard, c') \<Rightarrow> (None, s\<lparr>s_core := c'\<rparr>)))"

definition on_event :: "('c, 'z) core_scheme \<Rightarrow> obj \<Rightarrow> 'c session \<Rightarrow> 'c handled" where
  "on_event F parsed s =
     (let run_id = dget parsed ''runId'' in
      case report_event F run_id (dget parsed ''event'') (conn_key (link_conn (s_link s)))
             (s_core s) of
        (Inl e, c') \<Rightarrow> (Some e, s\<lparr>s_core := c'\<rparr>)
      | (Inr ok, c') \<Rightarrow>
          (let s' = s\<lparr>s_core := c'\<rparr> in
           (None, if ok then s' else say (run_error_frame run_id ''event refused'') s')))"

definition on_finish :: "('c, 'z) core_scheme \<Rightarrow> obj \<Rightarrow> 'c session \<Rightarrow> 'c handled" where
  "on_finish F parsed s =
     (let run_id = dget parsed ''runId'' in
      case finish_run F run_id (conn_key (link_conn (s_link s))) (s_core s) of
        (Inl e, c') \<Rightarrow> (Some e, s\<lparr>s_core := c'\<rparr>)
      | (Inr ok, c') \<Rightarrow>
          (let s' = s\<lparr>s_core := c'\<rparr> in
           (None, if ok then s' else say (run_error_frame run_id ''finish refused'') s')))"

definition on_query :: "obj \<Rightarrow> 'c session \<Rightarrow> 'c handled" where
  "on_query parsed s = (None, s\<lparr>s_tasks := s_tasks s @ [parsed]\<rparr>)"

definition on_frame :: "('c, 'z) core_scheme \<Rightarrow> obj \<Rightarrow> 'c session \<Rightarrow> 'c handled" where
  "on_frame F parsed s =
     (let kind = dget parsed ''type'' in
      if \<not> hashable kind then (Some (unhashable kind), s)
      else if kind \<notin> JStr ` INBOUND_FRAME_TYPES
        then (None, say (error_frame (''unexpected frame '' @ py_repr kind)) s)
      else if kind = JStr ''register'' then on_register F parsed s
      else if kind = JStr ''deleteAgent'' then on_delete_agent F parsed s
      else if kind = JStr ''ack'' then on_ack F parsed s
      else if kind = JStr ''event'' then on_event F parsed s
      else if kind = JStr ''finish'' then on_finish F parsed s
      else if kind = JStr ''query'' then on_query parsed s
      else (None, s))"

text \<open>One raw message that is not the disconnect.\<close>

definition on_message :: "('c, 'z) core_scheme \<Rightarrow> asgi_message \<Rightarrow> 'c session \<Rightarrow> 'c handled" where
  "on_message F m s =
     (case parse_frame F m of
        Inl e \<Rightarrow> (Some e, s)
      | Inr None \<Rightarrow> (None, say (error_frame ''unparseable frame'') s)
      | Inr (Some parsed) \<Rightarrow> on_frame F parsed s)"

text \<open>
  The read loop over the messages that have arrived: it ends at the disconnect or at the first
  exception (\<open>Some\<close>), and otherwise waits for more (\<open>None\<close>).
\<close>

datatype loop_end = Left | Raised exn

fun read_loop :: "('c, 'z) core_scheme \<Rightarrow> asgi_message list \<Rightarrow> 'c session \<Rightarrow>
    loop_end option \<times> 'c session" where
  "read_loop F [] s = (None, s)"
| "read_loop F (m # ms) s =
     (if m = Disconnect then (Some Left, s)
      else (case on_message F m s of
              (Some e, s') \<Rightarrow> (Some (Raised e), s')
            | (None, s') \<Rightarrow> read_loop F ms s'))"

text \<open>The \<open>finally\<close> block: detach this connection, stop the watcher and the writer.\<close>

definition teardown :: "('c, 'z) core_scheme \<Rightarrow> 'c session \<Rightarrow> 'c session" where
  "teardown F s =
     (let k = link_conn (s_link s) in
      s\<lparr>s_core := detach_provider F (conn_key k) (conn_id k) (s_core s),
        s_watching := False, s_phase := Gone\<rparr>)"

section \<open>The tasks beside the read loop\<close>

text \<open>One spawned query task run to its end; a task that raises puts nothing.\<close>

definition run_query :: "('c, 'z) core_scheme \<Rightarrow> nat \<Rightarrow> 'c session \<Rightarrow> 'c session" where
  "run_query F i s =
     (let s' = s\<lparr>s_tasks := take i (s_tasks s) @ drop (Suc i) (s_tasks s)\<rparr> in
      case answer_query F (conn_key (link_conn (s_link s))) (s_tasks s ! i) (s_core s) of
        (Inl e, c') \<Rightarrow> s'\<lparr>s_core := c'\<rparr>
      | (Inr frames, c') \<Rightarrow> fold say frames (s'\<lparr>s_core := c'\<rparr>))"

text \<open>\<open>[await funduq.get_agent(ref) is not None for ref in refs]\<close>.\<close>

fun ask_listed :: "('c, 'z) core_scheme \<Rightarrow> agent_ref list \<Rightarrow> ('c, exn, bool list) call" where
  "ask_listed F [] = ret_io []"
| "ask_listed F (ref # refs) =
     bind_io (get_agent F ref) (\<lambda>found. bind_io (ask_listed F refs) (\<lambda>rest. ret_io (found # rest)))"

definition delisted_frame :: obj where
  "delisted_frame =
     close_frame POLICY_VIOLATION ''funduq no longer lists these agents; re-register''"

text \<open>One waking of \<open>_watch_registration\<close>; an exception ends the watcher's task alone.\<close>

definition watch :: "('c, 'z) core_scheme \<Rightarrow> 'c session \<Rightarrow> 'c session" where
  "watch F s =
     (let key = conn_key (link_conn (s_link s));
          names = sorted_list_of_set (registered_names (s_link s))
      in if names = [] then s
         else (case ask_listed F (map (\<lambda>n. \<lparr>ref_provider_key = key, ref_name = n\<rparr>) names) (s_core s) of
                 (Inl e, c') \<Rightarrow> s\<lparr>s_core := c', s_watching := False\<rparr>
               | (Inr listed, c') \<Rightarrow>
                   if True \<in> set listed then s\<lparr>s_core := c'\<rparr>
                   else say delisted_frame (s\<lparr>s_core := c', s_watching := False\<rparr>)))"

text \<open>The writer taking one frame off the queue: it sends it, or closes the socket and returns.\<close>

definition write_one :: "'c session \<Rightarrow> 'c session" where
  "write_one s =
     (case outbound (s_link s) of
        [] \<Rightarrow> s
      | f # rest \<Rightarrow>
          (let s' = s\<lparr>s_link := (s_link s)\<lparr>outbound := rest\<rparr>\<rparr> in
           if dget f ''type'' = JStr CLOSE then s'\<lparr>s_close := Some f, s_phase := Closing\<rparr>
           else s'\<lparr>s_wire := s_wire s @ [f]\<rparr>))"

text \<open>
  A send that raises ends the writer's task. The frame in its hand is lost to it, but nothing takes
  frames off the queue from then on, so it may as well lie there, unsent like all that follow.
\<close>

definition writer_dies :: "'c session \<Rightarrow> 'c session" where
  "writer_dies s = s\<lparr>s_phase := Closing\<rparr>"

section \<open>Opening the socket\<close>

definition welcome_frame :: "string \<Rightarrow> json \<Rightarrow> obj" where
  "welcome_frame funduq_key answer =
     [(''type'', JStr ''welcome''), (''funduqPublicKey'', JStr funduq_key), (''answer'', answer)]"

datatype 'c door =
    NeverOpened 'c
  | ClosedAtDoor int string 'c
  | OpenRaised exn 'c
  | Open "'c session"

definition provider_open ::
  "('c, 'z) core_scheme \<Rightarrow> nat \<Rightarrow> asgi_message option \<Rightarrow> 'c \<Rightarrow> 'c door" where
  "provider_open F cid first c =
     (case receive_hello F first of
        Inl e \<Rightarrow> OpenRaised e c
      | Inr PeerGone \<Rightarrow> NeverOpened c
      | Inr (ClosedHello code reason) \<Rightarrow> ClosedAtDoor code reason c
      | Inr (GotHello hello) \<Rightarrow>
          (case provider_hello_error F hello of
             Some problem \<Rightarrow> ClosedAtDoor POLICY_VIOLATION problem c
           | None \<Rightarrow>
               (case new_provider socket_provider_attrs cid (py_str (dget hello ''publicKey''))
                       (dget hello ''maxConcurrentRuns'') of
                  Inl e \<Rightarrow> OpenRaised e c
                | Inr provider \<Rightarrow>
                    (case attach_provider F (link_conn provider) (dget hello ''ticket'')
                            (dget hello ''nonce'') (dget hello ''proof'') c of
                       (Inl e, c') \<Rightarrow>
                         if is_class InvalidRegistration e \<or> is_value_error F e
                         then ClosedAtDoor POLICY_VIOLATION (exn_text e) c' else OpenRaised e c'
                     | (Inr answer, c') \<Rightarrow>
                         Open \<lparr>s_link = put (welcome_frame (identity_public_key F) answer) provider,
                               s_core = c', s_tasks = [], s_wire = [], s_close = None,
                               s_watching = True, s_phase = Opened\<rparr>))))"

section \<open>Everything that can happen to an open socket\<close>

text \<open>
  \<open>W\<close> says what others may do to the world behind core. Messages are read until the teardown;
  the writer works until it closed the socket or a send of its own raised; a spawned task may outlive the teardown. A run
  core hands down is a dumped \<open>DeliveredRun\<close>, whose fields are the envelope's: \<open>type\<close> is the
  transport's own word and no field of it.
\<close>

definition untyped :: "obj \<Rightarrow> bool" where
  "untyped run \<longleftrightarrow> ''type'' \<notin> fst ` set run"

inductive provider_step ::
  "('c, 'z) core_scheme \<Rightarrow> ('c \<Rightarrow> 'c \<Rightarrow> bool) \<Rightarrow> 'c session \<Rightarrow> 'c session \<Rightarrow> bool"
  for F W where
  reads: "s_phase s \<noteq> Gone \<Longrightarrow> m \<noteq> Disconnect \<Longrightarrow> on_message F m s = (None, s') \<Longrightarrow>
    provider_step F W s s'"
| raises: "s_phase s \<noteq> Gone \<Longrightarrow> m \<noteq> Disconnect \<Longrightarrow> on_message F m s = (Some e, s') \<Longrightarrow>
    provider_step F W s (teardown F s')"
| leaves: "s_phase s \<noteq> Gone \<Longrightarrow> provider_step F W s (teardown F s)"
| offers: "untyped run \<Longrightarrow> provider_step F W s (s\<lparr>s_link := deliver run (s_link s)\<rparr>)"
| cancels: "provider_step F W s (s\<lparr>s_link := snd (cancel run_id (s_link s))\<rparr>)"
| queries: "i < length (s_tasks s) \<Longrightarrow> provider_step F W s (run_query F i s)"
| watches: "s_watching s \<Longrightarrow> provider_step F W s (watch F s)"
| writes: "s_phase s = Opened \<Longrightarrow> outbound (s_link s) \<noteq> [] \<Longrightarrow> provider_step F W s (write_one s)"
| send_fails: "s_phase s = Opened \<Longrightarrow> outbound (s_link s) \<noteq> [] \<Longrightarrow> provider_step F W s (writer_dies s)"
| world: "W (s_core s) c' \<Longrightarrow> provider_step F W s (s\<lparr>s_core := c'\<rparr>)"

definition provider_init :: "('c, 'z) core_scheme \<Rightarrow> nat \<Rightarrow> 'c session \<Rightarrow> bool" where
  "provider_init F cid s \<longleftrightarrow> (\<exists>first c. provider_open F cid first c = Open s)"

end
