(* ===== verification/Provider_Facts.thy ===== *)
theory Provider_Facts
  imports Provider_Socket
begin

text \<open>
  The library behind the provider socket's properties: what each handler may and may not change,
  the invariant of an open socket and the interpretation of the machine contracts on it, and a
  core that keeps a log of the calls made on it.
\<close>

section \<open>Handlers only add to the queue\<close>

definition grows :: "'c session \<Rightarrow> 'c session \<Rightarrow> bool" where
  "grows s t \<longleftrightarrow>
     link_conn (s_link t) = link_conn (s_link s) \<and> s_wire t = s_wire s \<and>
     s_close t = s_close s \<and> s_phase t = s_phase s \<and>
     prefix (outbound (s_link s)) (outbound (s_link t))"

lemma grows_refl [simp]: "grows s s"
  by (simp add: grows_def)

lemma grows_trans: "grows s t \<Longrightarrow> grows t u \<Longrightarrow> grows s u"
  by (auto simp: grows_def)

lemma grows_core [simp]: "grows s (s\<lparr>s_core := c\<rparr>)"
  by (simp add: grows_def)

lemma grows_tasks [simp]: "grows s (s\<lparr>s_tasks := ts\<rparr>)"
  by (simp add: grows_def)

lemma grows_say [simp]: "grows s (say f s)"
  by (simp add: grows_def say_def link_simps)

lemma grows_says: "grows s (fold say fs s)"
  by (induction fs arbitrary: s) (auto intro: grows_trans grows_say)

lemma grows_link_calls:
  "link_conn l = link_conn (s_link s) \<Longrightarrow> outbound l = outbound (s_link s) \<Longrightarrow>
   grows s (s\<lparr>s_link := link_calls ks l, s_core := c\<rparr>)"
  using outbound_link_calls [of ks l] by (auto simp: grows_def link_simps)

lemma grows_roster: "grows s t \<Longrightarrow> grows s (t\<lparr>s_link := (s_link t)\<lparr>registered_names := N\<rparr>\<rparr>)"
  by (simp add: grows_def)

lemma say_roster:
  "say f (t\<lparr>s_link := l\<lparr>registered_names := N\<rparr>\<rparr>) =
   (say f (t\<lparr>s_link := l\<rparr>))\<lparr>s_link := (put f l)\<lparr>registered_names := N\<rparr>\<rparr>"
  by (simp add: say_def put_def)

lemma grows_on_register: "grows s (snd (on_register F d s))"
proof -
  have step: "grows s (say f (s\<lparr>s_link := link_calls ks (declare_interjections rs (s_link s)), s_core := c\<rparr>))"
    for f ks rs c
    by (rule grows_trans [OF grows_link_calls grows_say]) (simp_all add: link_simps)
  have stay: "grows s (s\<lparr>s_link := link_calls ks (declare_interjections rs (s_link s)), s_core := c\<rparr>)"
    for ks rs c
    by (rule grows_link_calls) (simp_all add: link_simps)
  have roster: "grows s (say f (s\<lparr>s_core := c,
      s_link := (link_calls ks (declare_interjections rs (s_link s)))\<lparr>registered_names := N\<rparr>\<rparr>))"
    for f ks rs c N
    using stay [where ks = ks and rs = rs and c = c] by (simp add: grows_def say_def put_def)
  show ?thesis
    using step stay roster
    by (auto simp: on_register_def Let_def split: sum.splits prod.splits if_splits)
qed

lemma grows_on_delete: "grows s (snd (on_delete_agent F d s))"
proof -
  have stay: "grows s (s\<lparr>s_link := link_calls ks (s_link s), s_core := c\<rparr>)" for ks c
    by (rule grows_link_calls) simp_all
  have step: "grows s (say f (s\<lparr>s_link := link_calls ks (s_link s), s_core := c\<rparr>))" for f ks c
    by (rule grows_trans [OF stay grows_say])
  have roster: "grows s (say f (s\<lparr>s_core := c,
      s_link := (link_calls ks (s_link s))\<lparr>registered_names := N\<rparr>\<rparr>))"
    for f ks c N
    using stay [where ks = ks and c = c] by (simp add: grows_def say_def put_def)
  show ?thesis
    using step stay roster
    by (auto simp: on_delete_agent_def Let_def split: json.splits sum.splits prod.splits if_splits)
qed

lemma grows_on_ack: "grows s (snd (on_ack F d s))"
  by (auto simp: on_ack_def split: sum.splits prod.splits)

lemma grows_on_event: "grows s (snd (on_event F d s))"
  by (auto simp: on_event_def Let_def split: sum.splits prod.splits
      intro: grows_trans [OF grows_core grows_say])

lemma grows_on_finish: "grows s (snd (on_finish F d s))"
  by (auto simp: on_finish_def Let_def split: sum.splits prod.splits
      intro: grows_trans [OF grows_core grows_say])

lemma grows_on_frame: "grows s (snd (on_frame F d s))"
  by (auto simp: on_frame_def Let_def on_query_def
      grows_on_register grows_on_delete grows_on_ack grows_on_event grows_on_finish)

lemma grows_on_message: "grows s (snd (on_message F m s))"
  by (auto simp: on_message_def grows_on_frame split: sum.splits option.splits)

lemma on_message_grows: "on_message F m s = (x, s') \<Longrightarrow> grows s s'"
  using grows_on_message [of s F m] by simp

lemma grows_tasks_core [simp]: "grows s (s\<lparr>s_tasks := ts, s_core := c\<rparr>)"
  by (simp add: grows_def)

lemma grows_run_query: "grows s (run_query F i s)"
  by (auto simp: run_query_def Let_def split: prod.splits sum.splits
      intro: grows_trans [OF grows_tasks_core grows_says])

lemma grows_watch: "grows s (watch F s)"
proof -
  have "grows s (s\<lparr>s_core := c, s_watching := b\<rparr>)" for c b by (simp add: grows_def)
  then show ?thesis
    by (auto simp: watch_def Let_def split: prod.splits sum.splits
        intro: grows_trans [OF _ grows_say])
qed

lemma read_loop_grows: "grows s (snd (read_loop F ms s))"
proof (induction ms arbitrary: s)
  case Nil
  then show ?case by simp
next
  case (Cons m ms)
  obtain x s' where os: "on_message F m s = (x, s')" by fastforce
  then have "grows s s'" by (rule on_message_grows)
  with os Cons.IH [of s'] show ?case by (auto split: option.splits intro: grows_trans)
qed

section \<open>The invariant of an open socket\<close>

text \<open>Everything the gateway has said on the socket: sent, then the close, then still queued.\<close>

definition said :: "'c session \<Rightarrow> obj list" where
  "said s = s_wire s @ (case s_close s of None \<Rightarrow> [] | Some f \<Rightarrow> [f]) @ outbound (s_link s)"

lemma said_grows: "grows s t \<Longrightarrow> prefix (said s) (said t)"
  by (auto simp: grows_def said_def prefix_def split: option.splits)

lemma said_write_one: "s_close s = None \<Longrightarrow> said (write_one s) = said s"
  by (auto simp: said_def write_one_def Let_def split: list.splits)

lemma said_teardown [simp]: "said (teardown F s) = said s"
  by (simp add: said_def teardown_def Let_def)

definition provider_inv :: "('c, 'z) core_scheme \<Rightarrow> conn \<Rightarrow> 'c session \<Rightarrow> bool" where
  "provider_inv F k s \<longleftrightarrow>
     link_conn (s_link s) = k \<and>
     (\<exists>answer rest. said s = welcome_frame (identity_public_key F) answer # rest) \<and>
     (s_phase s = Opened \<longrightarrow> s_close s = None) \<and>
     (\<forall>f. s_close s = Some f \<longrightarrow> dget f ''type'' = JStr CLOSE) \<and>
     (\<forall>f \<in> set (s_wire s). dget f ''type'' \<noteq> JStr CLOSE)"

lemma provider_open_Open:
  assumes "provider_open F cid first c = Open s"
  obtains hello key answer where
    "receive_hello F first = Inr (GotHello hello)"
    and "provider_hello_error F hello = None"
    and "dget hello ''publicKey'' = JStr key" and "key \<noteq> []"
    and "attach_provider F \<lparr>conn_id = cid, conn_key = key, conn_max = dget hello ''maxConcurrentRuns''\<rparr>
           (dget hello ''ticket'') (dget hello ''nonce'') (dget hello ''proof'') c = (Inr answer, s_core s)"
    and "s_link s = \<lparr>link_conn = \<lparr>conn_id = cid, conn_key = key,
             conn_max = dget hello ''maxConcurrentRuns''\<rparr>,
           outbound = [welcome_frame (identity_public_key F) answer],
           registered_names = {}, interjections = Map.empty\<rparr>"
    and "s_tasks s = []" and "s_wire s = []" and "s_close s = None"
    and "s_watching s" and "s_phase s = Opened"
proof -
  from assms obtain hello where h: "receive_hello F first = Inr (GotHello hello)"
    and e: "provider_hello_error F hello = None"
    by (auto simp: provider_open_def split: sum.splits hello_outcome.splits option.splits)
  from e have "hello_complete hello" by (simp add: provider_hello_ok)
  then obtain key where k: "dget hello ''publicKey'' = JStr key" "key \<noteq> []"
    by (rule hello_complete_key)
  have ps: "py_str (JStr key) = key" by (simp add: py_str_def)
  from assms h e k that [OF h e k] show ?thesis
    by (auto simp: provider_open_def new_provider_ok ps put_def
        split: prod.splits sum.splits if_splits)
qed

lemma provider_inv_init:
  "provider_init F cid s \<Longrightarrow> provider_inv F (link_conn (s_link s)) s"
  unfolding provider_init_def
  by (auto elim!: provider_open_Open simp: provider_inv_def said_def)

lemma provider_inv_grows:
  assumes "grows s t" and "provider_inv F k s"
  shows "provider_inv F k t"
proof -
  from assms(1) have "prefix (said s) (said t)" by (rule said_grows)
  with assms show ?thesis by (auto simp: provider_inv_def grows_def prefix_def)
qed

lemma provider_inv_teardown: "provider_inv F k s \<Longrightarrow> provider_inv F k (teardown F s)"
  by (simp add: provider_inv_def) (simp add: teardown_def Let_def)

lemma provider_inv_write:
  assumes "provider_inv F k s" and "s_phase s = Opened"
  shows "provider_inv F k (write_one s)"
proof -
  from assms have "said (write_one s) = said s" by (simp add: provider_inv_def said_write_one)
  with assms show ?thesis
    by (auto simp: provider_inv_def write_one_def Let_def split: list.splits)
qed

lemma writer_dies_keeps [simp]:
  "s_link (writer_dies s) = s_link s" "s_wire (writer_dies s) = s_wire s" "s_close (writer_dies s) = s_close s"
  "s_core (writer_dies s) = s_core s" "said (writer_dies s) = said s" "s_phase (writer_dies s) = Closing"
  by (simp_all add: writer_dies_def said_def)

lemma provider_inv_dies: "provider_inv F k s \<Longrightarrow> provider_inv F k (writer_dies s)"
  by (simp add: provider_inv_def)

lemma grows_put: "grows s (s\<lparr>s_link := put f (s_link s)\<rparr>)"
  using grows_say [of s f] by (simp add: say_def)

lemma provider_step_cases:
  assumes "provider_step F W s t"
  shows "grows s t \<or> (\<exists>u. grows s u \<and> t = teardown F u) \<or>
    ((t = write_one s \<or> t = writer_dies s) \<and> s_phase s = Opened)"
  using assms
proof cases
  case (reads m)
  then show ?thesis by (blast intro: on_message_grows)
next
  case (raises m e s')
  then show ?thesis by (blast intro: on_message_grows)
next
  case leaves
  then show ?thesis using grows_refl by blast
next
  case (offers run)
  then show ?thesis by (simp add: deliver_def grows_put)
next
  case (cancels run_id)
  then show ?thesis by (simp add: cancel_def grows_put)
next
  case (queries i)
  then show ?thesis by (simp add: grows_run_query)
next
  case watches
  then show ?thesis by (simp add: grows_watch)
next
  case writes
  then show ?thesis by simp
next
  case send_fails
  then show ?thesis by simp
next
  case (world c')
  then show ?thesis by simp
qed

lemma provider_inv_step: "provider_inv F k s \<Longrightarrow> provider_step F W s t \<Longrightarrow> provider_inv F k t"
  by (drule provider_step_cases)
     (auto intro: provider_inv_grows provider_inv_teardown provider_inv_write provider_inv_dies)

lemma provider_said_step:
  "provider_inv F k s \<Longrightarrow> provider_step F W s t \<Longrightarrow> prefix (said s) (said t)"
  by (drule provider_step_cases)
     (auto dest: said_grows simp: provider_inv_def said_write_one)

interpretation pv: machine_log
  "\<lambda>s. provider_init F cid s \<and> link_conn (s_link s) = k" "provider_step F W" "provider_inv F k" said
  for F :: "('c, 'z) core_scheme" and cid k W
  by unfold_locales (auto intro: provider_inv_init provider_inv_step provider_said_step)

text \<open>The phase only moves forward.\<close>

lemma grows_phase: "grows s t \<Longrightarrow> s_phase s \<le> s_phase t"
  by (simp add: grows_def)

lemma phase_le_Gone [simp]: "p \<le> Gone"
  by (cases p) (simp_all add: less_eq_phase_def)

lemma Opened_le [simp]: "Opened \<le> p"
  by (simp add: less_eq_phase_def)

lemma provider_step_phase: "provider_step F W s t \<Longrightarrow> s_phase s \<le> s_phase t"
  by (drule provider_step_cases) (auto intro: grows_phase simp: teardown_def Let_def)

text \<open>After the close nothing more goes out.\<close>

lemma closed_wire_step:
  "provider_step F W s t \<Longrightarrow> s_phase s \<noteq> Opened \<Longrightarrow>
   s_phase t \<noteq> Opened \<and> s_wire t = s_wire s \<and> s_close t = s_close s"
  by (drule provider_step_cases) (auto simp: grows_def teardown_def Let_def)

section \<open>A core that logs the calls made on it\<close>

datatype core_call =
    CAttach conn
  | CDetach string nat
  | CRegister conn "string list"
  | CDelete conn string
  | CAnswer json offer_answer string
  | CEvent json json string
  | CFinish json string
  | CThread string
  | CParties string
  | CMessages string
  | CListed agent_ref

definition logging :: "core_call \<Rightarrow> ('c \<Rightarrow> 'r \<times> 'c) \<Rightarrow> 'c \<times> core_call list \<Rightarrow> 'r \<times> 'c \<times> core_call list" where
  "logging k f = (\<lambda>(c, log). case f c of (r, c') \<Rightarrow> (r, c', log @ [k]))"

definition logging_link ::
  "core_call \<Rightarrow> ('c \<Rightarrow> 'r \<times> link_call list \<times> 'c) \<Rightarrow> 'c \<times> core_call list \<Rightarrow>
   'r \<times> link_call list \<times> 'c \<times> core_call list" where
  "logging_link k f = (\<lambda>(c, log). case f c of (r, ks, c') \<Rightarrow> (r, ks, c', log @ [k]))"

definition logged :: "'c core \<Rightarrow> ('c \<times> core_call list) core" where
  "logged F =
     \<lparr>json_loads = json_loads F, check_connect = check_connect F,
      validate_registration = validate_registration F, validate_verdict = validate_verdict F,
      is_funduq_error = is_funduq_error F, is_value_error = is_value_error F,
      identity_public_key = identity_public_key F,
      attach_provider = (\<lambda>k t n p. logging (CAttach k) (attach_provider F k t n p)),
      detach_provider = (\<lambda>key i (c, log). (detach_provider F key i c, log @ [CDetach key i])),
      register_agents = (\<lambda>k ti regs nm.
        logging_link (CRegister k (map reg_name regs)) (register_agents F k ti regs nm)),
      delete_agent = (\<lambda>k n. logging_link (CDelete k n) (delete_agent F k n)),
      answer_offer = (\<lambda>r a key. logging (CAnswer r a key) (answer_offer F r a key)),
      report_event = (\<lambda>r ev key. logging (CEvent r ev key) (report_event F r ev key)),
      finish_run = (\<lambda>r key. logging (CFinish r key) (finish_run F r key)),
      get_thread = (\<lambda>t. logging (CThread t) (get_thread F t)),
      parties_of = (\<lambda>t. logging (CParties t) (parties_of F t)),
      get_thread_messages = (\<lambda>t. logging (CMessages t) (get_thread_messages F t)),
      get_agent = (\<lambda>r. logging (CListed r) (get_agent F r))\<rparr>"

lemma logged_simps [simp]:
  "json_loads (logged F) = json_loads F"
  "check_connect (logged F) = check_connect F"
  "validate_registration (logged F) = validate_registration F"
  "validate_verdict (logged F) = validate_verdict F"
  "is_funduq_error (logged F) = is_funduq_error F"
  "is_value_error (logged F) = is_value_error F"
  "identity_public_key (logged F) = identity_public_key F"
  "attach_provider (logged F) k t n p = logging (CAttach k) (attach_provider F k t n p)"
  "detach_provider (logged F) key i cl =
     (detach_provider F key i (fst cl), snd cl @ [CDetach key i])"
  "register_agents (logged F) k ti regs nm =
     logging_link (CRegister k (map reg_name regs)) (register_agents F k ti regs nm)"
  "delete_agent (logged F) k nm' = logging_link (CDelete k nm') (delete_agent F k nm')"
  "answer_offer (logged F) r a key = logging (CAnswer r a key) (answer_offer F r a key)"
  "report_event (logged F) r ev key = logging (CEvent r ev key) (report_event F r ev key)"
  "finish_run (logged F) r key = logging (CFinish r key) (finish_run F r key)"
  "get_thread (logged F) td = logging (CThread td) (get_thread F td)"
  "parties_of (logged F) td = logging (CParties td) (parties_of F td)"
  "get_thread_messages (logged F) td = logging (CMessages td) (get_thread_messages F td)"
  "get_agent (logged F) ar = logging (CListed ar) (get_agent F ar)"
  by (simp_all add: logged_def split: prod.split)

lemma logging_log: "logging k f cl = (r, cl') \<Longrightarrow> snd cl' = snd cl @ [k]"
  by (auto simp: logging_def split: prod.splits)

lemma logging_link_log: "logging_link k f cl = (r, ks, cl') \<Longrightarrow> snd cl' = snd cl @ [k]"
  by (auto simp: logging_link_def split: prod.splits)

end
