(* ===== verification/Sample_Core.thy ===== *)
theory Sample_Core
  imports Provider_Facts
begin

text \<open>
  A small concrete core for the witnesses: tickets, threads with an owner and optional parties,
  a roster and the runs on offer, with a decoder that knows a table of texts. It shows that the
  operations the model takes as arguments can be given together.
\<close>

record sample =
  sm_threads :: "(string \<times> string \<times> string list option \<times> json list) list"
  sm_agents :: "agent_ref list"
  sm_runs :: "string list"

definition sample_state :: sample where
  "sample_state =
     \<lparr>sm_threads =
        [(''open'', ''key1'', None, [JStr ''a'', JStr ''b'', JStr ''c'']),
         (''bound'', ''key1'', Some [''key1'', ''key9''], [JStr ''x'']),
         (''sealed'', ''key1'', Some [''key9''], [JStr ''y'']),
         (''other'', ''key2'', None, [JStr ''z''])],
      sm_agents = [], sm_runs = [''run1'']\<rparr>"

definition sample_attach :: "conn \<Rightarrow> json \<Rightarrow> json \<Rightarrow> json \<Rightarrow> (sample, exn, json) call" where
  "sample_attach k ticket nonce proof =
     (\<lambda>c. if ticket = JStr ''ticket1'' then (Inr (JStr ''answer1''), c)
          else (Inl (Exn InvalidRegistration ''no such ticket''), c))"

definition sample_core :: "(string \<times> json) list \<Rightarrow> sample core" where
  "sample_core texts =
     \<lparr>json_loads = (\<lambda>t. case map_of texts t of
                         Some j \<Rightarrow> Inr j | None \<Rightarrow> Inl (Exn JSONDecodeError ''Expecting value'')),
      check_connect = (\<lambda>k t n p m. None),
      validate_registration = (\<lambda>d. case dget d ''name'' of
         JStr n \<Rightarrow> Inr \<lparr>reg_name = n, reg_interjections = dget d ''takesInterjections'', reg_rest = d\<rparr>
       | _ \<Rightarrow> Inl ''name''),
      validate_verdict = (\<lambda>i w r. case i of JStr s \<Rightarrow> None | _ \<Rightarrow> Some ''id''),
      is_funduq_error = (\<lambda>e. is_class FunduqError e \<or> is_class AgentInUse e \<or> is_class InvalidRegistration e),
      is_value_error = is_class ValueError,
      identity_public_key = ''funduq1'',
      attach_provider = sample_attach,
      detach_provider = (\<lambda>key i c. c),
      register_agents = (\<lambda>k ti regs nm c.
        (let refs = map (\<lambda>r. (reg_name r, \<lparr>ref_provider_key = conn_key k, ref_name = reg_name r\<rparr>)) regs in
         (Inr refs, [], c\<lparr>sm_agents := sm_agents c @ map snd refs\<rparr>))),
      delete_agent = (\<lambda>k n c.
        if n = ''busy'' then (Inl (Exn AgentInUse ''has a conversation behind it''), [], c)
        else (Inr (), [], c\<lparr>sm_agents := filter (\<lambda>r. ref_name r \<noteq> n) (sm_agents c)\<rparr>)),
      answer_offer = (\<lambda>r a key c. (Inr (r \<in> JStr ` set (sm_runs c)), c)),
      report_event = (\<lambda>r ev key c. (Inr (r \<in> JStr ` set (sm_runs c)), c)),
      finish_run = (\<lambda>r key c. (Inr (r \<in> JStr ` set (sm_runs c)), c)),
      get_thread = (\<lambda>t c. (Inr (case map_of (sm_threads c) t of
         None \<Rightarrow> None | Some (k, ps, ms) \<Rightarrow> Some \<lparr>thread_provider_key = k\<rparr>), c)),
      parties_of = (\<lambda>t c. (Inr (case map_of (sm_threads c) t of
         None \<Rightarrow> None | Some (k, ps, ms) \<Rightarrow> ps), c)),
      get_thread_messages = (\<lambda>t c. (Inr (case map_of (sm_threads c) t of
         None \<Rightarrow> [] | Some (k, ps, ms) \<Rightarrow> ms), c)),
      get_agent = (\<lambda>r c. (Inr (r \<in> set (sm_agents c)), c))\<rparr>"

definition sample_hello :: json where
  "sample_hello =
     JObj [(''type'', JStr ''hello''), (''version'', JInt 4), (''publicKey'', JStr ''key1''),
           (''ticket'', JStr ''ticket1''), (''nonce'', JStr ''nonce1''), (''proof'', JStr ''proof1'')]"

definition sample_texts :: "(string \<times> json) list" where
  "sample_texts =
     [(''hello'', sample_hello),
      (''ack'', JObj [(''type'', JStr ''ack''), (''runId'', JStr ''run1''), (''accepted'', JBool True)]),
      (''event'', JObj [(''type'', JStr ''event''), (''runId'', JStr ''run1''), (''event'', JStr ''e'')]),
      (''finish'', JObj [(''type'', JStr ''finish''), (''runId'', JStr ''run1'')]),
      (''query'', JObj [(''type'', JStr ''query''), (''queryId'', JStr ''q1''), (''method'', JStr ''thread_messages''),
                        (''params'', JObj [(''threadId'', JStr ''open'')])])]"

text \<open>The session those texts open, as a concrete state.\<close>

definition sample_session :: "'c \<Rightarrow> 'c session" where
  "sample_session c =
     \<lparr>s_link = \<lparr>link_conn = \<lparr>conn_id = 1, conn_key = ''key1'', conn_max = JNull\<rparr>,
        outbound = [welcome_frame ''funduq1'' (JStr ''answer1'')],
        registered_names = {}, interjections = Map.empty\<rparr>,
      s_core = c, s_tasks = [], s_wire = [], s_close = None, s_watching = True, s_phase = Opened\<rparr>"

lemmas sample_simps =
  sample_core_def sample_state_def sample_attach_def sample_hello_def sample_texts_def
  sample_session_def

lemma sample_open:
  "provider_open (sample_core sample_texts) 1 (Some (TextMessage ''hello'')) sample_state =
   Open (sample_session sample_state)"
  by (simp add: provider_open_def receive_hello_def parse_frame_def provider_hello_error_def
      hello_fields_def WIRE_VERSION_def new_provider_ok py_str_def put_def sample_simps)

lemma sample_open_logged:
  "provider_open (logged (sample_core sample_texts)) 1 (Some (TextMessage ''hello'')) (sample_state, []) =
   Open (sample_session (sample_state, [CAttach \<lparr>conn_id = 1, conn_key = ''key1'', conn_max = JNull\<rparr>]))"
  by (simp add: provider_open_def receive_hello_def parse_frame_def provider_hello_error_def
      hello_fields_def WIRE_VERSION_def new_provider_ok py_str_def put_def logging_def sample_simps)

end
