(* ===== verification/Provider_Calls.thy ===== *)
theory Provider_Calls
  imports Provider_Facts
begin

text \<open>
  What a provider socket asks of core, read off the logging core: which calls a frame causes, in
  which order, under whose identity, and that the last of them is the one detach.
\<close>

section \<open>The calls of one frame\<close>

fun made_by :: "conn \<Rightarrow> core_call \<Rightarrow> bool" where
  "made_by k (CAttach k') = (k' = k)"
| "made_by k (CDetach key i) = (key = conn_key k \<and> i = conn_id k)"
| "made_by k (CRegister k' names) = (k' = k)"
| "made_by k (CDelete k' n) = (k' = k)"
| "made_by k (CAnswer r a key) = (key = conn_key k)"
| "made_by k (CEvent r ev key) = (key = conn_key k)"
| "made_by k (CFinish r key) = (key = conn_key k)"
| "made_by k (CListed ref) = (ref_provider_key ref = conn_key k)"
| "made_by k (CThread t) = True"
| "made_by k (CParties t) = True"
| "made_by k (CMessages t) = True"

text \<open>The reads: core answers them and keeps nothing. Those of a thread name the thread alone.\<close>

fun is_read :: "core_call \<Rightarrow> bool" where
  "is_read (CThread t) = True"
| "is_read (CParties t) = True"
| "is_read (CMessages t) = True"
| "is_read (CListed ref) = True"
| "is_read _ = False"

fun is_detach :: "core_call \<Rightarrow> bool" where
  "is_detach (CDetach key i) = True"
| "is_detach _ = False"

fun is_run_call :: "core_call \<Rightarrow> bool" where
  "is_run_call (CAnswer r a key) = True"
| "is_run_call (CEvent r ev key) = True"
| "is_run_call (CFinish r key) = True"
| "is_run_call _ = False"

text \<open>What a frame tells core about a run, and what a raw message does.\<close>

definition run_calls :: "'z contract_scheme \<Rightarrow> string \<Rightarrow> obj \<Rightarrow> core_call list" where
  "run_calls K key d =
     (if dget d ''type'' = JStr ''ack''
      then (case parse_verdict K d of
              Inl e \<Rightarrow> [] | Inr v \<Rightarrow> [CAnswer (dget d ''runId'') (verdict_answer v) key])
      else if dget d ''type'' = JStr ''event''
        then [CEvent (dget d ''runId'') (dget d ''event'') key]
      else if dget d ''type'' = JStr ''finish'' then [CFinish (dget d ''runId'') key]
      else [])"

definition message_calls :: "'z contract_scheme \<Rightarrow> string \<Rightarrow> asgi_message \<Rightarrow> core_call list" where
  "message_calls K key m =
     (case parse_frame K m of Inr (Some d) \<Rightarrow> run_calls K key d | _ \<Rightarrow> [])"

abbreviation calls_of :: "('c \<times> core_call list) session \<Rightarrow> core_call list" where
  "calls_of s \<equiv> snd (s_core s)"

lemma calls_of_say [simp]: "s_core (say f s) = s_core s"
  by (simp add: say_def)

lemma core_of_says [simp]: "s_core (fold say fs s) = s_core s"
  by (induction fs arbitrary: s) simp_all

lemma parse_frame_logged [simp]: "parse_frame (logged F) m = parse_frame F m"
  by (cases m) (simp_all add: parse_frame_def)

lemma parse_entries_logged [simp]: "parse_entries (logged F) es = parse_entries F es"
  by (induction es) (simp_all split: json.splits sum.splits)

lemma parse_registration_logged [simp]: "parse_registration (logged F) d = parse_registration F d"
  by (simp add: parse_registration_def split: json.splits)

lemma parse_verdict_logged [simp]: "parse_verdict (logged F) d = parse_verdict F d"
  by (simp add: parse_verdict_def Let_def)

text \<open>
  \<open>adds s t P\<close>: the calls between \<open>s\<close> and \<open>t\<close> are some list satisfying \<open>P\<close>, after those of \<open>s\<close>.
\<close>

definition adds :: "('c \<times> core_call list) session \<Rightarrow> ('c \<times> core_call list) session \<Rightarrow>
    (core_call list \<Rightarrow> bool) \<Rightarrow> bool" where
  "adds s t P \<longleftrightarrow> (\<exists>ks. calls_of t = calls_of s @ ks \<and> P ks)"

definition quiet_calls :: "conn \<Rightarrow> core_call list \<Rightarrow> bool" where
  "quiet_calls k ks \<longleftrightarrow> (\<forall>c \<in> set ks. made_by k c \<and> \<not> is_detach c)"

lemma addsI: "calls_of t = calls_of s @ ks \<Longrightarrow> P ks \<Longrightarrow> adds s t P"
  by (auto simp: adds_def)

lemma adds_none: "calls_of t = calls_of s \<Longrightarrow> P [] \<Longrightarrow> adds s t P"
  by (auto simp: adds_def)

lemma register_calls:
  "\<exists>ks. calls_of (snd (on_register (logged F) d s)) = calls_of s @ ks \<and>
     quiet_calls (link_conn (s_link s)) ks \<and> filter is_run_call ks = []"
proof (cases "parse_registration F d")
  case (Inl e)
  then show ?thesis by (simp add: on_register_def quiet_calls_def)
next
  case (Inr regs)
  let ?l = "declare_interjections regs (s_link s)"
  let ?c = "CRegister (link_conn (s_link s)) (map reg_name regs)"
  obtain r ks c' where call: "logging_link ?c (register_agents F (link_conn (s_link s))
      (takes_interjections ?l) regs (dget d ''providerName'')) (s_core s) = (r, ks, c')"
    using prod_cases3 by blast
  then have "snd c' = calls_of s @ [?c]" by (rule logging_link_log)
  with Inr call show ?thesis
    by (intro exI [of _ "[?c]"])
       (auto simp: on_register_def Let_def link_simps quiet_calls_def split: sum.splits)
qed

lemma delete_calls:
  "\<exists>ks. calls_of (snd (on_delete_agent (logged F) d s)) = calls_of s @ ks \<and>
     quiet_calls (link_conn (s_link s)) ks \<and> filter is_run_call ks = []"
proof (cases "nonempty_str (dget d ''name'')")
  case False
  then have "on_delete_agent (logged F) d s = (None, say (error_frame ''deleteAgent needs a name'') s)"
    by (cases "dget d ''name''") (simp_all add: on_delete_agent_def)
  then show ?thesis by (simp add: quiet_calls_def)
next
  case True
  then obtain n where n: "dget d ''name'' = JStr n" "n \<noteq> []" by (rule nonempty_strE)
  let ?c = "CDelete (link_conn (s_link s)) n"
  obtain r ks c' where call: "logging_link ?c (delete_agent F (link_conn (s_link s)) n) (s_core s) =
      (r, ks, c')"
    using prod_cases3 by blast
  then have "snd c' = calls_of s @ [?c]" by (rule logging_link_log)
  with n call show ?thesis
    by (intro exI [of _ "[?c]"])
       (auto simp: on_delete_agent_def Let_def quiet_calls_def split: sum.splits)
qed

lemma ack_calls:
  "calls_of (snd (on_ack (logged F) d s)) =
     calls_of s @ (case parse_verdict F d of Inl e \<Rightarrow> []
        | Inr v \<Rightarrow> [CAnswer (dget d ''runId'') (verdict_answer v) (conn_key (link_conn (s_link s)))])"
  by (auto simp: on_ack_def split: sum.splits prod.splits dest: logging_log)

lemma event_calls:
  "calls_of (snd (on_event (logged F) d s)) =
     calls_of s @ [CEvent (dget d ''runId'') (dget d ''event'') (conn_key (link_conn (s_link s)))]"
  by (auto simp: on_event_def Let_def split: sum.splits prod.splits dest: logging_log)

lemma finish_calls:
  "calls_of (snd (on_finish (logged F) d s)) =
     calls_of s @ [CFinish (dget d ''runId'') (conn_key (link_conn (s_link s)))]"
  by (auto simp: on_finish_def Let_def split: sum.splits prod.splits dest: logging_log)

lemma frame_calls:
  "\<exists>ks. calls_of (snd (on_frame (logged F) d s)) = calls_of s @ ks \<and>
     quiet_calls (link_conn (s_link s)) ks \<and>
     filter is_run_call ks =
       (if hashable (dget d ''type'') then run_calls F (conn_key (link_conn (s_link s))) d else [])"
proof -
  let ?kind = "dget d ''type''"
  consider (odd) "\<not> hashable ?kind \<or> ?kind \<notin> JStr ` INBOUND_FRAME_TYPES"
    | (reg) "?kind = JStr ''register''" | (del) "?kind = JStr ''deleteAgent''"
    | (ack) "?kind = JStr ''ack''" | (event) "?kind = JStr ''event''"
    | (finish) "?kind = JStr ''finish''" | (query) "?kind = JStr ''query''"
    by (auto simp: INBOUND_FRAME_TYPES_def)
  then show ?thesis
  proof cases
    case odd
    then have "calls_of (snd (on_frame (logged F) d s)) = calls_of s"
      by (auto simp: on_frame_def Let_def)
    moreover from odd have "run_calls F key d = [] \<or> \<not> hashable ?kind" for key
      by (auto simp: run_calls_def INBOUND_FRAME_TYPES_def)
    ultimately show ?thesis by (intro exI [of _ "[]"]) (auto simp: quiet_calls_def)
  next
    case reg
    then show ?thesis
      using register_calls [of F d s]
      by (simp add: on_frame_def Let_def INBOUND_FRAME_TYPES_def run_calls_def)
  next
    case del
    then show ?thesis
      using delete_calls [of F d s]
      by (simp add: on_frame_def Let_def INBOUND_FRAME_TYPES_def run_calls_def)
  next
    case ack
    then show ?thesis
      by (auto simp: on_frame_def Let_def INBOUND_FRAME_TYPES_def run_calls_def ack_calls
          quiet_calls_def split: sum.splits)
  next
    case event
    then show ?thesis
      by (simp add: on_frame_def Let_def INBOUND_FRAME_TYPES_def run_calls_def event_calls quiet_calls_def)
  next
    case finish
    then show ?thesis
      by (simp add: on_frame_def Let_def INBOUND_FRAME_TYPES_def run_calls_def finish_calls quiet_calls_def)
  next
    case query
    then show ?thesis
      by (simp add: on_frame_def on_query_def Let_def INBOUND_FRAME_TYPES_def run_calls_def quiet_calls_def)
  qed
qed

lemma message_calls:
  assumes "on_message (logged F) m s = (x, s')"
  shows "\<exists>ks. calls_of s' = calls_of s @ ks \<and> quiet_calls (link_conn (s_link s)) ks \<and>
     (x = None \<longrightarrow> filter is_run_call ks = message_calls F (conn_key (link_conn (s_link s))) m)"
proof (cases "\<exists>d. parse_frame F m = Inr (Some d)")
  case True
  then obtain d where d: "parse_frame F m = Inr (Some d)" by blast
  have "x = None \<longrightarrow> hashable (dget d ''type'')"
    using assms d by (auto simp: on_message_def on_frame_def Let_def split: if_splits)
  then show ?thesis
    using assms d frame_calls [of F d s] by (auto simp: on_message_def message_calls_def)
next
  case False
  then have "calls_of s' = calls_of s" and "message_calls F key m = []" for key
    using assms by (auto simp: on_message_def message_calls_def split: sum.splits option.splits)
  then show ?thesis by (intro exI [of _ "[]"]) (simp add: quiet_calls_def)
qed

text \<open>A call that does nothing to core but read, and leaves its reads in the log.\<close>

definition reads_as :: "conn \<Rightarrow> core_call list \<Rightarrow> bool" where
  "reads_as k ks \<longleftrightarrow> list_all (\<lambda>c. is_read c \<and> made_by k c) ks"

definition reads_only :: "conn \<Rightarrow> ('c \<times> core_call list \<Rightarrow> 'r \<times> 'c \<times> core_call list) \<Rightarrow> bool" where
  "reads_only k m \<longleftrightarrow> (\<forall>cl. \<exists>ks. snd (snd (m cl)) = snd cl @ ks \<and> reads_as k ks)"

lemma reads_as_append [simp]: "reads_as k (xs @ ys) \<longleftrightarrow> reads_as k xs \<and> reads_as k ys"
  by (simp add: reads_as_def)

lemma reads_as_quiet: "reads_as k ks \<Longrightarrow> quiet_calls k ks"
proof -
  have "is_read c \<Longrightarrow> \<not> is_detach c" for c by (cases c) simp_all
  then show "reads_as k ks \<Longrightarrow> quiet_calls k ks" by (auto simp: reads_as_def quiet_calls_def list_all_iff)
qed

lemma reads_only_ret: "reads_only k (ret_io x)" "reads_only k (raise_io e)"
  by (auto simp: reads_only_def io_simps reads_as_def)

lemma reads_only_logging: "is_read c \<Longrightarrow> made_by k c \<Longrightarrow> reads_only k (logging c f)"
  unfolding reads_only_def
  by (intro allI exI [of _ "[c]"]) (simp add: logging_def reads_as_def split: prod.split)

lemma reads_only_bind:
  assumes "reads_only k m" and "\<And>x. reads_only k (f x)"
  shows "reads_only k (bind_io m f)"
  unfolding reads_only_def
proof
  fix cl
  obtain r cl1 where m: "m cl = (r, cl1)" by (metis surj_pair)
  with assms(1) obtain ks where ks: "snd cl1 = snd cl @ ks" "reads_as k ks" unfolding reads_only_def by (metis snd_conv)
  show "\<exists>ks. snd (snd (bind_io m f cl)) = snd cl @ ks \<and> reads_as k ks"
  proof (cases r)
    case (Inl e)
    with m ks show ?thesis by (auto simp: io_simps)
  next
    case (Inr x)
    from assms(2) [of x] obtain ks' where "snd (snd (f x cl1)) = snd cl1 @ ks'" "reads_as k ks'"
      unfolding reads_only_def by blast
    with m ks Inr show ?thesis by (intro exI [of _ "ks @ ks'"]) (simp add: io_simps)
  qed
qed

lemmas reads_only_intros = reads_only_ret reads_only_bind reads_only_logging

lemma reads_only_run: "reads_only k m \<Longrightarrow> m cl = (r, cl') \<Longrightarrow> \<exists>ks. snd cl' = snd cl @ ks \<and> reads_as k ks"
  unfolding reads_only_def by (metis snd_conv)

lemma may_read_reads: "reads_only k (may_read (logged F) t key)"
  unfolding may_read_def by (auto intro!: reads_only_intros split: option.split)

lemma answer_query_reads: "reads_only k (answer_query (logged F) key d)"
proof -
  have "reads_only k (answer_thread_messages (logged F) key q ps)" for q ps
    unfolding answer_thread_messages_def
    by (auto intro!: reads_only_intros may_read_reads split: json.split option.split)
  then show ?thesis
    unfolding answer_query_def Let_def by (auto intro!: reads_only_intros split: json.split)
qed

lemma ask_listed_reads: "\<forall>r \<in> set refs. ref_provider_key r = conn_key k \<Longrightarrow> reads_only k (ask_listed (logged F) refs)"
  by (induction refs) (auto intro!: reads_only_intros)

lemma query_calls: "\<exists>ks. calls_of (run_query (logged F) i s) = calls_of s @ ks \<and> reads_as k ks"
proof -
  let ?q = "answer_query (logged F) (conn_key (link_conn (s_link s))) (s_tasks s ! i)"
  obtain r cl where q: "?q (s_core s) = (r, cl)" by (metis surj_pair)
  from reads_only_run [OF answer_query_reads q] obtain ks where "snd cl = calls_of s @ ks" "reads_as k ks" by blast
  with q show ?thesis by (auto simp: run_query_def Let_def split: sum.splits)
qed

lemma watch_calls: "\<exists>ks. calls_of (watch (logged F) s) = calls_of s @ ks \<and> reads_as (link_conn (s_link s)) ks"
proof -
  let ?k = "link_conn (s_link s)"
  let ?refs = "map (\<lambda>n. \<lparr>ref_provider_key = conn_key ?k, ref_name = n\<rparr>) (sorted_list_of_set (registered_names (s_link s)))"
  obtain r cl where q: "ask_listed (logged F) ?refs (s_core s) = (r, cl)" by (metis surj_pair)
  have "reads_only ?k (ask_listed (logged F) ?refs)" by (rule ask_listed_reads) simp
  from reads_only_run [OF this q] obtain ks where ks: "snd cl = calls_of s @ ks" "reads_as ?k ks" by blast
  show ?thesis
  proof (cases "sorted_list_of_set (registered_names (s_link s)) = []")
    case True
    then show ?thesis by (intro exI [of _ "[]"]) (simp add: watch_def reads_as_def)
  next
    case False
    with q ks show ?thesis by (intro exI [of _ ks]) (simp add: watch_def Let_def split: sum.split)
  qed
qed

section \<open>The call invariant\<close>

text \<open>What others do to the world behind core leaves this socket's log alone.\<close>

definition logged_world :: "('c \<Rightarrow> 'c \<Rightarrow> bool) \<Rightarrow> 'c \<times> core_call list \<Rightarrow> 'c \<times> core_call list \<Rightarrow> bool" where
  "logged_world W cl cl' \<longleftrightarrow> W (fst cl) (fst cl') \<and> snd cl' = snd cl"

definition closed_calls :: "conn \<Rightarrow> core_call list \<Rightarrow> bool" where
  "closed_calls k cs \<longleftrightarrow>
     (\<exists>ks rs. cs = ks @ [CDetach (conn_key k) (conn_id k)] @ rs \<and> quiet_calls k ks \<and> reads_as k rs)"

lemma closed_calls_detach: "quiet_calls k cs \<Longrightarrow> closed_calls k (cs @ [CDetach (conn_key k) (conn_id k)])"
  unfolding closed_calls_def by (intro exI [of _ cs] exI [of _ "[]"]) (simp add: reads_as_def)

lemma closed_calls_reads: "closed_calls k cs \<Longrightarrow> reads_as k rs \<Longrightarrow> closed_calls k (cs @ rs)"
  unfolding closed_calls_def by (metis append.assoc reads_as_append)

definition call_inv :: "conn \<Rightarrow> ('c \<times> core_call list) session \<Rightarrow> bool" where
  "call_inv k s \<longleftrightarrow>
     link_conn (s_link s) = k \<and>
     (if s_phase s = Gone
      then \<not> s_watching s \<and> closed_calls k (calls_of s)
      else quiet_calls k (calls_of s))"

lemma quiet_calls_append [simp]: "quiet_calls k (xs @ ys) \<longleftrightarrow> quiet_calls k xs \<and> quiet_calls k ys"
  by (auto simp: quiet_calls_def)

lemma call_inv_teardown:
  assumes "call_inv k s" and "s_phase s \<noteq> Gone"
  shows "call_inv k (teardown (logged F) s)"
proof -
  have "quiet_calls k (calls_of s)" "link_conn (s_link s) = k" using assms by (simp_all add: call_inv_def)
  then show ?thesis by (simp add: call_inv_def teardown_def Let_def closed_calls_detach)
qed

lemma call_inv_message:
  assumes "call_inv k s" and "s_phase s \<noteq> Gone" and "on_message (logged F) m s = (x, s')"
  shows "call_inv k s' \<and> s_phase s' \<noteq> Gone"
proof -
  obtain ks where "calls_of s' = calls_of s @ ks" and "quiet_calls (link_conn (s_link s)) ks"
    using message_calls [OF assms(3)] by blast
  moreover have "grows s s'" using assms(3) by (rule on_message_grows)
  ultimately show ?thesis using assms(1,2) by (auto simp: call_inv_def grows_def)
qed

lemma call_inv_reads:
  assumes "call_inv k s" and "calls_of t = calls_of s @ rs" and "reads_as k rs" and "grows s t"
    and "s_watching t \<longrightarrow> s_watching s"
  shows "call_inv k t"
  using assms reads_as_quiet [OF assms(3)] by (auto simp: call_inv_def grows_def closed_calls_reads)

lemma run_query_watching [simp]: "s_watching (run_query F i s) = s_watching s"
proof -
  have says: "s_watching (fold say fs t) = s_watching t" for fs and t :: "'a session"
    by (induction fs arbitrary: t) (simp_all add: say_def)
  show ?thesis by (simp add: run_query_def Let_def says split: prod.split sum.split)
qed

lemma watch_watching: "s_watching (watch F s) \<longrightarrow> s_watching s"
  by (simp add: watch_def Let_def say_def split: prod.split sum.split)

lemma call_inv_step:
  assumes "call_inv k s" and "provider_step (logged F) (logged_world W) s t"
  shows "call_inv k t"
  using assms(2)
proof cases
  case (reads m)
  with assms(1) show ?thesis by (blast dest: call_inv_message)
next
  case (raises m e s')
  with assms(1) show ?thesis by (blast dest: call_inv_message intro: call_inv_teardown)
next
  case leaves
  with assms(1) show ?thesis by (blast intro: call_inv_teardown)
next
  case (offers run)
  with assms(1) show ?thesis by (simp add: call_inv_def link_simps)
next
  case (cancels run_id)
  with assms(1) show ?thesis by (simp add: call_inv_def link_simps)
next
  case (queries i)
  with assms(1) query_calls [of F i s k] show ?thesis by (auto intro: call_inv_reads simp: grows_run_query)
next
  case watches
  moreover have "link_conn (s_link s) = k" using assms(1) by (simp add: call_inv_def)
  ultimately show ?thesis
    using assms(1) watch_calls [of F s] watch_watching [of "logged F" s] by (auto intro: call_inv_reads simp: grows_watch)
next
  case writes
  with assms(1) show ?thesis
    by (auto simp: call_inv_def write_one_def Let_def split: list.splits)
next
  case send_fails
  with assms(1) show ?thesis by (simp add: call_inv_def)
next
  case (world c')
  with assms(1) show ?thesis by (auto simp: call_inv_def logged_world_def)
qed

text \<open>A session just opened on a core whose log was empty.\<close>

definition logged_init :: "'c core \<Rightarrow> conn \<Rightarrow> ('c \<times> core_call list) session \<Rightarrow> bool" where
  "logged_init F k s \<longleftrightarrow>
     (\<exists>cid first c. provider_open (logged F) cid first (c, []) = Open s) \<and> link_conn (s_link s) = k"

lemma call_inv_init: "logged_init F k s \<Longrightarrow> call_inv k s"
  unfolding logged_init_def
  by (auto elim!: provider_open_Open simp: call_inv_def quiet_calls_def dest!: logging_log)

interpretation cv: machine_invariant
  "logged_init F k" "provider_step (logged F) (logged_world W)" "call_inv k"
  for F :: "'c core" and k W
  by unfold_locales (auto intro: call_inv_init call_inv_step)

section \<open>The calls of the read loop\<close>

lemma read_loop_calls:
  assumes "read_loop (logged F) ms s = (None, s')"
  shows "filter is_run_call (calls_of s') =
    filter is_run_call (calls_of s) @
    concat (map (message_calls F (conn_key (link_conn (s_link s)))) ms)"
  using assms
proof (induction ms arbitrary: s)
  case Nil
  then show ?case by simp
next
  case (Cons m ms)
  from Cons.prems obtain u where u: "on_message (logged F) m s = (None, u)"
    and rest: "read_loop (logged F) ms u = (None, s')"
    by (auto split: if_splits prod.splits option.splits)
  from u have "grows s u" by (rule on_message_grows)
  then have "link_conn (s_link u) = link_conn (s_link s)" by (simp add: grows_def)
  moreover have "filter is_run_call (calls_of u) =
      filter is_run_call (calls_of s) @ message_calls F (conn_key (link_conn (s_link s))) m"
    using message_calls [OF u] by auto
  ultimately show ?case using Cons.IH [OF rest] by simp
qed

end
