(* ===== verification/Provider_Roster.thy ===== *)
theory Provider_Roster
  imports Provider_Facts
begin

text \<open>
  The roster an open provider socket holds against the frames it has said: replaying the
  \<open>registered\<close> and \<open>deleted\<close> frames gives exactly the names the socket keeps.
\<close>

section \<open>Replaying the frames\<close>

definition strings_in :: "json \<Rightarrow> string set" where
  "strings_in j = (case j of JList xs \<Rightarrow> {n. JStr n \<in> set xs} | _ \<Rightarrow> {})"

definition roster_step :: "obj \<Rightarrow> string set \<Rightarrow> string set" where
  "roster_step f N =
     (if dget f ''type'' = JStr ''registered'' then strings_in (dget f ''names'')
      else if dget f ''type'' = JStr ''deleted'' then {n \<in> N. dget f ''name'' \<noteq> JStr n}
      else N)"

definition roster_of :: "obj list \<Rightarrow> string set" where
  "roster_of fs = fold roster_step fs {}"

text \<open>All but two kinds of frame say nothing of the roster.\<close>

definition silent :: "obj \<Rightarrow> bool" where
  "silent f \<longleftrightarrow> dget f ''type'' \<noteq> JStr ''registered'' \<and> dget f ''type'' \<noteq> JStr ''deleted''"

text \<open>Core hands down only untyped runs while a registration or a deletion is awaited.\<close>

definition untyped_call :: "link_call \<Rightarrow> bool" where
  "untyped_call k = (case k of CallDeliver run \<Rightarrow> untyped run | CallCancel r \<Rightarrow> True)"

definition runs_untyped :: "('c, 'z) core_scheme \<Rightarrow> bool" where
  "runs_untyped F \<longleftrightarrow>
     (\<forall>k ti rs nm c r ks c'. register_agents F k ti rs nm c = (r, ks, c') \<longrightarrow> list_all untyped_call ks) \<and>
     (\<forall>k n c r ks c'. delete_agent F k n c = (r, ks, c') \<longrightarrow> list_all untyped_call ks)"

lemma roster_silent: "silent f \<Longrightarrow> roster_step f N = N"
  by (simp add: silent_def roster_step_def)

lemma roster_silents: "list_all silent fs \<Longrightarrow> fold roster_step fs N = N"
  by (induction fs) (simp_all add: roster_silent)

lemma roster_append: "roster_of (fs @ gs) = fold roster_step gs (roster_of fs)"
  by (simp add: roster_of_def)

lemma strings_in_names: "strings_in (JList (map JStr names)) = set names"
  by (auto simp: strings_in_def)

lemma silent_error [simp]: "silent (error_frame m)" "silent (named_error_frame n m)"
  "silent (run_error_frame r m)"
  by (simp_all add: silent_def error_frame_def named_error_frame_def run_error_frame_def)

lemma silent_query [simp]: "silent (query_error q m)" "silent (query_result q [(''result'', JList ms)])"
  by (simp_all add: silent_def query_error_def query_result_def)

lemma silent_welcome [simp]: "silent (welcome_frame k a)"
  by (simp add: silent_def welcome_frame_def)

lemma silent_delisted [simp]: "silent delisted_frame"
  by (simp add: silent_def delisted_frame_def frame_simps CLOSE_def close_frame_def)

lemma silent_run: "untyped run \<Longrightarrow> silent (dict_merge [(''type'', JStr ''run'')] run)"
  by (simp add: silent_def untyped_def dget_merge_notin)

lemma silent_cancel: "silent [(''type'', JStr ''cancel''), (''runId'', run_id)]"
  by (simp add: silent_def)

text \<open>What calls on the link append is silent.\<close>

lemma link_call_silent:
  "untyped_call k \<Longrightarrow> \<exists>f. outbound (link_call k l) = outbound l @ [f] \<and> silent f"
  by (cases k)
     (simp_all add: link_call_def untyped_call_def deliver_def cancel_def put_def silent_run silent_cancel)

lemma link_calls_silent:
  "list_all untyped_call ks \<Longrightarrow>
   \<exists>fs. outbound (link_calls ks l) = outbound l @ fs \<and> list_all silent fs"
proof (induction ks arbitrary: l)
  case Nil
  then show ?case by (simp add: link_calls_def)
next
  case (Cons k ks)
  then obtain f where f: "outbound (link_call k l) = outbound l @ [f]" "silent f"
    using link_call_silent by fastforce
  obtain fs where "outbound (link_calls ks (link_call k l)) = outbound (link_call k l) @ fs"
    and "list_all silent fs"
    using Cons by fastforce
  with f show ?case by (intro exI [of _ "f # fs"]) (simp add: link_calls_def)
qed

section \<open>Every step keeps the replay right\<close>

text \<open>
  \<open>tells s t\<close>: the frames \<open>t\<close> adds to \<open>s\<close> turn the one roster into the other.
\<close>

definition tells :: "'c session \<Rightarrow> 'c session \<Rightarrow> bool" where
  "tells s t \<longleftrightarrow>
     (\<exists>fs. outbound (s_link t) = outbound (s_link s) @ fs \<and>
        registered_names (s_link t) = fold roster_step fs (registered_names (s_link s)))"

lemma tells_refl [simp]: "tells s s"
  by (simp add: tells_def)

lemma tells_trans: "tells s t \<Longrightarrow> tells t u \<Longrightarrow> tells s u"
  by (auto simp: tells_def)

lemma tells_core [simp]: "tells s (s\<lparr>s_core := c\<rparr>)" "tells s (s\<lparr>s_tasks := ts, s_core := c\<rparr>)"
  "tells s (s\<lparr>s_core := c, s_watching := w\<rparr>)"
  by (simp_all add: tells_def)

lemma tells_tasks [simp]: "tells s (s\<lparr>s_tasks := ts\<rparr>)"
  by (simp add: tells_def)

lemma tells_say: "silent f \<Longrightarrow> tells s (say f s)"
  by (simp add: tells_def say_def link_simps roster_silent)

lemma tells_says: "list_all silent fs \<Longrightarrow> tells s (fold say fs s)"
  by (induction fs arbitrary: s) (auto intro: tells_trans tells_say)

lemma tells_link:
  assumes "list_all untyped_call ks"
    and "registered_names l = registered_names (s_link s)" and "outbound l = outbound (s_link s)"
  shows "tells s (s\<lparr>s_link := link_calls ks l, s_core := c\<rparr>)"
  using link_calls_silent [OF assms(1), of l] assms(2,3)
  by (auto simp: tells_def link_simps roster_silents)

lemma tells_announce:
  assumes "list_all untyped_call ks"
    and "registered_names l = registered_names (s_link s)" and "outbound l = outbound (s_link s)"
    and "N = roster_step f (registered_names (s_link s))"
  shows "tells s (say f (s\<lparr>s_core := c, s_link := (link_calls ks l)\<lparr>registered_names := N\<rparr>\<rparr>))"
proof -
  obtain fs where "outbound (link_calls ks l) = outbound (s_link s) @ fs" and "list_all silent fs"
    using link_calls_silent [OF assms(1), of l] assms(3) by auto
  with assms(4) show ?thesis
    by (auto simp: tells_def say_def put_def roster_silents intro!: exI [of _ "fs @ [f]"])
qed

lemma tells_on_register:
  assumes "runs_untyped F"
  shows "tells s (snd (on_register F d s))"
proof (cases "parse_registration F d")
  case (Inl e)
  then show ?thesis by (simp add: on_register_def tells_say)
next
  case (Inr regs)
  let ?l = "declare_interjections regs (s_link s)"
  obtain r ks c where call: "register_agents F (link_conn (s_link s)) (takes_interjections ?l) regs
      (dget d ''providerName'') (s_core s) = (r, ks, c)"
    using prod_cases3 by blast
  with assms have u: "list_all untyped_call ks" unfolding runs_untyped_def by blast
  have err: "tells s (s\<lparr>s_link := link_calls ks ?l, s_core := c\<rparr>)"
    using u by (rule tells_link) (simp_all add: link_simps)
  have ok: "tells s (say [(''type'', JStr ''registered''), (''names'', JList (map JStr names))]
      (s\<lparr>s_core := c, s_link := (link_calls ks ?l)\<lparr>registered_names := set names\<rparr>\<rparr>))" for names
    using u by (rule tells_announce) (simp_all add: link_simps roster_step_def strings_in_names)
  show ?thesis
    using Inr call err ok [of "sort (map fst _)"] tells_trans [OF err tells_say]
    by (auto simp: on_register_def Let_def link_simps split: sum.splits)
qed

lemma tells_on_delete:
  assumes "runs_untyped F"
  shows "tells s (snd (on_delete_agent F d s))"
proof (cases "nonempty_str (dget d ''name'')")
  case False
  then have "on_delete_agent F d s = (None, say (error_frame ''deleteAgent needs a name'') s)"
    by (cases "dget d ''name''") (simp_all add: on_delete_agent_def)
  then show ?thesis by (simp add: tells_say)
next
  case True
  then obtain n where n: "dget d ''name'' = JStr n" "n \<noteq> []" by (rule nonempty_strE)
  obtain r ks c where call: "delete_agent F (link_conn (s_link s)) n (s_core s) = (r, ks, c)"
    using prod_cases3 by blast
  with assms have u: "list_all untyped_call ks" unfolding runs_untyped_def by blast
  have err: "tells s (s\<lparr>s_link := link_calls ks (s_link s), s_core := c\<rparr>)"
    using u by (rule tells_link) simp_all
  have ok: "tells s (say [(''type'', JStr ''deleted''), (''name'', JStr n)]
      (s\<lparr>s_core := c, s_link := (link_calls ks (s_link s))\<lparr>registered_names :=
          registered_names (s_link s) - {n}\<rparr>\<rparr>))"
    using u by (rule tells_announce) (auto simp: roster_step_def)
  show ?thesis
    using n call err ok tells_trans [OF err tells_say]
    by (auto simp: on_delete_agent_def Let_def link_simps split: sum.splits)
qed

lemma tells_core_say: "silent f \<Longrightarrow> tells s (say f (s\<lparr>s_core := c\<rparr>))"
  by (rule tells_trans [OF tells_core(1) tells_say])

lemma tells_on_ack: "tells s (snd (on_ack F d s))"
  by (auto simp: on_ack_def tells_say split: sum.splits prod.splits)

lemma tells_on_event: "tells s (snd (on_event F d s))"
  by (auto simp: on_event_def Let_def tells_core_say split: sum.splits prod.splits)

lemma tells_on_finish: "tells s (snd (on_finish F d s))"
  by (auto simp: on_finish_def Let_def tells_core_say split: sum.splits prod.splits)

lemma tells_on_query: "tells s (snd (on_query d s))"
  by (simp add: on_query_def)

lemma tells_on_message:
  assumes "runs_untyped F"
  shows "tells s (snd (on_message F m s))"
proof -
  have "tells s (snd (on_frame F d s))" for d
    using tells_on_register [OF assms, of s d] tells_on_delete [OF assms, of s d]
    by (simp add: on_frame_def Let_def tells_on_ack tells_on_event tells_on_finish tells_on_query
        tells_say)
  then show ?thesis
    by (auto simp: on_message_def tells_say split: sum.splits option.splits)
qed

lemma answer_query_silent: "fst (answer_query F k d c) = Inr fs \<Longrightarrow> list_all silent fs"
  by (auto simp: answer_query_def answer_thread_messages_def Let_def io_simps
      split: prod.splits sum.splits if_splits json.splits option.splits)

lemma tells_run_query: "tells s (run_query F i s)"
proof (cases "answer_query F (conn_key (link_conn (s_link s))) (s_tasks s ! i) (s_core s)")
  case (Pair r c)
  then show ?thesis
    using answer_query_silent [of F "conn_key (link_conn (s_link s))" "s_tasks s ! i" "s_core s"]
    by (auto simp: run_query_def Let_def split: sum.splits
        intro: tells_trans [OF tells_core(2) tells_says])
qed

lemma tells_watch: "tells s (watch F s)"
  by (auto simp: watch_def Let_def split: prod.splits sum.splits
      intro: tells_trans [OF tells_core(3) tells_say])

definition roster_inv :: "'c session \<Rightarrow> bool" where
  "roster_inv s \<longleftrightarrow>
     registered_names (s_link s) = roster_of (said s) \<and>
     (s_phase s = Opened \<longrightarrow> s_close s = None)"

lemma roster_inv_tells:
  assumes "tells s t" and "grows s t" and "roster_inv s"
  shows "roster_inv t"
proof -
  from assms(1) obtain fs where fs: "outbound (s_link t) = outbound (s_link s) @ fs"
    and "registered_names (s_link t) = fold roster_step fs (registered_names (s_link s))"
    by (auto simp: tells_def)
  moreover from fs assms(2) have "said t = said s @ fs"
    by (simp add: said_def grows_def)
  ultimately show ?thesis using assms(2,3) by (simp add: roster_inv_def roster_append grows_def)
qed

lemma roster_inv_teardown: "roster_inv s \<Longrightarrow> roster_inv (teardown F s)"
  by (simp add: roster_inv_def) (simp add: teardown_def Let_def)

lemma roster_inv_write: "roster_inv s \<Longrightarrow> s_phase s = Opened \<Longrightarrow> roster_inv (write_one s)"
  unfolding roster_inv_def
  by (simp add: said_write_one) (auto simp: write_one_def Let_def split: list.splits)

lemma roster_inv_step:
  assumes "runs_untyped F" and "roster_inv s" and "provider_step F W s t"
  shows "roster_inv t"
  using assms(3)
proof cases
  case (reads m)
  with tells_on_message [OF assms(1), of s m] assms(2) show ?thesis
    by (auto intro: roster_inv_tells on_message_grows)
next
  case (raises m e s')
  with tells_on_message [OF assms(1), of s m] assms(2) have "roster_inv s'"
    by (auto intro: roster_inv_tells on_message_grows)
  with raises show ?thesis by (simp add: roster_inv_teardown)
next
  case leaves
  with assms(2) show ?thesis by (simp add: roster_inv_teardown)
next
  case (offers run)
  then have "tells s t" using tells_say [OF silent_run] by (simp add: deliver_def say_def)
  with offers assms(2) show ?thesis by (auto intro: roster_inv_tells simp: deliver_def grows_put)
next
  case (cancels run_id)
  then have "tells s t" using tells_say [OF silent_cancel]
    by (simp add: cancel_def say_def)
  with cancels assms(2) show ?thesis by (auto intro: roster_inv_tells simp: cancel_def grows_put)
next
  case (queries i)
  with assms(2) show ?thesis by (auto intro: roster_inv_tells tells_run_query grows_run_query)
next
  case watches
  with assms(2) show ?thesis by (auto intro: roster_inv_tells tells_watch grows_watch)
next
  case writes
  with assms(2) show ?thesis by (simp add: roster_inv_write)
next
  case send_fails
  with assms(2) show ?thesis by (simp add: roster_inv_def)
next
  case (world c')
  with roster_inv_tells [OF tells_core(1) grows_core assms(2)] show ?thesis by simp
qed

lemma roster_inv_init: "provider_init F cid s \<Longrightarrow> roster_inv s"
  unfolding provider_init_def
  by (auto elim!: provider_open_Open simp: roster_inv_def said_def roster_of_def roster_silent)

end
