(* ===== verification/Provider_Props.thy ===== *)
theory Provider_Props
  imports Sample_Core Provider_Calls Provider_Roster
begin

text \<open>
  What the provider socket guarantees: how it opens, what goes out on it and in which order,
  what it tells core and under whose key, and what it answers.
\<close>

section \<open>Opening\<close>

text \<open>C18. A provider socket opens only for a hello of wire version 4 with a key, ticket, nonce
  and proof, each a non-empty string, and only if core verified exactly that ticket, nonce and
  proof for exactly that key. It opens with the welcome as its one queued frame, carrying core's
  answer, and with nothing published.\<close>

theorem provider_open_proven:
  assumes "provider_open F cid first c = Open s"
  shows "\<exists>m hello key answer.
    first = Some m \<and> parse_frame F m = Inr (Some hello) \<and> dget hello ''type'' = JStr ''hello'' \<and>
    hello_complete hello \<and> dget hello ''publicKey'' = JStr key \<and>
    attach_provider F \<lparr>conn_id = cid, conn_key = key, conn_max = dget hello ''maxConcurrentRuns''\<rparr>
      (dget hello ''ticket'') (dget hello ''nonce'') (dget hello ''proof'') c = (Inr answer, s_core s) \<and>
    conn_key (link_conn (s_link s)) = key \<and>
    outbound (s_link s) = [welcome_frame (identity_public_key F) answer] \<and>
    s_wire s = [] \<and> registered_names (s_link s) = {} \<and>
    (\<forall>n. \<not> takes_interjections (s_link s) n) \<and> s_phase s = Opened"
  using assms
  by (rule provider_open_Open)
     (auto simp: receive_hello_got provider_hello_ok takes_interjections_def)

theorem provider_open_proven_witness:
  "\<exists>m hello key answer.
    Some (TextMessage ''hello'') = Some m \<and>
    parse_frame (sample_core sample_texts) m = Inr (Some hello) \<and> dget hello ''type'' = JStr ''hello'' \<and>
    hello_complete hello \<and> dget hello ''publicKey'' = JStr key \<and>
    attach_provider (sample_core sample_texts)
      \<lparr>conn_id = 1, conn_key = key, conn_max = dget hello ''maxConcurrentRuns''\<rparr>
      (dget hello ''ticket'') (dget hello ''nonce'') (dget hello ''proof'') sample_state =
      (Inr answer, s_core (sample_session sample_state)) \<and>
    conn_key (link_conn (s_link (sample_session sample_state))) = key \<and>
    outbound (s_link (sample_session sample_state)) =
      [welcome_frame (identity_public_key (sample_core sample_texts)) answer] \<and>
    s_wire (sample_session sample_state) = [] \<and>
    registered_names (s_link (sample_session sample_state)) = {} \<and>
    (\<forall>n. \<not> takes_interjections (s_link (sample_session sample_state)) n) \<and>
    s_phase (sample_session sample_state) = Opened"
  by (rule provider_open_proven [OF sample_open])

text \<open>A provider that is turned away at the door is closed with the policy code 1008, never
  with the server's own fault code, and either core was not touched at all or core itself refused
  the attach, in which case the close carries core's words.\<close>

theorem provider_door_closed:
  assumes "provider_open F cid first c = ClosedAtDoor code reason c'"
  shows "code = POLICY_VIOLATION \<and>
    (c' = c \<or> (\<exists>hello key e. receive_hello F first = Inr (GotHello hello) \<and>
       provider_hello_error F hello = None \<and> dget hello ''publicKey'' = JStr key \<and>
       attach_provider F \<lparr>conn_id = cid, conn_key = key, conn_max = dget hello ''maxConcurrentRuns''\<rparr>
         (dget hello ''ticket'') (dget hello ''nonce'') (dget hello ''proof'') c = (Inl e, c') \<and>
       (is_class InvalidRegistration e \<or> is_value_error F e) \<and> reason = exn_text e))"
proof (cases "\<exists>hello. receive_hello F first = Inr (GotHello hello) \<and> provider_hello_error F hello = None")
  case False
  with assms show ?thesis
    by (auto simp: provider_open_def receive_hello_def POLICY_VIOLATION_def
        split: sum.splits hello_outcome.splits option.splits if_splits)
next
  case True
  then obtain hello where h: "receive_hello F first = Inr (GotHello hello)"
    and ok: "provider_hello_error F hello = None" by blast
  then have "hello_complete hello" by (simp add: provider_hello_ok)
  then obtain key where k: "dget hello ''publicKey'' = JStr key" by (rule hello_complete_key)
  with assms h ok show ?thesis
    by (auto simp: provider_open_def new_provider_ok py_str_def split: prod.splits sum.splits if_splits)
qed

definition late_texts :: "(string \<times> json) list" where
  "late_texts =
     [(''hello'', JObj [(''type'', JStr ''hello''), (''version'', JInt 4), (''publicKey'', JStr ''key1''),
       (''ticket'', JStr ''spent''), (''nonce'', JStr ''nonce1''), (''proof'', JStr ''proof1'')])]"

lemma late_closed:
  "provider_open (sample_core late_texts) 1 (Some (TextMessage ''hello'')) sample_state =
   ClosedAtDoor POLICY_VIOLATION ''no such ticket'' sample_state"
  by (simp add: provider_open_def receive_hello_def parse_frame_def provider_hello_error_def
      hello_fields_def WIRE_VERSION_def new_provider_ok py_str_def late_texts_def sample_simps)

theorem provider_door_closed_witness:
  "POLICY_VIOLATION = POLICY_VIOLATION \<and>
    (sample_state = sample_state \<or>
     (\<exists>hello key e. receive_hello (sample_core late_texts) (Some (TextMessage ''hello'')) = Inr (GotHello hello) \<and>
       provider_hello_error (sample_core late_texts) hello = None \<and> dget hello ''publicKey'' = JStr key \<and>
       attach_provider (sample_core late_texts)
         \<lparr>conn_id = 1, conn_key = key, conn_max = dget hello ''maxConcurrentRuns''\<rparr>
         (dget hello ''ticket'') (dget hello ''nonce'') (dget hello ''proof'') sample_state = (Inl e, sample_state) \<and>
       (is_class InvalidRegistration e \<or> is_value_error (sample_core late_texts) e) \<and>
       ''no such ticket'' = exn_text e))"
  by (rule provider_door_closed [OF late_closed])

section \<open>What goes out\<close>

text \<open>A reachable sample: opened, and the welcome sent.\<close>

lemma sample_reach:
  "reach (provider_init (sample_core sample_texts) 1) (provider_step (sample_core sample_texts) (=))
     (sample_session sample_state)"
  by (rule reach_start) (unfold provider_init_def, intro exI, rule sample_open)

lemma sample_sent:
  "provider_step (sample_core sample_texts) (=) (sample_session sample_state)
     (write_one (sample_session sample_state))"
  by (rule writes) (simp_all add: sample_session_def)

text \<open>Whatever happens on an open provider socket, in whatever order, the first frame said
  on it is the welcome, and the first frame on the wire, once there is one, is that welcome: no
  run, answer or error frame overtakes it.\<close>

theorem provider_welcome_first:
  assumes "reach (provider_init F cid) (provider_step F W) s"
  shows "\<exists>answer. hd (said s) = welcome_frame (identity_public_key F) answer \<and>
    (s_wire s \<noteq> [] \<longrightarrow> hd (s_wire s) = welcome_frame (identity_public_key F) answer)"
proof -
  obtain k where "reach (\<lambda>s. provider_init F cid s \<and> link_conn (s_link s) = k) (provider_step F W) s"
    using assms by (induction rule: reach.induct) (blast intro: reach.intros)+
  then have "provider_inv F k s" by (rule pv.reach_inv)
  then obtain answer rest where "said s = welcome_frame (identity_public_key F) answer # rest"
    by (auto simp: provider_inv_def)
  then show ?thesis by (auto simp: said_def neq_Nil_conv)
qed

theorem provider_welcome_first_witness:
  "\<exists>answer. hd (said (write_one (sample_session sample_state))) =
      welcome_frame (identity_public_key (sample_core sample_texts)) answer \<and>
    (s_wire (write_one (sample_session sample_state)) \<noteq> [] \<longrightarrow>
      hd (s_wire (write_one (sample_session sample_state))) =
        welcome_frame (identity_public_key (sample_core sample_texts)) answer)"
  by (rule provider_welcome_first [OF reach_next [OF sample_reach sample_sent]])



section \<open>What core is told\<close>

text \<open>C19. Everything the socket does to core, the reads of its queries and of its watcher included, is done
  as the party that opened it, whatever the frames claim: an operation that takes a connection gets
  this very one, an operation that takes a key the key that proved itself, and the watcher asks about
  that key's agents alone; a read of a thread names only the thread. The connection is detached
  exactly once, at its teardown, and after that nothing is asked of core but the reads of queries
  that were still under way.\<close>

theorem provider_calls_keyed:
  assumes "reach (logged_init F k) (provider_step (logged F) (logged_world W)) s"
  shows "if s_phase s = Gone
    then \<exists>ks rs. calls_of s = ks @ [CDetach (conn_key k) (conn_id k)] @ rs \<and>
           (\<forall>c \<in> set ks. made_by k c \<and> \<not> is_detach c) \<and> (\<forall>c \<in> set rs. made_by k c \<and> is_read c)
    else \<forall>c \<in> set (calls_of s). made_by k c \<and> \<not> is_detach c"
  using cv.reach_inv [OF assms] unfolding call_inv_def closed_calls_def quiet_calls_def reads_as_def list_all_iff
  by (cases "s_phase s = Gone") auto

definition logged_sample :: "(sample \<times> core_call list) session" where
  "logged_sample =
     sample_session (sample_state, [CAttach \<lparr>conn_id = 1, conn_key = ''key1'', conn_max = JNull\<rparr>])"

lemma logged_sample_init:
  "logged_init (sample_core sample_texts) \<lparr>conn_id = 1, conn_key = ''key1'', conn_max = JNull\<rparr> logged_sample"
  unfolding logged_init_def logged_sample_def
  by (intro conjI exI [of _ 1] exI [of _ "Some (TextMessage ''hello'')"] exI [of _ sample_state])
     (rule sample_open_logged, simp add: sample_session_def)

text \<open>A question asked, the socket gone, and the question answered after it.\<close>

abbreviation sample_conn :: conn where
  "sample_conn \<equiv> \<lparr>conn_id = 1, conn_key = ''key1'', conn_max = JNull\<rparr>"

abbreviation asked_frame :: obj where
  "asked_frame \<equiv> [(''type'', JStr ''query''), (''queryId'', JStr ''q1''), (''method'', JStr ''thread_messages''),
     (''params'', JObj [(''threadId'', JStr ''open'')])]"

definition asked_gone :: "(sample \<times> core_call list) session" where
  "asked_gone = run_query (logged (sample_core sample_texts)) 0
     (teardown (logged (sample_core sample_texts)) (logged_sample\<lparr>s_tasks := [asked_frame]\<rparr>))"

lemma asked_gone_reach:
  "reach (logged_init (sample_core sample_texts) sample_conn)
     (provider_step (logged (sample_core sample_texts)) (logged_world (=))) asked_gone"
proof -
  let ?F = "logged (sample_core sample_texts)" and ?s = "logged_sample\<lparr>s_tasks := [asked_frame]\<rparr>"
  have "reach (logged_init (sample_core sample_texts) sample_conn) (provider_step ?F (logged_world (=))) logged_sample"
    by (rule reach_start) (rule logged_sample_init)
  moreover have "provider_step ?F (logged_world (=)) logged_sample ?s"
  proof (rule reads)
    show "s_phase logged_sample \<noteq> Gone" by (simp add: logged_sample_def sample_session_def)
    show "TextMessage ''query'' \<noteq> Disconnect" by simp
    show "on_message ?F (TextMessage ''query'') logged_sample = (None, ?s)"
      by (simp add: on_message_def parse_frame_def on_frame_def INBOUND_FRAME_TYPES_def on_query_def sample_core_def
          sample_texts_def Let_def) (simp add: logged_sample_def sample_session_def)
  qed
  moreover have "provider_step ?F (logged_world (=)) ?s (teardown ?F ?s)"
    by (rule leaves) (simp add: logged_sample_def sample_session_def)
  moreover have "provider_step ?F (logged_world (=)) (teardown ?F ?s) asked_gone"
    unfolding asked_gone_def by (rule queries) (simp add: teardown_def Let_def)
  ultimately show ?thesis by (meson reach_next)
qed

lemma asked_gone_calls:
  "s_phase asked_gone = Gone"
  "calls_of asked_gone = [CAttach sample_conn, CDetach ''key1'' 1, CThread ''open'', CThread ''open'', CParties ''open'', CMessages ''open'']"
  by (simp_all add: asked_gone_def run_query_def answer_query_def answer_thread_messages_def teardown_def Let_def
      QUERY_METHODS_def py_or_def good_limit_def may_read_def io_simps logging_def say_def logged_sample_def sample_simps)

theorem provider_calls_keyed_witness:
  "\<exists>ks rs. [CAttach sample_conn, CDetach ''key1'' 1, CThread ''open'', CThread ''open'', CParties ''open'', CMessages ''open''] =
      ks @ [CDetach ''key1'' 1] @ rs \<and>
    (\<forall>c \<in> set ks. made_by sample_conn c \<and> \<not> is_detach c) \<and> (\<forall>c \<in> set rs. made_by sample_conn c \<and> is_read c)"
  using provider_calls_keyed [OF asked_gone_reach] unfolding asked_gone_calls by simp

text \<open>The verdicts, events and finishes of the frames a socket has read reach core one call
  per frame, in the order the frames arrived, each with the frame's own run id and payload: an
  accept a provider sends before its first event is told to core before that event.\<close>

theorem run_reports_in_order:
  assumes "read_loop (logged F) ms s = (None, s')"
  shows "filter is_run_call (calls_of s') =
    filter is_run_call (calls_of s) @
    concat (map (message_calls F (conn_key (link_conn (s_link s)))) ms)"
  using assms by (rule read_loop_calls)

abbreviation run_frames :: "asgi_message list" where
  "run_frames \<equiv> [TextMessage ''ack'', TextMessage ''event'', TextMessage ''finish'']"

lemma run_frames_read:
  "fst (read_loop (logged (sample_core sample_texts)) run_frames logged_sample) = None"
  by (simp add: on_message_def parse_frame_def on_frame_def INBOUND_FRAME_TYPES_def on_ack_def
      on_event_def on_finish_def parse_verdict_def logging_def logged_sample_def sample_simps
      reason_of_def Let_def)

lemma run_frames_calls:
  "concat (map (message_calls (sample_core sample_texts) ''key1'') run_frames) =
     [CAnswer (JStr ''run1'') Accepted ''key1'', CEvent (JStr ''run1'') (JStr ''e'') ''key1'',
      CFinish (JStr ''run1'') ''key1'']"
  by (simp add: message_calls_def parse_frame_def run_calls_def parse_verdict_def
      verdict_answer_def sample_simps reason_of_def Let_def)

theorem run_reports_in_order_witness:
  "filter is_run_call (calls_of (snd (read_loop (logged (sample_core sample_texts)) run_frames logged_sample))) =
     [CAnswer (JStr ''run1'') Accepted ''key1'', CEvent (JStr ''run1'') (JStr ''e'') ''key1'',
      CFinish (JStr ''run1'') ''key1'']"
proof -
  have "read_loop (logged (sample_core sample_texts)) run_frames logged_sample =
     (None, snd (read_loop (logged (sample_core sample_texts)) run_frames logged_sample))"
    by (rule prod_eqI) (simp_all only: run_frames_read fst_conv snd_conv)
  then show ?thesis
    using run_reports_in_order [of "sample_core sample_texts" run_frames logged_sample] run_frames_calls
    by (simp add: logged_sample_def sample_session_def)
qed

end
