(* ===== verification/Provider_Answers.thy ===== *)
theory Provider_Answers
  imports Provider_Props
begin

text \<open>
  What the provider socket answers: the roster it publishes, the readers of \<open>register\<close> and
  \<open>ack\<close>, the \<open>thread_messages\<close> query, what tears the socket down and what the watcher does.
\<close>

section \<open>The roster\<close>

interpretation rv: machine_invariant
  "provider_init F cid" "provider_step F W" "\<lambda>s. runs_untyped F \<longrightarrow> roster_inv s"
  for F :: "('c, 'z) core_scheme" and cid W
  by unfold_locales (auto intro: roster_inv_init roster_inv_step)

lemma sample_runs_untyped: "runs_untyped (sample_core texts)"
  by (auto simp: runs_untyped_def sample_core_def Let_def split: if_splits)

definition register_texts :: "(string \<times> json) list" where
  "register_texts =
     (''register'', JObj [(''type'', JStr ''register''),
        (''agents'', JList [JObj [(''name'', JStr ''bob'')], JObj [(''name'', JStr ''alice'')]])])
     # sample_texts"

lemma register_sample_open:
  "provider_open (sample_core register_texts) 1 (Some (TextMessage ''hello'')) sample_state =
   Open (sample_session sample_state)"
  by (simp add: provider_open_def receive_hello_def parse_frame_def provider_hello_error_def
      hello_fields_def WIRE_VERSION_def new_provider_ok py_str_def put_def register_texts_def sample_simps)

lemma register_sample_read:
  "fst (on_message (sample_core register_texts) (TextMessage ''register'') (sample_session sample_state)) = None"
  "registered_names (s_link (snd (on_message (sample_core register_texts) (TextMessage ''register'')
     (sample_session sample_state)))) = {''alice'', ''bob''}"
  by (simp_all add: on_message_def parse_frame_def on_frame_def INBOUND_FRAME_TYPES_def on_register_def
      parse_registration_def register_texts_def sample_simps Let_def link_calls_def say_def
      declare_interjections_def put_def agent_name_match_def name_char_def less_eq_char_def insert_commute)

abbreviation registered_sample :: "sample session" where
  "registered_sample \<equiv> snd (on_message (sample_core register_texts) (TextMessage ''register'')
     (sample_session sample_state))"

lemma registered_reach:
  "reach (provider_init (sample_core register_texts) 1) (provider_step (sample_core register_texts) (=))
     registered_sample"
proof (rule reach_next, rule reach_start)
  show "provider_init (sample_core register_texts) 1 (sample_session sample_state)"
    unfolding provider_init_def by (intro exI) (rule register_sample_open)
  show "provider_step (sample_core register_texts) (=) (sample_session sample_state) registered_sample"
  proof (rule reads)
    show "s_phase (sample_session sample_state) \<noteq> Gone" by (simp add: sample_session_def)
    show "TextMessage ''register'' \<noteq> Disconnect" by simp
    show "on_message (sample_core register_texts) (TextMessage ''register'') (sample_session sample_state) =
        (None, registered_sample)"
      by (rule prod_eqI) (simp_all only: register_sample_read fst_conv snd_conv)
  qed
qed

text \<open>C20. The names a socket holds as published are exactly what a reader of its own answers would
  compute: the names of the last \<open>registered\<close> frame less those deleted since, whatever errors,
  runs, queries and teardowns came between. It needs only that core hands no dump with a
  \<open>type\<close> key down the link.\<close>

theorem roster_matches_frames:
  assumes "runs_untyped F" and "reach (provider_init F cid) (provider_step F W) s"
  shows "registered_names (s_link s) = roster_of (said s)"
  using rv.reach_inv [OF assms(2)] assms(1) by (simp add: roster_inv_def)

theorem roster_matches_frames_witness:
  "registered_names (s_link registered_sample) = roster_of (said registered_sample) \<and>
   registered_names (s_link registered_sample) = {''alice'', ''bob''}"
  by (rule conjI [OF roster_matches_frames [OF sample_runs_untyped registered_reach] register_sample_read(2)])

section \<open>Register and ack frames\<close>

lemma parse_entries_all:
  "parse_entries K es = Inr regs \<Longrightarrow>
   list_all2 (\<lambda>e r. \<exists>d. e = JObj d \<and> validate_registration K d = Inr r) es regs"
  by (induction es arbitrary: regs) (auto split: json.splits sum.splits if_splits)

lemma url_name_simps: "url_name s \<Longrightarrow> s \<noteq> [] \<and> length s \<le> 128"
  by (auto simp: url_name_def)

text \<open>A \<open>register\<close> frame that is read yields one registration per entry, in order, each the
  contract's own validation of that entry and at least one of them, and each name is 1 to 128 URL
  characters, except that one newline at the end also passes the pattern.\<close>

theorem register_frame_entries:
  assumes "parse_registration K frame = Inr regs"
  shows "\<exists>agents. dget frame ''agents'' = JList agents \<and> agents \<noteq> [] \<and>
    list_all2 (\<lambda>e r. \<exists>d. e = JObj d \<and> validate_registration K d = Inr r) agents regs \<and>
    (\<forall>r \<in> set regs. url_name (reg_name r) \<or> (\<exists>t. reg_name r = t @ [CHR 0x0A] \<and> url_name t))"
proof -
  from assms obtain agents where "dget frame ''agents'' = JList agents" and "agents \<noteq> []"
    and "parse_entries K agents = Inr regs"
    by (auto simp: parse_registration_def split: json.splits if_splits)
  then show ?thesis
    using parse_entries_names by (auto intro: parse_entries_all simp: agent_name_match_iff [symmetric])
qed

theorem register_frame_entries_witness:
  "\<exists>agents. dget [(''agents'', JList [JObj [(''name'', JStr ''bob'')]])] ''agents'' = JList agents \<and> agents \<noteq> [] \<and>
    list_all2 (\<lambda>e r. \<exists>d. e = JObj d \<and> validate_registration (sample_core []) d = Inr r) agents
      [\<lparr>reg_name = ''bob'', reg_interjections = JNull, reg_rest = [(''name'', JStr ''bob'')]\<rparr>] \<and>
    (\<forall>r \<in> set [\<lparr>reg_name = ''bob'', reg_interjections = JNull, reg_rest = [(''name'', JStr ''bob'')]\<rparr>].
      url_name (reg_name r) \<or> (\<exists>t. reg_name r = t @ [CHR 0x0A] \<and> url_name t))"
  by (rule register_frame_entries)
     (simp add: parse_registration_def sample_core_def agent_name_match_def name_char_def less_eq_char_def)

text \<open>A name with a newline at its end is published, though no URL segment can carry it.\<close>

lemma newline_name_registered:
  "agent_name_match (''bob'' @ [CHR 0x0A]) \<and> \<not> url_name (''bob'' @ [CHR 0x0A])"
  by (auto simp: agent_name_match_def name_char_def less_eq_char_def url_name_def)

text \<open>A valid \<open>ack\<close> becomes exactly one answer to core, under the socket's own key: accepted
  when the \<open>accepted\<close> field is missing or truthy, a refusal with the provider's own non-empty
  reason when there is one, and otherwise a decline; whether anybody heard it or not, nothing is
  said back.\<close>

theorem ack_three_valued:
  assumes "parse_verdict F d = Inr v"
  shows "calls_of (snd (on_ack (logged F) d s)) = calls_of s @
      [CAnswer (dget d ''runId'')
        (if truthy (dget_or d ''accepted'' (JBool True)) then Accepted
         else (case dget d ''reason'' of
                 JStr r \<Rightarrow> if r \<noteq> [] then RefusedBecause r else Declined | _ \<Rightarrow> Declined))
        (conn_key (link_conn (s_link s)))] \<and>
    s_link (snd (on_ack (logged F) d s)) = s_link s"
proof
  show "calls_of (snd (on_ack (logged F) d s)) = calls_of s @
      [CAnswer (dget d ''runId'')
        (if truthy (dget_or d ''accepted'' (JBool True)) then Accepted
         else (case dget d ''reason'' of
                 JStr r \<Rightarrow> if r \<noteq> [] then RefusedBecause r else Declined | _ \<Rightarrow> Declined))
        (conn_key (link_conn (s_link s)))]"
    using assms
    by (simp add: ack_calls parse_verdict_answer [OF assms] reason_of_def split: json.splits)
  show "s_link (snd (on_ack (logged F) d s)) = s_link s"
    using assms by (simp add: on_ack_def split: sum.splits prod.splits)
qed

abbreviation refusing_ack :: obj where
  "refusing_ack \<equiv> [(''type'', JStr ''ack''), (''runId'', JStr ''run1''), (''accepted'', JBool False),
     (''reason'', JStr ''full'')]"

theorem ack_three_valued_witness:
  "calls_of (snd (on_ack (logged (sample_core [])) refusing_ack logged_sample)) =
   calls_of logged_sample @ [CAnswer (JStr ''run1'') (RefusedBecause ''full'') ''key1'']"
  using ack_three_valued [of "sample_core []" refusing_ack
      "\<lparr>v_id = JStr ''run1'', v_verdict = ''refused'', v_reason = Some ''full''\<rparr>" logged_sample]
  by (simp add: parse_verdict_def reason_of_def sample_core_def logged_sample_def sample_session_def)

section \<open>The thread query\<close>

abbreviation thread_query :: "json \<Rightarrow> string \<Rightarrow> json \<Rightarrow> obj" where
  "thread_query q t limit \<equiv>
     [(''type'', JStr ''query''), (''queryId'', q), (''method'', JStr ''thread_messages''),
      (''params'', JObj [(''threadId'', JStr t), (''limit'', limit)])]"

lemma query_result_get [simp]:
  "dget (query_result q [(''result'', r)]) ''result'' = r"
  "dget (query_result q [(''result'', r)]) ''queryId'' = q"
  "dget (query_error q m) ''result'' = JNull"
  "dget (query_error q m) ''queryId'' = q"
  by (simp_all add: query_result_def query_error_def)

lemma error_frame_get [simp]:
  "dget (error_frame m) ''result'' = JNull" "dget (error_frame m) ''queryId'' = JNull"
  by (simp_all add: error_frame_def)

lemma may_read_Inr: "may_read F t k c = (Inr b, c') \<Longrightarrow> b \<longleftrightarrow> may_read_at F c t k"
  using may_read_false_or_true [of F t k c b] by simp

lemma thread_messages_result:
  assumes "answer_thread_messages F key q ps c = (Inr fs, c')" and "f \<in> set fs"
    and "dget f ''result'' \<noteq> JNull"
  obtains t row c1 c2 ms where "dget ps ''threadId'' = JStr t" and "good_limit (dget ps ''limit'')"
    and "get_thread F t c = (Inr (Some row), c1)" and "thread_provider_key row = key"
    and "may_read_at F c1 t (Some key)" and "get_thread_messages F t c2 = (Inr ms, c')"
    and "dget f ''result'' = JList (trim_messages (dget ps ''limit'') ms)"
  using assms that
  by (auto simp: answer_thread_messages_def io_simps dest!: may_read_Inr
      split: json.splits if_splits prod.splits sum.splits option.splits)

lemma answer_query_result:
  assumes "answer_query F key d c = (Inr fs, c')" and "f \<in> set fs" and "dget f ''result'' \<noteq> JNull"
  obtains ps where "answer_thread_messages F key (dget d ''queryId'') ps c = (Inr fs, c')"
    and "py_or (dget d ''params'') (JObj []) = JObj ps"
  using assms that
  by (auto simp: answer_query_def Let_def io_simps split: json.splits if_splits)

lemma trim_messages_good:
  "good_limit limit \<Longrightarrow> suffix (trim_messages limit ms) ms \<and>
     length (trim_messages limit ms) =
       (case as_int limit of Some n \<Rightarrow> min (length ms) (nat n) | None \<Rightarrow> length ms)"
  by (auto simp: trim_messages_def suffix_last_n length_last_n split: option.splits)

text \<open>C22. A query is answered with stored messages only for a thread whose owner is the key that
  proved itself on this socket and only if the reading rule, asked about the world as it then
  stood, lets that key read it; and what is sent is the newest part of what core stores, at most
  \<open>limit\<close> of them and all of them without one.\<close>

theorem query_serves_own_thread:
  assumes "answer_query F key d c = (Inr fs, c')" and "f \<in> set fs" and "dget f ''result'' \<noteq> JNull"
  shows "\<exists>ps t row c1 c2 ms shown.
    py_or (dget d ''params'') (JObj []) = JObj ps \<and> dget ps ''threadId'' = JStr t \<and>
    get_thread F t c = (Inr (Some row), c1) \<and> thread_provider_key row = key \<and>
    may_read_at F c1 t (Some key) \<and> get_thread_messages F t c2 = (Inr ms, c') \<and>
    dget f ''result'' = JList shown \<and> suffix shown ms \<and>
    length shown = (case as_int (dget ps ''limit'') of
                      Some n \<Rightarrow> min (length ms) (nat n) | None \<Rightarrow> length ms)"
proof -
  obtain ps where ans: "answer_thread_messages F key (dget d ''queryId'') ps c = (Inr fs, c')"
    and ps: "py_or (dget d ''params'') (JObj []) = JObj ps"
    using assms by (rule answer_query_result)
  obtain t row c1 c2 ms where "dget ps ''threadId'' = JStr t" and "good_limit (dget ps ''limit'')"
    and "get_thread F t c = (Inr (Some row), c1)" and "thread_provider_key row = key"
    and "may_read_at F c1 t (Some key)" and "get_thread_messages F t c2 = (Inr ms, c')"
    and "dget f ''result'' = JList (trim_messages (dget ps ''limit'') ms)"
    using ans assms(2,3) by (rule thread_messages_result)
  with ps trim_messages_good [of "dget ps ''limit''" ms] show ?thesis by blast
qed

lemma sample_query:
  "answer_query (sample_core []) ''key1'' (thread_query (JStr ''q1'') ''open'' (JInt 2)) sample_state =
     (Inr [query_result (JStr ''q1'') [(''result'', JList [JStr ''b'', JStr ''c''])]], sample_state)"
  by (simp add: answer_query_def Let_def QUERY_METHODS_def py_or_def answer_thread_messages_def
      good_limit_def trim_messages_def last_n_def may_read_def io_simps sample_simps)

theorem query_serves_own_thread_witness:
  "\<exists>ps t row c1 c2 ms shown.
    py_or (dget (thread_query (JStr ''q1'') ''open'' (JInt 2)) ''params'') (JObj []) = JObj ps \<and>
    dget ps ''threadId'' = JStr t \<and>
    get_thread (sample_core []) t sample_state = (Inr (Some row), c1) \<and> thread_provider_key row = ''key1'' \<and>
    may_read_at (sample_core []) c1 t (Some ''key1'') \<and>
    get_thread_messages (sample_core []) t c2 = (Inr ms, sample_state) \<and>
    dget (query_result (JStr ''q1'') [(''result'', JList [JStr ''b'', JStr ''c''])]) ''result'' = JList shown \<and>
    suffix shown ms \<and>
    length shown = (case as_int (dget ps ''limit'') of
                      Some n \<Rightarrow> min (length ms) (nat n) | None \<Rightarrow> length ms)"
  by (rule query_serves_own_thread [OF sample_query]) simp_all

text \<open>A well-formed query on a world whose reads succeed is answered with one frame: the
  messages if the thread exists, belongs to the key and the key is one of its parties where it has
  any, and otherwise one and the same denial, so that an absent thread, another provider's and one
  the key has no part in cannot be told apart.\<close>

lemma query_denials_alike:
  assumes "get_thread F t c = (Inr thread, c)" and "parties_of F t c = (Inr parties, c)"
    and "get_thread_messages F t c = (Inr ms, c)"
    and "nonempty_str q" and "t \<noteq> []" and "good_limit limit"
  shows "answer_query F key (thread_query q t limit) c =
    (Inr [if (\<exists>row. thread = Some row \<and> thread_provider_key row = key) \<and>
             (\<forall>ps. parties = Some ps \<longrightarrow> key \<in> set ps)
          then query_result q [(''result'', JList (trim_messages limit ms))]
          else query_error q no_such_thread], c)"
  using assms
  by (auto simp: answer_query_def Let_def QUERY_METHODS_def py_or_def answer_thread_messages_def
      may_read_def io_simps split: option.splits)

text \<open>A core whose three reads never raise.\<close>

definition reads_total :: "('c, 'z) core_scheme \<Rightarrow> bool" where
  "reads_total F \<longleftrightarrow>
     (\<forall>t c e c'. get_thread F t c \<noteq> (Inl e, c')) \<and> (\<forall>t c e c'. parties_of F t c \<noteq> (Inl e, c')) \<and>
     (\<forall>t c e c'. get_thread_messages F t c \<noteq> (Inl e, c'))"

lemma may_read_total: "reads_total F \<Longrightarrow> may_read F t k c \<noteq> (Inl e, c')"
  by (auto simp: reads_total_def may_read_def io_simps split: prod.splits sum.splits if_splits)

lemma thread_messages_once:
  assumes "reads_total F"
  shows "\<exists>f c'. answer_thread_messages F key q ps c = (Inr [f], c') \<and> dget f ''queryId'' = q"
  using assms may_read_total [OF assms]
  by (auto simp: answer_thread_messages_def reads_total_def io_simps
      split: json.splits prod.splits sum.splits option.splits)

text \<open>C23. On a core whose reads never raise, a query frame with an id is always answered by
  exactly one frame carrying that id, except where the handler itself raises and nothing is
  answered: when the method is a list or an object, or the method is known and the parameters are
  a truthy value that is no object.\<close>

theorem query_answered_once:
  assumes "reads_total F" and "nonempty_str (dget d ''queryId'')"
  shows "if \<not> hashable (dget d ''method'') \<or>
            (dget d ''method'' = JStr ''thread_messages'' \<and> truthy (dget d ''params'') \<and>
             (\<forall>ps. dget d ''params'' \<noteq> JObj ps))
    then \<exists>e. answer_query F key d c = (Inl e, c)
    else \<exists>f c'. answer_query F key d c = (Inr [f], c') \<and> dget f ''queryId'' = dget d ''queryId''"
  using assms thread_messages_once [OF assms(1), of key "dget d ''queryId''"]
  by (auto simp: answer_query_def Let_def QUERY_METHODS_def py_or_def io_simps split: json.splits)

theorem query_answered_once_witness:
  "(\<exists>e. answer_query (sample_core []) ''key1''
      [(''queryId'', JStr ''q1''), (''method'', JList [])] sample_state = (Inl e, sample_state)) \<and>
   reads_total (sample_core [])"
proof
  show r: "reads_total (sample_core [])" by (simp add: reads_total_def sample_core_def)
  show "\<exists>e. answer_query (sample_core []) ''key1''
      [(''queryId'', JStr ''q1''), (''method'', JList [])] sample_state = (Inl e, sample_state)"
    using query_answered_once [OF r, of "[(''queryId'', JStr ''q1''), (''method'', JList [])]" "''key1''" sample_state]
    by simp
qed

section \<open>What tears a socket down\<close>

text \<open>
  What core's operation on a frame raises past the handler: a registration may raise the errors of
  core and value errors, a deletion the errors of core, and the reports of a run nothing at all.
\<close>

definition raised_past :: "(exn \<Rightarrow> bool) \<Rightarrow> exn + 'a \<Rightarrow> exn option" where
  "raised_past handled r = (case r of Inl e \<Rightarrow> if handled e then None else Some e | Inr x \<Rightarrow> None)"

definition core_raises :: "('c, 'z) core_scheme \<Rightarrow> obj \<Rightarrow> 'c session \<Rightarrow> exn option" where
  "core_raises F d s =
     (let key = conn_key (link_conn (s_link s)) in
      if dget d ''type'' = JStr ''register''
         then (case parse_registration F d of
                 Inl problem \<Rightarrow> None
               | Inr agents \<Rightarrow>
                   raised_past (\<lambda>e. is_funduq_error F e \<or> is_value_error F e)
                     (fst (register_agents F (link_conn (s_link s))
                        (takes_interjections (declare_interjections agents (s_link s))) agents
                        (dget d ''providerName'') (s_core s))))
         else if dget d ''type'' = JStr ''deleteAgent''
         then (case dget d ''name'' of
                 JStr name \<Rightarrow>
                   if name = [] then None
                   else raised_past (is_funduq_error F) (fst (delete_agent F (link_conn (s_link s)) name (s_core s)))
               | _ \<Rightarrow> None)
         else if dget d ''type'' = JStr ''ack''
         then (case parse_verdict F d of
                 Inl problem \<Rightarrow> None
               | Inr v \<Rightarrow> raised_past (\<lambda>e. False) (fst (answer_offer F (dget d ''runId'') (verdict_answer v) key (s_core s))))
         else if dget d ''type'' = JStr ''event''
         then raised_past (\<lambda>e. False) (fst (report_event F (dget d ''runId'') (dget d ''event'') key (s_core s)))
         else if dget d ''type'' = JStr ''finish''
         then raised_past (\<lambda>e. False) (fst (finish_run F (dget d ''runId'') key (s_core s)))
         else None)"

lemma register_raises: "dget d ''type'' = JStr ''register'' \<Longrightarrow> fst (on_register F d s) = core_raises F d s"
  by (simp add: on_register_def core_raises_def raised_past_def Let_def link_simps split: sum.split prod.split)

lemma delete_raises: "dget d ''type'' = JStr ''deleteAgent'' \<Longrightarrow> fst (on_delete_agent F d s) = core_raises F d s"
  by (simp add: on_delete_agent_def core_raises_def raised_past_def Let_def split: sum.split prod.split json.split)

lemma report_raises:
  "dget d ''type'' = JStr ''ack'' \<Longrightarrow> fst (on_ack F d s) = core_raises F d s"
  "dget d ''type'' = JStr ''event'' \<Longrightarrow> fst (on_event F d s) = core_raises F d s"
  "dget d ''type'' = JStr ''finish'' \<Longrightarrow> fst (on_finish F d s) = core_raises F d s"
  by (simp_all add: on_ack_def on_event_def on_finish_def core_raises_def raised_past_def Let_def
      split: sum.split prod.split)

lemma frame_raises:
  assumes "hashable (dget d ''type'')"
  shows "fst (on_frame F d s) = core_raises F d s"
proof (cases "dget d ''type'' \<in> JStr ` {''register'', ''deleteAgent'', ''ack'', ''event'', ''finish''}")
  case True
  then show ?thesis
    using register_raises [of d F s] delete_raises [of d F s] report_raises [of d F s]
    by (auto simp: on_frame_def Let_def INBOUND_FRAME_TYPES_def)
next
  case False
  then have "core_raises F d s = None" by (auto simp: core_raises_def)
  with False assms show ?thesis by (auto simp: on_frame_def Let_def on_query_def INBOUND_FRAME_TYPES_def)
qed

text \<open>C24. A provider's message ends the read loop, and with it the connection, in exactly three cases. In
  two the frame is malformed and was to be answered with an error frame: the decoder raised
  something other than its decode error, or the frame's \<open>type\<close> is a list or an object. In the third
  the frame has a known type and core, called with the fields the frame gives it as they are,
  raises what its handler does not catch: anything at all for a report of a run, anything but an
  error of core for a deletion, anything but that or a value error for a registration. It is that
  exception that leaves the loop; every other message, however wrong, is answered and the socket stays.\<close>

theorem message_tears_down_iff:
  "fst (on_message F m s) = Some e \<longleftrightarrow>
    (\<exists>t. m = TextMessage t \<and> json_loads F t = Inl e \<and> \<not> is_class JSONDecodeError e) \<or>
    (\<exists>t d. m = TextMessage t \<and> json_loads F t = Inr (JObj d) \<and>
       (if hashable (dget d ''type'') then core_raises F d s = Some e else e = unhashable (dget d ''type'')))"
proof (cases "parse_frame F m")
  case (Inl x)
  then obtain t where t: "m = TextMessage t" "json_loads F t = Inl x" "\<not> is_class JSONDecodeError x"
    by (auto simp: parse_frame_raises)
  with Inl show ?thesis by (auto simp: on_message_def)
next
  case (Inr r)
  show ?thesis
  proof (cases r)
    case None
    with Inr show ?thesis
      using parse_frame_raises [of F m] parse_frame_Some [of F m] by (auto simp: on_message_def)
  next
    case (Some d)
    with Inr obtain t where t: "m = TextMessage t" "json_loads F t = Inr (JObj d)"
      by (auto simp: parse_frame_Some)
    have "fst (on_frame F d s) = Some (unhashable (dget d ''type''))" if "\<not> hashable (dget d ''type'')"
      using that by (simp add: on_frame_def Let_def)
    with Inr Some t frame_raises [of d F s] show ?thesis by (auto simp: on_message_def)
  qed
qed

text \<open>A frame whose type is a list ends the connection; so does a run id that makes core raise.\<close>

definition odd_core :: "obj \<Rightarrow> sample core" where
  "odd_core frame = (sample_core [(''odd'', JObj frame)])\<lparr>finish_run := (\<lambda>r key c. (Inl (unhashable r), c))\<rparr>"

theorem message_tears_down_iff_witness:
  "fst (on_message (odd_core [(''type'', JList [])]) (TextMessage ''odd'') (sample_session sample_state)) =
     Some (unhashable (JList [])) \<and>
   fst (on_message (odd_core [(''type'', JStr ''finish''), (''runId'', JList [])]) (TextMessage ''odd'')
     (sample_session sample_state)) = Some (unhashable (JList []))"
  unfolding message_tears_down_iff
  by (simp add: odd_core_def sample_core_def core_raises_def raised_past_def)

section \<open>The watcher\<close>

lemma ask_listed_stable:
  assumes "\<forall>r c. get_agent F r c = (Inr (L r c), c)"
  shows "ask_listed F refs c = (Inr (map (\<lambda>r. L r c) refs), c)"
  by (induction refs) (simp_all add: io_simps assms)

text \<open>At each waking the watcher closes the socket, with the policy code, exactly when the
  provider has published something and core lists none of the names it published any more; a
  provider that published nothing, and one that lost only some of its names, is left alone and
  watched further.\<close>

theorem watcher_closes_iff_delisted:
  assumes "\<forall>r c. get_agent F r c = (Inr (L r c), c)" and "finite (registered_names (s_link s))"
  shows "watch F s =
    (if registered_names (s_link s) \<noteq> {} \<and>
        (\<forall>n \<in> registered_names (s_link s).
           \<not> L \<lparr>ref_provider_key = conn_key (link_conn (s_link s)), ref_name = n\<rparr> (s_core s))
     then say (close_frame POLICY_VIOLATION ''funduq no longer lists these agents; re-register'')
            (s\<lparr>s_watching := False\<rparr>)
     else s)"
proof -
  let ?names = "sorted_list_of_set (registered_names (s_link s))"
  let ?ref = "\<lambda>n. \<lparr>ref_provider_key = conn_key (link_conn (s_link s)), ref_name = n\<rparr>"
  have set: "set ?names = registered_names (s_link s)" using assms(2) by simp
  then have empty: "?names = [] \<longleftrightarrow> registered_names (s_link s) = {}" by auto
  have ask: "ask_listed F (map ?ref ?names) (s_core s) =
      (Inr (map (\<lambda>n. L (?ref n) (s_core s)) ?names), s_core s)"
    by (simp add: ask_listed_stable [OF assms(1)] comp_def)
  have any: "True \<in> set (map (\<lambda>n. L (?ref n) (s_core s)) ?names) \<longleftrightarrow>
      (\<exists>n \<in> registered_names (s_link s). L (?ref n) (s_core s))"
    unfolding set_map set by auto
  show ?thesis
    unfolding watch_def Let_def ask delisted_frame_def prod.case sum.case any empty
    by (auto simp: say_def)
qed

definition published_sample :: "sample session" where
  "published_sample = (sample_session sample_state)\<lparr>s_link :=
     (s_link (sample_session sample_state))\<lparr>registered_names := {''bob''}\<rparr>\<rparr>"

theorem watcher_closes_iff_delisted_witness:
  "watch (sample_core []) published_sample =
     say (close_frame POLICY_VIOLATION ''funduq no longer lists these agents; re-register'')
       (published_sample\<lparr>s_watching := False\<rparr>)"
  using watcher_closes_iff_delisted [of "sample_core []" "\<lambda>r c. r \<in> set (sm_agents c)" published_sample]
  by (simp add: published_sample_def sample_simps)

end
