(* ===== verification/Provider_Vocabulary.thy ===== *)
theory Provider_Vocabulary
  imports Provider_Answers
begin

text \<open>
  The words of \<open>/ws/provider\<close>: which frames the gateway puts on the wire, with the fields each kind
  has, and that it never puts any other. What core hands down is of the contract's own shape.
\<close>

section \<open>The frames\<close>

definition text_at :: "obj \<Rightarrow> string \<Rightarrow> bool" where
  "text_at f k \<longleftrightarrow> (case dget f k of JStr t \<Rightarrow> True | _ \<Rightarrow> False)"

definition object_at :: "obj \<Rightarrow> string \<Rightarrow> bool" where
  "object_at f k \<longleftrightarrow> (case dget f k of JObj d \<Rightarrow> True | _ \<Rightarrow> False)"

definition list_at :: "obj \<Rightarrow> string \<Rightarrow> bool" where
  "list_at f k \<longleftrightarrow> (case dget f k of JList xs \<Rightarrow> True | _ \<Rightarrow> False)"

definition texts_at :: "obj \<Rightarrow> string \<Rightarrow> bool" where
  "texts_at f k \<longleftrightarrow>
     (case dget f k of JList xs \<Rightarrow> list_all (\<lambda>x. case x of JStr t \<Rightarrow> True | _ \<Rightarrow> False) xs | _ \<Rightarrow> False)"

text \<open>The seven kinds of \<open>docs/wire-vectors.json\<close>, and the close, which the writer takes for itself.\<close>

definition wire_frame :: "obj \<Rightarrow> bool" where
  "wire_frame f \<longleftrightarrow>
     dget f ''type'' = JStr ''welcome'' \<and> text_at f ''funduqPublicKey'' \<or>
     dget f ''type'' = JStr ''run'' \<and> text_at f ''runId'' \<and> text_at f ''agentName'' \<and> object_at f ''runInput'' \<or>
     dget f ''type'' = JStr ''cancel'' \<and> text_at f ''runId'' \<or>
     dget f ''type'' = JStr ''registered'' \<and> texts_at f ''names'' \<or>
     dget f ''type'' = JStr ''deleted'' \<and> text_at f ''name'' \<or>
     dget f ''type'' = JStr ''queryResult'' \<and> text_at f ''queryId'' \<and> (text_at f ''error'' \<or> list_at f ''result'') \<or>
     dget f ''type'' = JStr ''error'' \<and> text_at f ''message''"

definition closing_frame :: "obj \<Rightarrow> bool" where
  "closing_frame f \<longleftrightarrow> dget f ''type'' = JStr CLOSE \<and> text_at f ''reason''"

definition queued_frame :: "obj \<Rightarrow> bool" where
  "queued_frame f \<longleftrightarrow> wire_frame f \<or> closing_frame f"

section \<open>What core hands down\<close>

text \<open>
  A run is a dump of the contract's \<open>DeliveredRun\<close>, with the fields of the published envelope; a
  cancelled run is named by its id, a string.
\<close>

definition run_envelope :: "obj \<Rightarrow> bool" where
  "run_envelope run \<longleftrightarrow>
     untyped run \<and> distinct (map fst run) \<and> text_at run ''runId'' \<and> text_at run ''agentName'' \<and> object_at run ''runInput''"

fun envelope_call :: "link_call \<Rightarrow> bool" where
  "envelope_call (CallDeliver run) = run_envelope run"
| "envelope_call (CallCancel i) = (case i of JStr t \<Rightarrow> True | _ \<Rightarrow> False)"

text \<open>In the midst of a registration or a deletion, and at any other time.\<close>

definition calls_enveloped :: "('c, 'z) core_scheme \<Rightarrow> bool" where
  "calls_enveloped F \<longleftrightarrow>
     (\<forall>k ti rs nm c r ks c'. register_agents F k ti rs nm c = (r, ks, c') \<longrightarrow> list_all envelope_call ks) \<and>
     (\<forall>k n c r ks c'. delete_agent F k n c = (r, ks, c') \<longrightarrow> list_all envelope_call ks)"

definition enveloped_step :: "('c, 'z) core_scheme \<Rightarrow> ('c \<Rightarrow> 'c \<Rightarrow> bool) \<Rightarrow> 'c session \<Rightarrow> 'c session \<Rightarrow> bool" where
  "enveloped_step F W s t \<longleftrightarrow>
     provider_step F W s t \<and>
     (\<forall>k. t = s\<lparr>s_link := link_call k (s_link s)\<rparr> \<longrightarrow> envelope_call k)"

section \<open>What is added to the queue\<close>

definition speaks :: "link \<Rightarrow> link \<Rightarrow> bool" where
  "speaks l l' \<longleftrightarrow> (\<exists>fs. outbound l' = outbound l @ fs \<and> list_all queued_frame fs)"

lemma speaks_refl [simp]: "speaks l l"
  by (simp add: speaks_def)

lemma speaks_trans: "speaks l l' \<Longrightarrow> speaks l' l'' \<Longrightarrow> speaks l l''"
  by (auto simp: speaks_def)

lemma speaks_fields [simp]:
  "speaks l (l'\<lparr>registered_names := N\<rparr>) = speaks l l'" "speaks (declare_interjections rs l) l' = speaks l l'"
  by (simp_all add: speaks_def declare_interjections_def)

lemma speaks_put: "queued_frame f \<Longrightarrow> speaks l (put f l)"
  by (simp add: speaks_def put_def)

lemma speaks_more: "speaks l l' \<Longrightarrow> queued_frame f \<Longrightarrow> speaks l (put f l')"
  by (rule speaks_trans [OF _ speaks_put])

lemma put_names: "put f (l\<lparr>registered_names := N\<rparr>) = (put f l)\<lparr>registered_names := N\<rparr>"
  by (simp add: put_def)

lemma said_links [simp]: "s_link (say f s) = put f (s_link s)"
  by (simp add: say_def)

lemma wire_frame_run:
  "dget f ''type'' = JStr ''run'' \<Longrightarrow> text_at f ''runId'' \<Longrightarrow> text_at f ''agentName'' \<Longrightarrow> object_at f ''runInput'' \<Longrightarrow>
   wire_frame f"
  by (simp add: wire_frame_def)

lemma link_call_frames: "envelope_call k \<Longrightarrow> \<exists>f. link_call k l = put f l \<and> wire_frame f"
proof (cases k)
  case (CallDeliver run)
  assume e: "envelope_call k"
  let ?f = "(''type'', JStr ''run'') # run"
  from e CallDeliver have run: "untyped run" "distinct (map fst run)" "text_at run ''runId''" "text_at run ''agentName''"
    "object_at run ''runInput''" by (simp_all add: run_envelope_def)
  have merged: "dict_merge [(''type'', JStr ''run'')] run = ?f"
    using run(1,2) dict_merge_append [of run "[(''type'', JStr ''run'')]"] by (auto simp: untyped_def image_iff)
  have "wire_frame ?f"
    by (rule wire_frame_run) (use run(3-5) in \<open>simp_all add: text_at_def object_at_def\<close>)
  moreover have "link_call k l = put ?f l" unfolding CallDeliver link_call_def link_call.case deliver_def merged ..
  ultimately show ?thesis by (intro exI [of _ ?f] conjI)
next
  case (CallCancel i)
  assume "envelope_call k"
  with CallCancel obtain t where i: "i = JStr t" by (cases i) simp_all
  let ?f = "[(''type'', JStr ''cancel''), (''runId'', JStr t)]"
  have "wire_frame ?f" by (simp add: wire_frame_def text_at_def)
  moreover have "link_call k l = put ?f l" by (simp add: CallCancel i link_call_def cancel_def)
  ultimately show ?thesis by (intro exI [of _ ?f] conjI)
qed

lemma speaks_call: "envelope_call k \<Longrightarrow> speaks l (link_call k l)"
  using link_call_frames [of k l] by (auto simp: queued_frame_def intro!: speaks_put)

lemma speaks_calls: "list_all envelope_call ks \<Longrightarrow> speaks l (link_calls ks l)"
  unfolding link_calls_def by (induction ks arbitrary: l) (auto intro: speaks_trans speaks_call)

lemma spoken_frames [simp]:
  "queued_frame (error_frame m)" "queued_frame (named_error_frame n m)" "queued_frame (run_error_frame r m)"
  "queued_frame (welcome_frame k a)" "queued_frame delisted_frame"
  "queued_frame [(''type'', JStr ''registered''), (''names'', JList (map JStr names))]"
  "queued_frame [(''type'', JStr ''deleted''), (''name'', JStr name)]"
  by (simp_all add: queued_frame_def wire_frame_def closing_frame_def text_at_def texts_at_def list_all_iff error_frame_def
      named_error_frame_def run_error_frame_def welcome_frame_def delisted_frame_def close_frame_def)

lemma query_frames [simp]:
  "nonempty_str q \<Longrightarrow> queued_frame (query_error q m)"
  "nonempty_str q \<Longrightarrow> queued_frame (query_result q [(''result'', JList ms)])"
  by (auto simp: queued_frame_def wire_frame_def text_at_def list_at_def query_error_def query_result_def elim: nonempty_strE)

lemma register_speaks:
  assumes "calls_enveloped F"
  shows "speaks (s_link s) (s_link (snd (on_register F d s)))"
proof (cases "parse_registration F d")
  case (Inl e)
  then show ?thesis by (simp add: on_register_def speaks_put)
next
  case (Inr regs)
  let ?l = "declare_interjections regs (s_link s)"
  obtain r ks c where call: "register_agents F (link_conn (s_link s)) (takes_interjections ?l) regs
      (dget d ''providerName'') (s_core s) = (r, ks, c)"
    using prod_cases3 by blast
  with assms have "list_all envelope_call ks" unfolding calls_enveloped_def by blast
  then have "speaks (s_link s) (link_calls ks ?l)" using speaks_calls [of ks ?l] by simp
  with Inr call show ?thesis
    by (auto simp: on_register_def Let_def link_simps put_names speaks_more split: sum.split)
qed

lemma delete_speaks:
  assumes "calls_enveloped F"
  shows "speaks (s_link s) (s_link (snd (on_delete_agent F d s)))"
proof (cases "nonempty_str (dget d ''name'')")
  case False
  then have "on_delete_agent F d s = (None, say (error_frame ''deleteAgent needs a name'') s)"
    by (cases "dget d ''name''") (simp_all add: on_delete_agent_def)
  then show ?thesis by (simp add: speaks_put)
next
  case True
  then obtain n where n: "dget d ''name'' = JStr n" "n \<noteq> []" by (rule nonempty_strE)
  obtain r ks c where call: "delete_agent F (link_conn (s_link s)) n (s_core s) = (r, ks, c)"
    using prod_cases3 by blast
  with assms have "list_all envelope_call ks" unfolding calls_enveloped_def by blast
  then have "speaks (s_link s) (link_calls ks (s_link s))" by (rule speaks_calls)
  with n call show ?thesis
    by (auto simp: on_delete_agent_def Let_def put_names speaks_more split: sum.split)
qed

lemma frame_speaks: "calls_enveloped F \<Longrightarrow> speaks (s_link s) (s_link (snd (on_frame F d s)))"
  using register_speaks [of F s d] delete_speaks [of F s d]
  by (auto simp: on_frame_def Let_def on_ack_def on_event_def on_finish_def on_query_def speaks_put
      split: sum.split prod.split)

lemma message_speaks: "calls_enveloped F \<Longrightarrow> on_message F m s = (x, s') \<Longrightarrow> speaks (s_link s) (s_link s')"
  using frame_speaks [of F s] by (auto simp: on_message_def speaks_put split: sum.splits option.splits) (metis snd_conv)

lemma answer_query_frames: "fst (answer_query F k d c) = Inr fs \<Longrightarrow> list_all queued_frame fs"
  by (auto simp: answer_query_def answer_thread_messages_def Let_def io_simps
      split: prod.splits sum.splits if_splits json.splits option.splits)

lemma fold_says: "list_all queued_frame fs \<Longrightarrow> speaks (s_link s) (s_link (fold say fs s))"
proof (induction fs arbitrary: s)
  case (Cons f fs)
  then have "speaks (s_link s) (s_link (say f s))" "speaks (s_link (say f s)) (s_link (fold say fs (say f s)))"
    by (simp_all add: speaks_put del: said_links) (simp add: speaks_put)
  then show ?case using speaks_trans by fastforce
qed simp

lemma query_speaks: "speaks (s_link s) (s_link (run_query F i s))"
proof -
  let ?q = "answer_query F (conn_key (link_conn (s_link s))) (s_tasks s ! i) (s_core s)"
  show ?thesis
  proof (cases "fst ?q")
    case (Inl e)
    then show ?thesis by (auto simp: run_query_def Let_def split: prod.split)
  next
    case (Inr fs)
    then obtain c where q: "?q = (Inr fs, c)" by (metis prod.collapse)
    let ?t = "s\<lparr>s_tasks := take i (s_tasks s) @ drop (Suc i) (s_tasks s), s_core := c\<rparr>"
    have "run_query F i s = fold say fs ?t" using q by (simp add: run_query_def Let_def)
    with fold_says [OF answer_query_frames [OF Inr], of ?t] show ?thesis by simp
  qed
qed

lemma watch_speaks: "speaks (s_link s) (s_link (watch F s))"
  by (auto simp: watch_def Let_def speaks_put split: prod.split sum.split)

section \<open>What is on the wire\<close>

definition vocabulary_inv :: "'c session \<Rightarrow> bool" where
  "vocabulary_inv s \<longleftrightarrow> list_all queued_frame (said s) \<and> list_all wire_frame (s_wire s) \<and>
     (s_phase s = Opened \<longrightarrow> s_close s = None)"

lemma vocabulary_speaks:
  assumes "vocabulary_inv s" and "speaks (s_link s) (s_link t)" and "s_wire t = s_wire s" and "s_close t = s_close s"
    and "s_phase t = s_phase s"
  shows "vocabulary_inv t"
  using assms by (auto simp: vocabulary_inv_def speaks_def said_def)

lemma vocabulary_teardown: "vocabulary_inv s \<Longrightarrow> vocabulary_inv (teardown F s)"
  by (simp add: vocabulary_inv_def) (simp add: teardown_def Let_def)

lemma vocabulary_write: "vocabulary_inv s \<Longrightarrow> s_phase s = Opened \<Longrightarrow> vocabulary_inv (write_one s)"
  by (auto simp: vocabulary_inv_def write_one_def Let_def said_def queued_frame_def closing_frame_def split: list.splits)

lemma vocabulary_step:
  assumes "calls_enveloped F" and "vocabulary_inv s" and "enveloped_step F W s t"
  shows "vocabulary_inv t"
proof -
  from assms(3) have step: "provider_step F W s t"
    and handed: "\<And>k. t = s\<lparr>s_link := link_call k (s_link s)\<rparr> \<Longrightarrow> envelope_call k"
    by (auto simp: enveloped_step_def)
  have grown: "vocabulary_inv u" if "grows s u" "speaks (s_link s) (s_link u)" for u
    using that assms(2) by (auto intro: vocabulary_speaks simp: grows_def)
  from step show ?thesis
  proof cases
    case (reads m)
    then show ?thesis using grown on_message_grows message_speaks [OF assms(1)] by blast
  next
    case (raises m e s')
    then show ?thesis using grown on_message_grows message_speaks [OF assms(1)] vocabulary_teardown by blast
  next
    case leaves
    with assms(2) show ?thesis by (simp add: vocabulary_teardown)
  next
    case (offers run)
    then have t: "t = s\<lparr>s_link := link_call (CallDeliver run) (s_link s)\<rparr>" by (simp add: link_call_def)
    from speaks_call [OF handed [OF t]] have "speaks (s_link s) (s_link t)" unfolding t by simp
    with assms(2) show ?thesis by (rule vocabulary_speaks) (simp_all add: t)
  next
    case (cancels run_id)
    then have t: "t = s\<lparr>s_link := link_call (CallCancel run_id) (s_link s)\<rparr>" by (simp add: link_call_def)
    from speaks_call [OF handed [OF t]] have "speaks (s_link s) (s_link t)" unfolding t by simp
    with assms(2) show ?thesis by (rule vocabulary_speaks) (simp_all add: t)
  next
    case (queries i)
    then show ?thesis using grown grows_run_query query_speaks by blast
  next
    case watches
    then show ?thesis using grown grows_watch watch_speaks by blast
  next
    case writes
    with assms(2) show ?thesis by (simp add: vocabulary_write)
  next
    case send_fails
    with assms(2) show ?thesis by (simp add: vocabulary_inv_def)
  next
    case (world c')
    with assms(2) show ?thesis by (auto intro: vocabulary_speaks)
  qed
qed

lemma vocabulary_init: "provider_init F cid s \<Longrightarrow> vocabulary_inv s"
  unfolding provider_init_def by (auto elim!: provider_open_Open simp: vocabulary_inv_def said_def)

interpretation vocab: machine_invariant
  "provider_init F cid" "enveloped_step F W" "\<lambda>s. calls_enveloped F \<longrightarrow> vocabulary_inv s"
  for F :: "('c, 'z) core_scheme" and cid W
  by unfold_locales (auto intro: vocabulary_init vocabulary_step)

end
