(* ===== verification/Agent_Client.thy ===== *)
theory Agent_Client
  imports Funduq_Core Handshake
begin

text \<open>
  \<open>souk-agent-sdk/souk_agent_sdk/client.py\<close>: the provider's end of \<open>/ws/provider\<close>. The ticket and the
  welcome it checks, the frames it sends, the answer it gives to an offered run, and the questions
  it asks on the socket with the waiters that hold their answers.
\<close>

section \<open>Whom it talks to\<close>

text \<open>What the client uses of the contract packages and of the far side of its HTTP calls.\<close>

record client_env =
  sign_connect :: "string \<Rightarrow> string \<Rightarrow> string \<Rightarrow> string"
  connect_answer_ok :: "string \<Rightarrow> string \<Rightarrow> string \<Rightarrow> string \<Rightarrow> bool"
  validate_run :: "obj \<Rightarrow> string + obj"
  own_key :: string
  own_max :: json
  http_url :: string

definition identity_mismatch :: "string \<Rightarrow> exn" where
  "identity_mismatch m = Exn (OtherExc ''SoukIdentityMismatch'') m"

text \<open>The keys in the messages are cut to their first sixteen characters.\<close>

definition ellipsis :: string where
  "ellipsis = [CHR 0xE2, CHR 0x80, CHR 0xA6]"

definition no_key_text :: "client_env \<Rightarrow> string" where
  "no_key_text E =
     http_url E @ ''/tickets presented no funduqPublicKey '' @ em_dash @
     '' souk's identity key is required, so this is not a working souk''"

definition no_possession :: "client_env \<Rightarrow> string \<Rightarrow> obj \<Rightarrow> exn" where
  "no_possession E funduq_key welcome =
     identity_mismatch (http_url E @ '' answered the handshake but did not prove possession of '' @
       take 16 funduq_key @ ellipsis @ '' (it presented '' @
       take 16 (py_str (dget welcome ''funduqPublicKey'')) @ ellipsis @ '')'')"

text \<open>\<open>_fetch_ticket\<close>, from the parsed answer of \<open>POST /tickets\<close> on.\<close>

definition read_ticket :: "client_env \<Rightarrow> string option \<Rightarrow> obj \<Rightarrow> exn + string \<times> string" where
  "read_ticket E pinned data =
     (case dget data ''ticket'' of
        JStr ticket \<Rightarrow>
          if ticket = []
          then Inl (Exn RuntimeError (http_url E @ ''/tickets answered without a ticket: '' @ py_repr (JObj data)))
          else (case dget data ''funduqPublicKey'' of
                  JStr key \<Rightarrow>
                    if key = []
                    then Inl (Exn RuntimeError (no_key_text E))
                    else (case pinned of
                            None \<Rightarrow> Inr (ticket, key)
                          | Some p \<Rightarrow> if key \<noteq> p then Inl (identity_mismatch (http_url E @ '' is souk '' @ take 16 key @ ellipsis @
                                             '', not the '' @ take 16 p @ ellipsis @ '' this provider was told to trust''))
                                      else Inr (ticket, key))
                | _ \<Rightarrow> Inl (Exn RuntimeError (no_key_text E)))
      | _ \<Rightarrow> Inl (Exn RuntimeError (http_url E @ ''/tickets answered without a ticket: '' @ py_repr (JObj data))))"

definition HANDSHAKE_VERSION :: int where
  "HANDSHAKE_VERSION = 4"

definition hello_frame :: "client_env \<Rightarrow> string \<Rightarrow> string \<Rightarrow> string \<Rightarrow> obj" where
  "hello_frame E ticket funduq_key nonce =
     [(''type'', JStr ''hello''), (''version'', JInt HANDSHAKE_VERSION), (''publicKey'', JStr (own_key E)),
      (''ticket'', JStr ticket), (''nonce'', JStr nonce), (''maxConcurrentRuns'', own_max E),
      (''proof'', JStr (sign_connect E funduq_key ticket nonce))]"

text \<open>The second half of \<open>_handshake\<close>: \<open>None\<close> when the link may be treated as open.\<close>

definition check_welcome :: "client_env \<Rightarrow> string \<Rightarrow> string \<Rightarrow> string \<Rightarrow> obj \<Rightarrow> exn option" where
  "check_welcome E ticket funduq_key nonce welcome =
     (if dget welcome ''type'' \<noteq> JStr ''welcome''
      then Some (Exn RuntimeError (''expected welcome, got '' @ py_repr (JObj welcome)))
      else (case dget welcome ''answer'' of
              JStr answer \<Rightarrow>
                if connect_answer_ok E funduq_key answer ticket nonce then None
                else Some (no_possession E funduq_key welcome)
            | _ \<Rightarrow> Some (no_possession E funduq_key welcome)))"

text \<open>\<open>_register\<close>: the frame, from each agent's dumped registration, and the check of its answer.\<close>

definition register_frame :: "json option \<Rightarrow> obj list \<Rightarrow> obj" where
  "register_frame provider_name registrations =
     (let frame = [(''type'', JStr ''register''), (''agents'', JList (map JObj registrations))] in
      case provider_name of None \<Rightarrow> frame | Some n \<Rightarrow> frame @ [(''providerName'', n)])"

definition check_registered :: "obj \<Rightarrow> exn option" where
  "check_registered answer =
     (if dget answer ''type'' = JStr ''error''
      then Some (Exn RuntimeError (''souk refused this registration: '' @ py_repr (dget answer ''message'')))
      else if dget answer ''type'' \<noteq> JStr ''registered''
        then Some (Exn RuntimeError (''expected registered, got '' @ py_repr (JObj answer)))
      else None)"

section \<open>The client's state\<close>

text \<open>
  A waiter is the future of one question: still open, or done with the messages or with the
  failure its asker is given.
\<close>

datatype wait_state = Waits | GotMessages json | QueryFailed string

record waiter =
  w_query :: string
  w_thread :: string
  w_state :: wait_state

record 'r client =
  cl_agents :: "string set"
  cl_outbound :: "obj list"
  cl_pending :: "string \<rightharpoonup> nat"
  cl_waiters :: "waiter list"
  cl_runtime :: 'r

definition send_frame :: "obj \<Rightarrow> 'r client \<Rightarrow> 'r client" where
  "send_frame frame s = s\<lparr>cl_outbound := cl_outbound s @ [frame]\<rparr>"

text \<open>\<open>dump_event\<close>: a model is dumped, its nulls dropped, and anything else goes as it is.\<close>

definition dump_event :: "('m \<Rightarrow> json) \<Rightarrow> 'm + json \<Rightarrow> json" where
  "dump_event model_dump event = (case event of Inl model \<Rightarrow> model_dump model | Inr plain \<Rightarrow> plain)"

definition report_event_frame :: "string \<Rightarrow> json \<Rightarrow> obj" where
  "report_event_frame run_id event =
     [(''type'', JStr ''event''), (''runId'', JStr run_id), (''event'', event)]"

definition finish_run_frame :: "string \<Rightarrow> obj" where
  "finish_run_frame run_id = [(''type'', JStr ''finish''), (''runId'', JStr run_id)]"

definition send_event :: "('m \<Rightarrow> json) \<Rightarrow> string \<Rightarrow> 'm + json \<Rightarrow> 'r client \<Rightarrow> 'r client" where
  "send_event model_dump run_id event s =
     send_frame (report_event_frame run_id (dump_event model_dump event)) s"

definition send_finish :: "string \<Rightarrow> 'r client \<Rightarrow> 'r client" where
  "send_finish run_id s = send_frame (finish_run_frame run_id) s"

section \<open>Offers\<close>

datatype runtime_answer = Takes | Full | Refuses string

text \<open>The runtime's \<open>deliver\<close> is another package's: an argument.\<close>

type_synonym 'r runtime = "obj \<Rightarrow> ('r, exn, runtime_answer) call"

definition ack_frame :: "json \<Rightarrow> bool \<Rightarrow> obj" where
  "ack_frame run_id accepted =
     [(''type'', JStr ''ack''), (''runId'', run_id), (''accepted'', JBool accepted)]"

definition refusal_frame :: "json \<Rightarrow> string \<Rightarrow> obj" where
  "refusal_frame run_id reason = ack_frame run_id False @ [(''reason'', JStr reason)]"

definition run_payload :: "obj \<Rightarrow> obj" where
  "run_payload frame = filter (\<lambda>(k, v). k \<noteq> ''type'') frame"

definition answer_frame :: "json \<Rightarrow> runtime_answer \<Rightarrow> obj" where
  "answer_frame run_id a =
     (case a of Takes \<Rightarrow> ack_frame run_id True | Full \<Rightarrow> ack_frame run_id False
              | Refuses reason \<Rightarrow> refusal_frame run_id reason)"

definition offer :: "client_env \<Rightarrow> 'r runtime \<Rightarrow> obj \<Rightarrow> 'r client \<Rightarrow> exn option \<times> 'r client" where
  "offer E deliver_run frame s =
     (let run_id = dget_or frame ''runId'' (JStr []);
          agent_name = dget_or frame ''agentName'' (JStr []) in
      if \<not> hashable agent_name then (Some (Exn TypeError ''unhashable type''), s)
      else if agent_name \<notin> JStr ` cl_agents s then (None, send_frame (ack_frame run_id False) s)
      else (case validate_run E (run_payload frame) of
              Inl e \<Rightarrow>
                (None, send_frame (refusal_frame run_id
                         (''frame does not validate as a DeliveredRun: '' @ e)) s)
            | Inr delivered \<Rightarrow>
                (case deliver_run delivered (cl_runtime s) of
                   (Inl e, r') \<Rightarrow> (Some e, s\<lparr>cl_runtime := r'\<rparr>)
                 | (Inr a, r') \<Rightarrow> (None, send_frame (answer_frame run_id a) (s\<lparr>cl_runtime := r'\<rparr>)))))"

section \<open>Questions\<close>

definition query_frame :: "string \<Rightarrow> string \<Rightarrow> json \<Rightarrow> obj" where
  "query_frame query_id thread_id limit =
     [(''type'', JStr ''query''), (''queryId'', JStr query_id), (''method'', JStr ''thread_messages''),
      (''params'', JObj [(''threadId'', JStr thread_id), (''limit'', limit)])]"

text \<open>\<open>thread_messages\<close> up to its await: the id is the random one it minted.\<close>

definition ask_messages :: "string \<Rightarrow> string \<Rightarrow> json \<Rightarrow> 'r client \<Rightarrow> 'r client" where
  "ask_messages query_id thread_id limit s =
     send_frame (query_frame query_id thread_id limit)
       (s\<lparr>cl_pending := (cl_pending s)(query_id \<mapsto> length (cl_waiters s)),
          cl_waiters := cl_waiters s @ [\<lparr>w_query = query_id, w_thread = thread_id, w_state = Waits\<rparr>]\<rparr>)"

definition settle :: "nat \<Rightarrow> wait_state \<Rightarrow> 'r client \<Rightarrow> 'r client" where
  "settle i how s = s\<lparr>cl_waiters := (cl_waiters s)[i := (cl_waiters s ! i)\<lparr>w_state := how\<rparr>]\<rparr>"

definition forget :: "string \<Rightarrow> 'r client \<Rightarrow> 'r client" where
  "forget query_id s = s\<lparr>cl_pending := (cl_pending s)(query_id := None)\<rparr>"

definition answer_state :: "obj \<Rightarrow> wait_state" where
  "answer_state frame =
     (if dget frame ''error'' \<noteq> JNull then QueryFailed (py_str (dget frame ''error''))
      else GotMessages (py_or (dget frame ''result'') (JList [])))"

definition resolve_query :: "obj \<Rightarrow> 'r client \<Rightarrow> 'r client" where
  "resolve_query frame s =
     (case dget frame ''queryId'' of
        JStr q \<Rightarrow>
          (case cl_pending s q of
             None \<Rightarrow> s
           | Some i \<Rightarrow> if w_state (cl_waiters s ! i) \<noteq> Waits then s else settle i (answer_state frame) s)
      | _ \<Rightarrow> s)"

definition fail_waiter :: "(string \<rightharpoonup> nat) \<Rightarrow> string \<Rightarrow> nat \<times> waiter \<Rightarrow> waiter" where
  "fail_waiter pending reason = (\<lambda>(i, w).
     if i \<in> ran pending \<and> w_state w = Waits then w\<lparr>w_state := QueryFailed reason\<rparr> else w)"

definition fail_pending_queries :: "string \<Rightarrow> 'r client \<Rightarrow> 'r client" where
  "fail_pending_queries reason s =
     s\<lparr>cl_waiters := map (fail_waiter (cl_pending s) reason) (enumerate 0 (cl_waiters s)),
       cl_pending := Map.empty\<rparr>"

text \<open>The asker resumed: with its answer, or by the timeout. Either way its id is taken out.\<close>

definition timeout_text :: "string \<Rightarrow> string" where
  "timeout_text thread_id = ''souk did not answer thread_messages('' @ thread_id @ '') in 30s''"

definition query_timeout :: "nat \<Rightarrow> 'r client \<Rightarrow> 'r client" where
  "query_timeout i s =
     forget (w_query (cl_waiters s ! i))
       (settle i (QueryFailed (timeout_text (w_thread (cl_waiters s ! i)))) s)"

definition asker_resumes :: "nat \<Rightarrow> 'r client \<Rightarrow> 'r client" where
  "asker_resumes i s = forget (w_query (cl_waiters s ! i)) s"

section \<open>The frame loop\<close>

definition on_client_frame ::
  "client_env \<Rightarrow> 'r runtime \<Rightarrow> (json \<Rightarrow> 'r \<Rightarrow> 'r) \<Rightarrow> obj \<Rightarrow> 'r client \<Rightarrow> exn option \<times> 'r client" where
  "on_client_frame E deliver_run cancel_run frame s =
     (let kind = dget frame ''type'' in
      if kind = JStr ''run'' then offer E deliver_run frame s
      else if kind = JStr ''queryResult''
        then (if hashable (dget frame ''queryId'') then (None, resolve_query frame s)
              else (Some (Exn TypeError ''unhashable type''), s))
      else if kind = JStr ''cancel''
        then (None, s\<lparr>cl_runtime := cancel_run (dget frame ''runId'') (cl_runtime s)\<rparr>)
      else (None, s))"

text \<open>The \<open>finally\<close> block of a connection.\<close>

definition connection_closed :: "'r client \<Rightarrow> 'r client" where
  "connection_closed s = fail_pending_queries ''souk connection closed'' s"

text \<open>
  Everything that happens to a client: asking with a fresh id, a frame, the end of a connection, a
  timeout, an asker taking its answer, and the runtime's reports of events, already dumped, and ends.
\<close>

inductive client_step ::
  "client_env \<Rightarrow> 'r runtime \<Rightarrow> (json \<Rightarrow> 'r \<Rightarrow> 'r) \<Rightarrow> 'r client \<Rightarrow> 'r client \<Rightarrow> bool"
  for E deliver_run cancel_run where
  c_asks: "q \<notin> w_query ` set (cl_waiters s) \<Longrightarrow>
    client_step E deliver_run cancel_run s (ask_messages q t limit s)"
| c_frame: "on_client_frame E deliver_run cancel_run frame s = (x, s') \<Longrightarrow>
    client_step E deliver_run cancel_run s s'"
| c_closed: "client_step E deliver_run cancel_run s (connection_closed s)"
| c_timeout: "i < length (cl_waiters s) \<Longrightarrow> w_state (cl_waiters s ! i) = Waits \<Longrightarrow>
    client_step E deliver_run cancel_run s (query_timeout i s)"
| c_resumes: "i < length (cl_waiters s) \<Longrightarrow> w_state (cl_waiters s ! i) \<noteq> Waits \<Longrightarrow>
    client_step E deliver_run cancel_run s (asker_resumes i s)"
| c_reports: "client_step E deliver_run cancel_run s (send_event (\<lambda>m. m) run_id (Inr event) s)"
| c_finishes: "client_step E deliver_run cancel_run s (send_finish run_id s)"

section \<open>The waiters' invariant\<close>

definition waiters_inv :: "'r client \<Rightarrow> bool" where
  "waiters_inv s \<longleftrightarrow>
     distinct (map w_query (cl_waiters s)) \<and>
     (\<forall>q i. cl_pending s q = Some i \<longrightarrow> i < length (cl_waiters s) \<and> w_query (cl_waiters s ! i) = q) \<and>
     (\<forall>i < length (cl_waiters s). w_state (cl_waiters s ! i) = Waits \<longrightarrow>
        cl_pending s (w_query (cl_waiters s ! i)) = Some i)"

lemma waiters_inv_send [simp]: "waiters_inv (send_frame f s) \<longleftrightarrow> waiters_inv s"
  by (simp add: waiters_inv_def send_frame_def)

lemma waiters_inv_runtime [simp]: "waiters_inv (s\<lparr>cl_runtime := r\<rparr>) \<longleftrightarrow> waiters_inv s"
  by (simp add: waiters_inv_def)

lemma distinct_queries:
  "distinct (map w_query ws) \<Longrightarrow> i < length ws \<Longrightarrow> j < length ws \<Longrightarrow> w_query (ws ! i) = w_query (ws ! j) \<Longrightarrow> i = j"
  using nth_eq_iff_index_eq [of "map w_query ws" i j] by simp

lemma map_query_settle: "map w_query (cl_waiters (settle i how s)) = map w_query (cl_waiters s)"
  by (simp add: settle_def map_update) (metis list_update_id list_update_beyond map_update not_le nth_map length_map)

lemma settle_nth:
  "j < length (cl_waiters s) \<Longrightarrow> cl_waiters (settle i how s) ! j =
     (if j = i then (cl_waiters s ! i)\<lparr>w_state := how\<rparr> else cl_waiters s ! j)"
  by (simp add: settle_def nth_list_update)

lemma settle_simps [simp]:
  "length (cl_waiters (settle i how s)) = length (cl_waiters s)" "cl_pending (settle i how s) = cl_pending s"
  by (simp_all add: settle_def)

lemma waiters_inv_ask:
  "waiters_inv s \<Longrightarrow> q \<notin> w_query ` set (cl_waiters s) \<Longrightarrow> waiters_inv (ask_messages q t limit s)"
  unfolding ask_messages_def waiters_inv_send
  by (auto simp: waiters_inv_def nth_append less_Suc_eq)

lemma waiters_inv_settle: "waiters_inv s \<Longrightarrow> how \<noteq> Waits \<Longrightarrow> waiters_inv (settle i how s)"
  unfolding waiters_inv_def map_query_settle by (auto simp: settle_nth)

lemma waiters_inv_forget:
  assumes "waiters_inv s" and "i < length (cl_waiters s)" and "w_state (cl_waiters s ! i) \<noteq> Waits"
  shows "waiters_inv (forget (w_query (cl_waiters s ! i)) s)"
  using assms distinct_queries [of "cl_waiters s" _ i]
  by (auto simp: waiters_inv_def forget_def)

lemma waiters_inv_resolve: "waiters_inv s \<Longrightarrow> waiters_inv (resolve_query f s)"
  by (auto simp: resolve_query_def answer_state_def intro!: waiters_inv_settle
      split: json.splits option.splits)

lemma waiters_inv_timeout:
  assumes "waiters_inv s" and "i < length (cl_waiters s)"
  shows "waiters_inv (query_timeout i s)"
proof -
  let ?t = "settle i (QueryFailed (timeout_text (w_thread (cl_waiters s ! i)))) s"
  have "waiters_inv ?t" using assms by (simp add: waiters_inv_settle)
  moreover have "w_query (cl_waiters ?t ! i) = w_query (cl_waiters s ! i)"
    and "w_state (cl_waiters ?t ! i) \<noteq> Waits"
    using assms(2) by (simp_all add: settle_nth)
  ultimately show ?thesis
    using waiters_inv_forget [of ?t i] assms(2) by (simp add: query_timeout_def)
qed

lemma failed_waiter_nth:
  "i < length (cl_waiters s) \<Longrightarrow> cl_waiters (fail_pending_queries r s) ! i =
     (if i \<in> ran (cl_pending s) \<and> w_state (cl_waiters s ! i) = Waits
      then (cl_waiters s ! i)\<lparr>w_state := QueryFailed r\<rparr> else cl_waiters s ! i)"
  by (simp add: fail_pending_queries_def fail_waiter_def nth_enumerate_eq)

lemma fail_pending_simps [simp]:
  "length (cl_waiters (fail_pending_queries r s)) = length (cl_waiters s)"
  "cl_pending (fail_pending_queries r s) = Map.empty"
  by (simp_all add: fail_pending_queries_def)

lemma fail_pending_none_waits:
  assumes "waiters_inv s" and "i < length (cl_waiters s)"
  shows "w_state (cl_waiters (fail_pending_queries r s) ! i) \<noteq> Waits"
  using assms by (auto simp: failed_waiter_nth waiters_inv_def ran_def)

lemma waiters_inv_fail: "waiters_inv s \<Longrightarrow> waiters_inv (fail_pending_queries r s)"
proof -
  assume inv: "waiters_inv s"
  have "map w_query (cl_waiters (fail_pending_queries r s)) = map w_query (cl_waiters s)"
    by (rule nth_equalityI) (simp_all add: failed_waiter_nth)
  with inv fail_pending_none_waits [OF inv] show ?thesis by (simp add: waiters_inv_def)
qed

lemma offer_waiters:
  "offer E d f s = (x, s') \<Longrightarrow>
   cl_waiters s' = cl_waiters s \<and> cl_pending s' = cl_pending s \<and> (waiters_inv s \<longrightarrow> waiters_inv s')"
  by (auto simp: offer_def Let_def send_frame_def waiters_inv_def split: if_splits sum.splits prod.splits)

lemma waiters_inv_step: "waiters_inv s \<Longrightarrow> client_step E d c s t \<Longrightarrow> waiters_inv t"
  by (erule client_step.cases)
     (auto simp: waiters_inv_ask send_event_def send_finish_def connection_closed_def waiters_inv_fail waiters_inv_timeout
        asker_resumes_def waiters_inv_forget on_client_frame_def Let_def waiters_inv_resolve
        split: if_splits dest: offer_waiters)

definition client_init :: "'r client \<Rightarrow> bool" where
  "client_init s \<longleftrightarrow> cl_waiters s = [] \<and> cl_pending s = Map.empty \<and> cl_outbound s = []"

lemma waiters_inv_init: "client_init s \<Longrightarrow> waiters_inv s"
  by (simp add: client_init_def waiters_inv_def)

interpretation wv: machine_invariant client_init "client_step E d c" waiters_inv
  for E :: client_env and d :: "'r runtime" and c
  by unfold_locales (fact waiters_inv_init, fact waiters_inv_step)

text \<open>A settled waiter is never settled again.\<close>

definition keeps_settled :: "'r client \<Rightarrow> 'r client \<Rightarrow> bool" where
  "keeps_settled s t \<longleftrightarrow> length (cl_waiters s) \<le> length (cl_waiters t) \<and>
     (\<forall>i < length (cl_waiters s). w_state (cl_waiters s ! i) \<noteq> Waits \<longrightarrow> cl_waiters t ! i = cl_waiters s ! i)"

lemma keeps_settled_refl [simp]: "keeps_settled s s"
  by (simp add: keeps_settled_def)

lemma keeps_settled_trans: "keeps_settled s t \<Longrightarrow> keeps_settled t u \<Longrightarrow> keeps_settled s u"
  unfolding keeps_settled_def by (metis le_trans order_less_le_trans)

lemma keeps_settled_same: "cl_waiters t = cl_waiters s \<Longrightarrow> keeps_settled s t"
  by (simp add: keeps_settled_def)

lemma keeps_settled_settle: "w_state (cl_waiters s ! i) = Waits \<Longrightarrow> keeps_settled s (settle i how s)"
  by (simp add: keeps_settled_def settle_nth)

lemma keeps_settled_step: "client_step E d c s t \<Longrightarrow> keeps_settled s t"
proof (erule client_step.cases)
  fix sa q th limit
  assume "s = sa" and "t = ask_messages q th limit sa"
  then show ?thesis by (simp add: keeps_settled_def ask_messages_def send_frame_def nth_append)
next
  fix frame sa x s'
  assume "s = sa" and "t = s'" and "on_client_frame E d c frame sa = (x, s')"
  then show ?thesis
    by (auto simp: on_client_frame_def Let_def resolve_query_def intro: keeps_settled_settle keeps_settled_same
        split: if_splits json.splits option.splits dest: offer_waiters)
next
  fix sa
  assume "s = sa" and "t = connection_closed sa"
  then show ?thesis by (simp add: connection_closed_def keeps_settled_def failed_waiter_nth)
next
  fix i sa
  assume "s = sa" and "t = query_timeout i sa" and "w_state (cl_waiters sa ! i) = Waits"
  then show ?thesis
    using keeps_settled_settle [of sa i] by (simp add: query_timeout_def forget_def keeps_settled_def)
next
  fix i sa
  assume "s = sa" and "t = asker_resumes i sa"
  then show ?thesis by (simp add: asker_resumes_def forget_def keeps_settled_def)
next
  fix sa run_id event
  assume "s = sa" and "t = send_event (\<lambda>m. m) run_id (Inr event) sa"
  then show ?thesis by (simp add: send_event_def send_frame_def keeps_settled_def)
next
  fix sa run_id
  assume "s = sa" and "t = send_finish run_id sa"
  then show ?thesis by (simp add: send_finish_def send_frame_def keeps_settled_def)
qed

lemma keeps_settled_steps: "(client_step E d c)\<^sup>*\<^sup>* s t \<Longrightarrow> keeps_settled s t"
  by (induction rule: rtranclp_induct) (auto intro: keeps_settled_trans keeps_settled_step)

text \<open>A frame settles no waiter but the one whose id it names, and with what it carries.\<close>

lemma frame_settles_named:
  assumes inv: "waiters_inv s" and f: "on_client_frame E d c frame s = (x, t)"
    and i: "i < length (cl_waiters s)" and ch: "cl_waiters t ! i \<noteq> cl_waiters s ! i"
  shows "dget frame ''queryId'' = JStr (w_query (cl_waiters s ! i)) \<and> w_state (cl_waiters s ! i) = Waits \<and>
    cl_waiters t ! i = (cl_waiters s ! i)\<lparr>w_state := answer_state frame\<rparr>"
proof (cases "dget frame ''type'' = JStr ''queryResult''")
  case True
  with f ch have t: "t = resolve_query frame s"
    by (auto simp: on_client_frame_def Let_def split: if_splits)
  with ch obtain q j where q: "dget frame ''queryId'' = JStr q" and j: "cl_pending s q = Some j"
    and w: "w_state (cl_waiters s ! j) = Waits" and t': "t = settle j (answer_state frame) s"
    by (auto simp: resolve_query_def split: json.splits option.splits if_splits)
  from t' ch i have "i = j" by (auto simp: settle_nth split: if_splits)
  with inv j q w t' i show ?thesis by (auto simp: waiters_inv_def settle_nth)
next
  case False
  with f have "cl_waiters t = cl_waiters s"
    by (auto simp: on_client_frame_def Let_def split: if_splits dest: offer_waiters)
  with ch show ?thesis by simp
qed

section \<open>What a question gets\<close>

text \<open>C31. A question a provider asked souk gets at most one answer and never somebody else's: a
  waiter changes by a frame only when it was still open and the frame names its own query id, and
  then it holds what that frame carries; once settled, nothing that happens later changes it; and
  the end of the connection leaves no question of that provider unanswered.\<close>

theorem questions_settled_once:
  assumes "reach client_init (client_step E d c) s"
  shows "(\<forall>frame x t i. on_client_frame E d c frame s = (x, t) \<and> i < length (cl_waiters s) \<and>
            cl_waiters t ! i \<noteq> cl_waiters s ! i \<longrightarrow>
            dget frame ''queryId'' = JStr (w_query (cl_waiters s ! i)) \<and>
            w_state (cl_waiters s ! i) = Waits \<and>
            cl_waiters t ! i = (cl_waiters s ! i)\<lparr>w_state := answer_state frame\<rparr>) \<and>
         (\<forall>t i. (client_step E d c)\<^sup>*\<^sup>* s t \<and> i < length (cl_waiters s) \<and>
            w_state (cl_waiters s ! i) \<noteq> Waits \<longrightarrow> cl_waiters t ! i = cl_waiters s ! i) \<and>
         (\<forall>w \<in> set (cl_waiters (connection_closed s)). w_state w \<noteq> Waits)"
proof -
  from assms have inv: "waiters_inv s" by (rule wv.reach_inv)
  have a: "\<forall>frame x t i. on_client_frame E d c frame s = (x, t) \<and> i < length (cl_waiters s) \<and>
      cl_waiters t ! i \<noteq> cl_waiters s ! i \<longrightarrow>
      dget frame ''queryId'' = JStr (w_query (cl_waiters s ! i)) \<and> w_state (cl_waiters s ! i) = Waits \<and>
      cl_waiters t ! i = (cl_waiters s ! i)\<lparr>w_state := answer_state frame\<rparr>"
    using frame_settles_named [OF inv] by blast
  have b: "\<forall>t i. (client_step E d c)\<^sup>*\<^sup>* s t \<and> i < length (cl_waiters s) \<and>
      w_state (cl_waiters s ! i) \<noteq> Waits \<longrightarrow> cl_waiters t ! i = cl_waiters s ! i"
    using keeps_settled_steps unfolding keeps_settled_def by blast
  have c: "\<forall>w \<in> set (cl_waiters (connection_closed s)). w_state w \<noteq> Waits"
    using fail_pending_none_waits [OF inv] by (auto simp: connection_closed_def in_set_conv_nth)
  from a b c show ?thesis by (intro conjI)
qed

definition sample_client_env :: client_env where
  "sample_client_env =
     \<lparr>sign_connect = (\<lambda>k t n. ''sig:'' @ k @ t @ n), connect_answer_ok = (\<lambda>k a t n. a = ''ans:'' @ k @ t @ n),
      validate_run = Inr, own_key = ''me'', own_max = JNull, http_url = ''https://souk''\<rparr>"

definition sample_client :: "unit client" where
  "sample_client =
     \<lparr>cl_agents = {''echo''}, cl_outbound = [], cl_pending = Map.empty, cl_waiters = [], cl_runtime = ()\<rparr>"

definition sample_runtime :: "unit runtime" where
  "sample_runtime run r = (Inr Takes, r)"

lemma sample_asked:
  "reach client_init (client_step sample_client_env sample_runtime (\<lambda>i r. r))
     (ask_messages ''q'' ''t'' JNull sample_client)"
proof (rule reach_next)
  show "reach client_init (client_step sample_client_env sample_runtime (\<lambda>i r. r)) sample_client"
    by (rule reach_start) (simp add: client_init_def sample_client_def)
  show "client_step sample_client_env sample_runtime (\<lambda>i r. r) sample_client
      (ask_messages ''q'' ''t'' JNull sample_client)"
    by (rule c_asks) (simp add: sample_client_def)
qed

theorem questions_settled_once_witness:
  "w_state (hd (cl_waiters (connection_closed (ask_messages ''q'' ''t'' JNull sample_client)))) \<noteq> Waits"
  using conjunct2 [OF conjunct2 [OF questions_settled_once [OF sample_asked]]]
  by (simp add: ask_messages_def send_frame_def sample_client_def connection_closed_def
      fail_pending_queries_def)

end
