(* ===== verification/Provider_Wire.thy ===== *)
theory Provider_Wire
  imports Provider_Vocabulary Agent_Client
begin

text \<open>
  The two ends of \<open>/ws/provider\<close> put together: the SDK's client against the gateway's socket. The
  hello against the door, an offered run and the answer core is given for it, a question and what
  its asker gets.
\<close>

section \<open>The handshake\<close>

lemma client_hello_complete:
  assumes "own_key E \<noteq> []" and "ticket \<noteq> []" and "nonce \<noteq> []" and "sign_connect E key ticket nonce \<noteq> []"
  shows "hello_complete (hello_frame E ticket key nonce)"
  using assms by (simp add: hello_complete_def hello_frame_def HANDSHAKE_VERSION_def WIRE_VERSION_def)

text \<open>C29. An honest provider and an honest souk always open the link: when core accepts the ticket
  and proof the client's own hello carries and the contract accepts its shape, the gateway opens
  the socket with exactly the client's key, and its first frame is a welcome that the client, if
  core's answer verifies under the key of the ticket, takes as the proof it demands.\<close>

theorem handshake_completes:
  assumes "json_loads F text = Inr (JObj (hello_frame E ticket funduq_key nonce))"
    and "own_key E \<noteq> []" and "ticket \<noteq> []" and "nonce \<noteq> []" and "sign_connect E funduq_key ticket nonce \<noteq> []"
    and "check_connect F (JStr (own_key E)) (JStr ticket) (JStr nonce)
           (JStr (sign_connect E funduq_key ticket nonce)) (own_max E) = None"
    and "attach_provider F \<lparr>conn_id = cid, conn_key = own_key E, conn_max = own_max E\<rparr> (JStr ticket) (JStr nonce)
           (JStr (sign_connect E funduq_key ticket nonce)) c = (Inr (JStr answer), c')"
    and "connect_answer_ok E funduq_key answer ticket nonce"
  shows "\<exists>s welcome. provider_open F cid (Some (TextMessage text)) c = Open s \<and> s_core s = c' \<and>
    conn_key (link_conn (s_link s)) = own_key E \<and> outbound (s_link s) = [welcome] \<and>
    check_welcome E ticket funduq_key nonce welcome = None"
proof -
  let ?h = "hello_frame E ticket funduq_key nonce"
  have got: "receive_hello F (Some (TextMessage text)) = Inr (GotHello ?h)"
    using assms(1) by (simp add: receive_hello_def parse_frame_def) (simp add: hello_frame_def)
  have get: "dget ?h ''publicKey'' = JStr (own_key E)" "dget ?h ''ticket'' = JStr ticket"
    "dget ?h ''nonce'' = JStr nonce" "dget ?h ''proof'' = JStr (sign_connect E funduq_key ticket nonce)"
    "dget ?h ''maxConcurrentRuns'' = own_max E"
    by (simp_all add: hello_frame_def)
  have ok: "provider_hello_error F ?h = None"
    using assms(2-6) by (simp add: provider_hello_ok client_hello_complete get)
  have "provider_open F cid (Some (TextMessage text)) c = Open
      \<lparr>s_link = put (welcome_frame (identity_public_key F) (JStr answer))
         \<lparr>link_conn = \<lparr>conn_id = cid, conn_key = own_key E, conn_max = own_max E\<rparr>, outbound = [],
          registered_names = {}, interjections = Map.empty\<rparr>,
       s_core = c', s_tasks = [], s_wire = [], s_close = None, s_watching = True, s_phase = Opened\<rparr>"
    using got ok assms(7) by (simp add: provider_open_def new_provider_ok get py_str_def)
  moreover have "check_welcome E ticket funduq_key nonce
      (welcome_frame (identity_public_key F) (JStr answer)) = None"
    using assms(8) by (simp add: check_welcome_def welcome_frame_def)
  ultimately show ?thesis by (simp add: put_def)
qed

text \<open>A client whose hello is the one the sample core's decoder knows.\<close>

definition wire_env :: client_env where
  "wire_env =
     \<lparr>sign_connect = (\<lambda>k t n. ''proof1''), connect_answer_ok = (\<lambda>k a t n. k = ''funduq1'' \<and> a = ''answer1''),
      validate_run = (\<lambda>d. if nonempty_str (dget d ''runId'') then Inr d else Inl ''runId''),
      own_key = ''key1'', own_max = JNull, http_url = ''https://souk''\<rparr>"

definition wire_core :: "sample core" where
  "wire_core = sample_core [(''hello'', JObj (hello_frame wire_env ''ticket1'' ''funduq1'' ''n''))]"

theorem handshake_completes_witness:
  "\<exists>s welcome. provider_open wire_core 1 (Some (TextMessage ''hello'')) sample_state = Open s \<and>
    s_core s = sample_state \<and> conn_key (link_conn (s_link s)) = own_key wire_env \<and>
    outbound (s_link s) = [welcome] \<and> check_welcome wire_env ''ticket1'' ''funduq1'' ''n'' welcome = None"
  by (rule handshake_completes [where answer = "''answer1''"])
     (simp_all add: wire_core_def wire_env_def sample_core_def sample_attach_def)

section \<open>Offers\<close>

definition hosted :: "'r client \<Rightarrow> obj \<Rightarrow> bool" where
  "hosted s dump \<longleftrightarrow> dget_or dump ''agentName'' (JStr []) \<in> JStr ` cl_agents s"

text \<open>
  What a run handed to a client is to become for core: declined unless the client hosts the agent,
  refused for good if it does not validate, and otherwise what the runtime answers.
\<close>

definition meant :: "runtime_answer \<Rightarrow> offer_answer" where
  "meant a = (case a of Takes \<Rightarrow> Accepted | Full \<Rightarrow> Declined | Refuses reason \<Rightarrow> RefusedBecause reason)"

definition offer_meaning :: "client_env \<Rightarrow> 'r runtime \<Rightarrow> obj \<Rightarrow> 'r client \<Rightarrow> offer_answer" where
  "offer_meaning E deliver_run dump s =
     (if \<not> hosted s dump then Declined
      else (case validate_run E dump of
              Inl e \<Rightarrow> RefusedBecause (''frame does not validate as a DeliveredRun: '' @ e)
            | Inr d \<Rightarrow> (case fst (deliver_run d (cl_runtime s)) of Inl e \<Rightarrow> Declined | Inr a \<Rightarrow> meant a)))"

text \<open>
  What an ack can say of an answer: it tells a refusal from a decline by its reason alone, so that a
  refusal without words arrives as a decline.
\<close>

definition as_heard :: "offer_answer \<Rightarrow> offer_answer" where
  "as_heard a = (if a = RefusedBecause [] then Declined else a)"

lemma as_heard_simps [simp]:
  "as_heard Accepted = Accepted" "as_heard Declined = Declined"
  "as_heard (RefusedBecause r) = (if r = [] then Declined else RefusedBecause r)"
  by (simp_all add: as_heard_def)

lemma run_payload_deliver:
  assumes "untyped dump" and "distinct (map fst dump)"
  shows "dict_merge [(''type'', JStr ''run'')] dump = (''type'', JStr ''run'') # dump"
    and "run_payload ((''type'', JStr ''run'') # dump) = dump"
  using assms dict_merge_append [of dump "[(''type'', JStr ''run'')]"]
  by (auto simp: untyped_def run_payload_def filter_id_conv image_iff)

lemma ack_frame_read:
  assumes "\<forall>w r. validate_verdict K i w r = None"
  shows "\<exists>v. parse_verdict K (ack_frame i b) = Inr v \<and> verdict_answer v = (if b then Accepted else Declined)"
  using assms by (simp add: parse_verdict_def ack_frame_def reason_of_def verdict_answer_def)

lemma refusal_frame_read:
  assumes "\<forall>w r. validate_verdict K i w r = None"
  shows "\<exists>v. parse_verdict K (refusal_frame i reason) = Inr v \<and>
    verdict_answer v = (if reason = [] then Declined else RefusedBecause reason)"
  using assms
  by (simp add: parse_verdict_def refusal_frame_def ack_frame_def reason_of_def verdict_answer_def)

lemma answer_frame_read:
  assumes "\<forall>w r. validate_verdict K i w r = None"
  shows "\<exists>v. parse_verdict K (answer_frame i a) = Inr v \<and> verdict_answer v = as_heard (meant a)"
  using ack_frame_read [OF assms, of True] ack_frame_read [OF assms, of False]
    refusal_frame_read [OF assms]
  by (cases a) (simp_all add: answer_frame_def meant_def)

lemma ack_types [simp]:
  "dget (ack_frame i b) ''type'' = JStr ''ack''" "dget (ack_frame i b) ''runId'' = i"
  "dget (refusal_frame i r) ''type'' = JStr ''ack''" "dget (refusal_frame i r) ''runId'' = i"
  by (simp_all add: ack_frame_def refusal_frame_def)

lemma answer_types [simp]:
  "dget (answer_frame i a) ''type'' = JStr ''ack''" "dget (answer_frame i a) ''runId'' = i"
  by (cases a; simp add: answer_frame_def)+

lemma payload_get: "k \<noteq> ''type'' \<Longrightarrow> dget_or (run_payload frame) k v = dget_or frame k v"
proof (induction frame)
  case Nil
  then show ?case by (simp add: run_payload_def)
next
  case (Cons p frame)
  then show ?case by (cases p) (auto simp: run_payload_def)
qed

text \<open>A run frame whose handling does not raise is answered by one ack, read back as meant.\<close>

lemma offer_reads:
  assumes "offer E deliver_run frame s = (None, t)"
    and "\<forall>w r. validate_verdict K (dget_or frame ''runId'' (JStr [])) w r = None"
  shows "\<exists>f v. cl_outbound t = cl_outbound s @ [f] \<and> dget f ''type'' = JStr ''ack'' \<and>
    dget f ''runId'' = dget_or frame ''runId'' (JStr []) \<and> parse_verdict K f = Inr v \<and>
    verdict_answer v = as_heard (offer_meaning E deliver_run (run_payload frame) s)"
proof -
  let ?i = "dget_or frame ''runId'' (JStr [])" and ?p = "run_payload frame"
  consider (other) "\<not> hosted s ?p" "t = send_frame (ack_frame ?i False) s"
    | (bad) e where "hosted s ?p" "validate_run E ?p = Inl e"
        "t = send_frame (refusal_frame ?i (''frame does not validate as a DeliveredRun: '' @ e)) s"
    | (asked) d a r' where "hosted s ?p" "validate_run E ?p = Inr d"
        "deliver_run d (cl_runtime s) = (Inr a, r')" "t = send_frame (answer_frame ?i a) (s\<lparr>cl_runtime := r'\<rparr>)"
    using assms(1) by (auto simp: offer_def hosted_def payload_get Let_def split: if_splits sum.splits prod.splits)
  then show ?thesis
  proof cases
    case other
    with ack_frame_read [OF assms(2), of False] show ?thesis
      by (intro exI [of _ "ack_frame ?i False"]) (simp add: send_frame_def offer_meaning_def)
  next
    case (bad e)
    let ?r = "''frame does not validate as a DeliveredRun: '' @ e"
    from bad refusal_frame_read [OF assms(2), of ?r] show ?thesis
      by (intro exI [of _ "refusal_frame ?i ?r"]) (simp add: send_frame_def offer_meaning_def)
  next
    case (asked d a r')
    with answer_frame_read [OF assms(2), of a] show ?thesis
      by (intro exI [of _ "answer_frame ?i a"]) (simp add: send_frame_def offer_meaning_def)
  qed
qed

text \<open>A frame without a name to look up, or a runtime that raises, is what makes it raise.\<close>

lemma offer_returns:
  assumes "hashable (dget_or frame ''agentName'' (JStr []))"
    and "\<forall>d e r'. deliver_run d (cl_runtime s) \<noteq> (Inl e, r')"
  shows "\<exists>t. offer E deliver_run frame s = (None, t)"
  using assms by (auto simp: offer_def Let_def split: sum.splits prod.splits)

text \<open>C2. Handing a run over and hearing back keeps its meaning: for the frame the gateway makes
  of a dumped run, a client whose runtime does not raise queues exactly one ack, of that run's id,
  and the gateway reads from it the answer meant: a decline for an agent the client does not host,
  a refusal with its reason for a run that does not validate, and otherwise the runtime's own yes,
  not now or never; save that a never without a reason is read as a not now.\<close>

theorem offer_roundtrip:
  assumes "untyped dump" and "distinct (map fst dump)" and "hashable (dget_or dump ''agentName'' (JStr []))"
    and "frame = last (outbound (deliver dump l))"
    and "\<forall>d e r'. deliver_run d (cl_runtime s) \<noteq> (Inl e, r')"
    and "\<forall>w r. validate_verdict K (dget_or dump ''runId'' (JStr [])) w r = None"
  shows "\<exists>t f v. offer E deliver_run frame s = (None, t) \<and> cl_outbound t = cl_outbound s @ [f] \<and>
    dget f ''type'' = JStr ''ack'' \<and> dget f ''runId'' = dget_or dump ''runId'' (JStr []) \<and>
    parse_verdict K f = Inr v \<and> verdict_answer v = as_heard (offer_meaning E deliver_run dump s)"
proof -
  have frame: "frame = (''type'', JStr ''run'') # dump"
    using assms(1,2,4) by (simp add: deliver_def put_def run_payload_deliver)
  have get: "run_payload frame = dump" "dget_or frame ''runId'' (JStr []) = dget_or dump ''runId'' (JStr [])"
    "dget_or frame ''agentName'' (JStr []) = dget_or dump ''agentName'' (JStr [])"
    using assms(1,2) by (simp_all add: frame run_payload_deliver)
  obtain t where t: "offer E deliver_run frame s = (None, t)"
    using offer_returns assms(3,5) unfolding get(3) [symmetric] by blast
  show ?thesis
    using t offer_reads [OF t, of K] assms(6) unfolding get by simp
qed

definition wire_dump1 :: obj where
  "wire_dump1 = [(''runId'', JStr ''run1''), (''agentName'', JStr ''echo'')]"

definition busy_runtime :: "unit runtime" where
  "busy_runtime run r = (Inr (Refuses ''takes no interjections''), r)"

theorem offer_roundtrip_witness:
  "\<exists>t f v. offer wire_env busy_runtime (last (outbound (deliver wire_dump1 (s_link (sample_session ()))))) sample_client = (None, t) \<and>
    cl_outbound t = cl_outbound sample_client @ [f] \<and>
    dget f ''type'' = JStr ''ack'' \<and> dget f ''runId'' = JStr ''run1'' \<and>
    parse_verdict wire_core f = Inr v \<and> verdict_answer v = RefusedBecause ''takes no interjections''"
proof -
  have m: "offer_meaning wire_env busy_runtime wire_dump1 sample_client = RefusedBecause ''takes no interjections''"
    by (simp add: offer_meaning_def hosted_def wire_dump1_def sample_client_def wire_env_def busy_runtime_def meant_def)
  have i: "dget_or wire_dump1 ''runId'' (JStr []) = JStr ''run1''" by (simp add: wire_dump1_def)
  show ?thesis
    using offer_roundtrip [of wire_dump1 "last (outbound (deliver wire_dump1 (s_link (sample_session ()))))"
        "s_link (sample_session ())" busy_runtime sample_client wire_core wire_env]
    unfolding m i
    by (simp add: wire_dump1_def untyped_def busy_runtime_def wire_core_def sample_core_def)
qed

section \<open>Questions\<close>

lemma query_frame_thread: "query_frame q t limit = thread_query (JStr q) t limit"
  by (simp add: query_frame_def)

lemma asked_waits:
  assumes "waiters_inv s" and "q \<notin> w_query ` set (cl_waiters s)"
  shows "cl_pending (ask_messages q t limit s) q = Some (length (cl_waiters s))"
    and "cl_waiters (ask_messages q t limit s) ! length (cl_waiters s) = \<lparr>w_query = q, w_thread = t, w_state = Waits\<rparr>"
  by (simp_all add: ask_messages_def send_frame_def)

lemma asked_resolved:
  assumes "waiters_inv s" and "q \<notin> w_query ` set (cl_waiters s)" and "dget frame ''queryId'' = JStr q"
  shows "w_state (cl_waiters (resolve_query frame (ask_messages q t limit s)) ! length (cl_waiters s)) =
    answer_state frame"
proof -
  have "length (cl_waiters (ask_messages q t limit s)) = Suc (length (cl_waiters s))"
    by (simp add: ask_messages_def send_frame_def)
  with asked_waits [OF assms(1,2), of t limit] assms(3) show ?thesis
    by (simp add: resolve_query_def settle_nth)
qed

lemma answer_state_result: "answer_state (query_result (JStr q) [(''result'', JList ms)]) = GotMessages (JList ms)"
  by (simp add: answer_state_def query_result_def py_or_def)

lemma answer_state_error: "answer_state (query_error (JStr q) m) = QueryFailed m"
  by (simp add: answer_state_def query_error_def query_result_def py_str_def)

text \<open>C30. A question put through the client reaches its asker as souk decided it: with the reads of
  the record succeeding, the one frame that answers the client's own query settles exactly its
  waiter, with the newest messages of the thread up to the limit when the provider owns the thread
  and is a party to it where it has parties, and as a failed query otherwise, never as an empty
  thread.\<close>

theorem question_roundtrip:
  assumes "waiters_inv s" and "q \<notin> w_query ` set (cl_waiters s)" and "q \<noteq> []" and "t \<noteq> []" and "good_limit limit"
    and "get_thread F t c = (Inr thread, c)" and "parties_of F t c = (Inr parties, c)"
    and "get_thread_messages F t c = (Inr ms, c)"
  shows "\<exists>frame. answer_query F key (last (cl_outbound (ask_messages q t limit s))) c = (Inr [frame], c) \<and>
    w_state (cl_waiters (resolve_query frame (ask_messages q t limit s)) ! length (cl_waiters s)) =
      (if (\<exists>row. thread = Some row \<and> thread_provider_key row = key) \<and> (\<forall>ps. parties = Some ps \<longrightarrow> key \<in> set ps)
       then GotMessages (JList (trim_messages limit ms)) else QueryFailed no_such_thread)"
proof -
  have sent: "last (cl_outbound (ask_messages q t limit s)) = thread_query (JStr q) t limit"
    by (simp add: ask_messages_def send_frame_def query_frame_thread)
  have id: "dget (query_result (JStr q) [(''result'', JList ms')]) ''queryId'' = JStr q"
    "dget (query_error (JStr q) m) ''queryId'' = JStr q" for ms' m
    by (simp_all add: query_error_def query_result_def)
  show ?thesis
    unfolding sent query_denials_alike [OF assms(6-8), of "JStr q", simplified, OF assms(3-5)]
    using asked_resolved [OF assms(1,2)] by (simp add: id answer_state_result answer_state_error)
qed

lemma sample_client_waiters: "waiters_inv sample_client"
  by (rule waiters_inv_init) (simp add: client_init_def sample_client_def)

theorem question_roundtrip_witness:
  "\<exists>frame. answer_query (sample_core []) ''key1'' (last (cl_outbound (ask_messages ''q1'' ''open'' (JInt 2) sample_client))) sample_state =
     (Inr [frame], sample_state) \<and>
   w_state (cl_waiters (resolve_query frame (ask_messages ''q1'' ''open'' (JInt 2) sample_client)) ! 0) =
     GotMessages (JList [JStr ''b'', JStr ''c''])"
  using question_roundtrip [OF sample_client_waiters, of "''q1''" "''open''" "JInt 2" "sample_core []" sample_state
      "Some \<lparr>thread_provider_key = ''key1''\<rparr>" None "[JStr ''a'', JStr ''b'', JStr ''c'']" "''key1''"]
  by (simp add: sample_simps sample_client_def good_limit_def trim_messages_def last_n_def)

end
