(* ===== verification/Provider_Flow.thy ===== *)
theory Provider_Flow
  imports Provider_Wire
begin

text \<open>
  Whole conversations on \<open>/ws/provider\<close>: everything a client does, what each act means for core, and
  what the gateway makes of the frames it reads; and the vocabulary the two ends share.
\<close>

section \<open>What a client does\<close>

datatype client_act =
    Asks string string json
  | Hears obj
  | Reports string json
  | Finishes string
  | ConnectionEnds
  | TimesOut nat
  | Resumes nat

fun client_do ::
  "client_env \<Rightarrow> 'r runtime \<Rightarrow> (json \<Rightarrow> 'r \<Rightarrow> 'r) \<Rightarrow> client_act \<Rightarrow> 'r client \<Rightarrow> 'r client" where
  "client_do E d c (Asks q t limit) s = ask_messages q t limit s"
| "client_do E d c (Hears frame) s = snd (on_client_frame E d c frame s)"
| "client_do E d c (Reports run_id event) s = send_event (\<lambda>m. m) run_id (Inr event) s"
| "client_do E d c (Finishes run_id) s = send_finish run_id s"
| "client_do E d c ConnectionEnds s = connection_closed s"
| "client_do E d c (TimesOut i) s = query_timeout i s"
| "client_do E d c (Resumes i) s = asker_resumes i s"

text \<open>
  What an act is to become for core, under the key of the link: the answer to a run it was offered,
  as an ack can say it, unless the offer raised, an event, or the end of a run.
\<close>

fun act_meaning :: "client_env \<Rightarrow> 'r runtime \<Rightarrow> string \<Rightarrow> client_act \<Rightarrow> 'r client \<Rightarrow> core_call list" where
  "act_meaning E d key (Hears frame) s =
     (if dget frame ''type'' = JStr ''run'' \<and> fst (offer E d frame s) = None
      then [CAnswer (dget_or frame ''runId'' (JStr [])) (as_heard (offer_meaning E d (run_payload frame) s)) key]
      else [])"
| "act_meaning E d key (Reports run_id event) s = [CEvent (JStr run_id) event key]"
| "act_meaning E d key (Finishes run_id) s = [CFinish (JStr run_id) key]"
| "act_meaning E d key _ s = []"

fun acts_meaning ::
  "client_env \<Rightarrow> 'r runtime \<Rightarrow> (json \<Rightarrow> 'r \<Rightarrow> 'r) \<Rightarrow> string \<Rightarrow> client_act list \<Rightarrow> 'r client \<Rightarrow> core_call list" where
  "acts_meaning E d c key [] s = []"
| "acts_meaning E d c key (a # as) s =
     act_meaning E d key a s @ acts_meaning E d c key as (client_do E d c a s)"

section \<open>The frames it sends\<close>

text \<open>The kinds of frame a client queues, each with the fields its reader subscripts.\<close>

definition client_frame :: "obj \<Rightarrow> bool" where
  "client_frame f \<longleftrightarrow>
     dget f ''type'' = JStr ''ack'' \<and> (case dget f ''accepted'' of JBool b \<Rightarrow> True | _ \<Rightarrow> False) \<or>
     dget f ''type'' = JStr ''event'' \<and> text_at f ''runId'' \<or>
     dget f ''type'' = JStr ''finish'' \<and> text_at f ''runId'' \<or>
     dget f ''type'' = JStr ''query'' \<and> text_at f ''queryId'' \<and> dget f ''method'' \<in> JStr ` QUERY_METHODS"

lemma client_frames [simp]:
  "client_frame (ack_frame i b)" "client_frame (refusal_frame i r)" "client_frame (answer_frame i a)"
  "client_frame (report_event_frame run_id event)" "client_frame (finish_run_frame run_id)"
  "client_frame (query_frame q t limit)"
  by (simp_all add: client_frame_def ack_frame_def refusal_frame_def answer_frame_def report_event_frame_def
      finish_run_frame_def query_frame_def text_at_def QUERY_METHODS_def split: runtime_answer.split)

lemma offer_frames:
  "offer E d frame s = (x, t) \<Longrightarrow>
   \<exists>fs. cl_outbound t = cl_outbound s @ fs \<and> list_all client_frame fs \<and> (x \<noteq> None \<longrightarrow> fs = [])"
  by (auto simp: offer_def Let_def send_frame_def split: if_splits sum.splits prod.splits)

lemma heard_frames:
  assumes "on_client_frame E d c frame s = (x, t)"
  shows "\<exists>fs. cl_outbound t = cl_outbound s @ fs \<and> list_all client_frame fs"
proof (cases "dget frame ''type'' = JStr ''run''")
  case True
  with assms show ?thesis using offer_frames [of E d frame s x t] by (auto simp: on_client_frame_def Let_def)
next
  case False
  with assms show ?thesis
    by (auto simp: on_client_frame_def Let_def resolve_query_def settle_def split: if_splits json.splits option.splits)
qed

lemma asked_frames: "cl_outbound (ask_messages q t limit s) = cl_outbound s @ [query_frame q t limit]"
  by (simp add: ask_messages_def send_frame_def)

lemma quiet_acts [simp]:
  "cl_outbound (connection_closed s) = cl_outbound s" "cl_outbound (query_timeout i s) = cl_outbound s"
  "cl_outbound (asker_resumes i s) = cl_outbound s"
  by (simp_all add: connection_closed_def fail_pending_queries_def query_timeout_def settle_def forget_def
      asker_resumes_def)

lemma client_do_frames: "\<exists>fs. cl_outbound (client_do E d c a t) = cl_outbound t @ fs \<and> list_all client_frame fs"
proof (cases a)
  case (Hears frame)
  then show ?thesis
    using heard_frames [of E d c frame t "fst (on_client_frame E d c frame t)" "snd (on_client_frame E d c frame t)"]
    by simp
qed (simp_all add: asked_frames send_event_def send_finish_def send_frame_def)

lemma client_frames_kept:
  "list_all client_frame (cl_outbound t) \<Longrightarrow> list_all client_frame (cl_outbound (fold (client_do E d c) as t))"
proof (induction as arbitrary: t)
  case (Cons a as)
  then show ?case using client_do_frames [of E d c a t] by auto
qed simp

text \<open>What one act puts on the queue is read by the gateway as the act's meaning.\<close>

definition answers_accepted :: "'z contract_scheme \<Rightarrow> client_act \<Rightarrow> bool" where
  "answers_accepted K a \<longleftrightarrow>
     (\<forall>frame w r. a = Hears frame \<and> dget frame ''type'' = JStr ''run'' \<longrightarrow>
        validate_verdict K (dget_or frame ''runId'' (JStr [])) w r = None)"

lemma heard_meaning:
  assumes "on_client_frame E d c frame s = (x, t)" and "answers_accepted K (Hears frame)"
  shows "\<exists>fs. cl_outbound t = cl_outbound s @ fs \<and> list_all client_frame fs \<and>
    concat (map (run_calls K key) fs) = act_meaning E d key (Hears frame) s"
proof (cases "dget frame ''type'' = JStr ''run'' \<and> x = None")
  case True
  with assms(1) have o: "offer E d frame s = (None, t)" by (simp add: on_client_frame_def Let_def)
  have "\<forall>w r. validate_verdict K (dget_or frame ''runId'' (JStr [])) w r = None"
    using assms(2) True by (simp add: answers_accepted_def)
  with o obtain f v where f: "cl_outbound t = cl_outbound s @ [f]" "dget f ''type'' = JStr ''ack''"
    "dget f ''runId'' = dget_or frame ''runId'' (JStr [])" "parse_verdict K f = Inr v"
    "verdict_answer v = as_heard (offer_meaning E d (run_payload frame) s)"
    using offer_reads by blast
  moreover have "client_frame f" using offer_frames [OF o] f(1) by auto
  ultimately show ?thesis using True o by (intro exI [of _ "[f]"]) (simp add: run_calls_def)
next
  case False
  show ?thesis
  proof (cases "dget frame ''type'' = JStr ''run''")
    case True
    with False assms(1) have "offer E d frame s = (x, t)" "x \<noteq> None"
      by (simp_all add: on_client_frame_def Let_def)
    with offer_frames [of E d frame s x t] show ?thesis by (intro exI [of _ "[]"]) auto
  next
    case no: False
    with assms(1) have "cl_outbound t = cl_outbound s"
      by (auto simp: on_client_frame_def Let_def resolve_query_def settle_def split: if_splits json.splits option.splits)
    with no show ?thesis by (intro exI [of _ "[]"]) simp
  qed
qed

lemma act_frames:
  assumes "answers_accepted K a"
  shows "\<exists>fs. cl_outbound (client_do E d c a s) = cl_outbound s @ fs \<and> list_all client_frame fs \<and>
    concat (map (run_calls K key) fs) = act_meaning E d key a s"
proof (cases a)
  case (Hears frame)
  obtain x t where "on_client_frame E d c frame s = (x, t)" by (cases "on_client_frame E d c frame s")
  with heard_meaning [of E d c frame s x t K key] Hears assms show ?thesis by simp
qed (simp_all add: asked_frames send_event_def send_finish_def send_frame_def dump_event_def run_calls_def
      report_event_frame_def finish_run_frame_def query_frame_def client_frame_def text_at_def QUERY_METHODS_def)

lemma acts_frames:
  assumes "\<forall>a \<in> set as. answers_accepted K a"
  shows "\<exists>fs. cl_outbound (fold (client_do E d c) as s) = cl_outbound s @ fs \<and> list_all client_frame fs \<and>
    concat (map (run_calls K key) fs) = acts_meaning E d c key as s"
  using assms
proof (induction as arbitrary: s)
  case Nil
  then show ?case by simp
next
  case (Cons a as)
  then obtain fs where fs: "cl_outbound (client_do E d c a s) = cl_outbound s @ fs" "list_all client_frame fs"
    "concat (map (run_calls K key) fs) = act_meaning E d key a s"
    using act_frames by (metis list.set_intros(1))
  from Cons obtain gs where "cl_outbound (fold (client_do E d c) as (client_do E d c a s)) =
      cl_outbound (client_do E d c a s) @ gs" "list_all client_frame gs"
    "concat (map (run_calls K key) gs) = acts_meaning E d c key as (client_do E d c a s)"
    by (metis list.set_intros(2))
  with fs show ?case by (intro exI [of _ "fs @ gs"]) simp
qed

section \<open>What the gateway makes of them\<close>

text \<open>Core answers what it is told of a run, and does not raise.\<close>

definition core_answers :: "('c, 'z) core_scheme \<Rightarrow> bool" where
  "core_answers F \<longleftrightarrow>
     (\<forall>i a k c. \<exists>b. fst (answer_offer F i a k c) = Inr b) \<and>
     (\<forall>i e k c. \<exists>b. fst (report_event F i e k c) = Inr b) \<and>
     (\<forall>i k c. \<exists>b. fst (finish_run F i k c) = Inr b)"

lemma logging_fst: "fst (logging k f cl) = fst (f (fst cl))"
  by (simp add: logging_def split: prod.split)

lemma core_answers_logged: "core_answers F \<Longrightarrow> core_answers (logged F)"
  by (simp add: core_answers_def logging_fst)

lemma frame_stays:
  assumes "client_frame f" and "core_answers F"
  shows "fst (on_frame F f s) = None"
proof -
  have a: "\<exists>b c'. answer_offer F i a k c = (Inr b, c')" for i a k c
    using assms(2) unfolding core_answers_def by (metis prod.collapse)
  have e: "\<exists>b c'. report_event F i ev k c = (Inr b, c')" for i ev k c
    using assms(2) unfolding core_answers_def by (metis prod.collapse)
  have f: "\<exists>b c'. finish_run F i k c = (Inr b, c')" for i k c
    using assms(2) unfolding core_answers_def by (metis prod.collapse)
  have "fst (on_ack F f s) = None"
  proof (cases "parse_verdict F f")
    case (Inr v)
    with a [of "dget f ''runId''" "verdict_answer v" "conn_key (link_conn (s_link s))" "s_core s"]
    show ?thesis by (auto simp: on_ack_def)
  qed (simp add: on_ack_def)
  moreover have "fst (on_event F f s) = None"
    using e [of "dget f ''runId''" "dget f ''event''" "conn_key (link_conn (s_link s))" "s_core s"]
    by (auto simp: on_event_def Let_def)
  moreover have "fst (on_finish F f s) = None"
    using f [of "dget f ''runId''" "conn_key (link_conn (s_link s))" "s_core s"]
    by (auto simp: on_finish_def Let_def)
  ultimately show ?thesis
    using assms(1) by (auto simp: client_frame_def on_frame_def on_query_def INBOUND_FRAME_TYPES_def)
qed

abbreviation over_the_wire :: "(obj \<Rightarrow> string) \<Rightarrow> obj list \<Rightarrow> asgi_message list" where
  "over_the_wire dumps fs \<equiv> map (\<lambda>f. TextMessage (dumps f)) fs"

lemma loop_stays:
  assumes "list_all client_frame fs" and "core_answers F" and "\<forall>f \<in> set fs. json_loads F (dumps f) = Inr (JObj f)"
  shows "\<exists>s'. read_loop F (over_the_wire dumps fs) s = (None, s')"
  using assms
proof (induction fs arbitrary: s)
  case Nil
  then show ?case by simp
next
  case (Cons f fs)
  then have "fst (on_message F (TextMessage (dumps f)) s) = None"
    by (simp add: on_message_def parse_frame_def frame_stays)
  then obtain u where u: "on_message F (TextMessage (dumps f)) s = (None, u)" by (metis prod.collapse)
  from Cons obtain s' where "read_loop F (over_the_wire dumps fs) u = (None, s')" by fastforce
  with u show ?case by simp
qed

lemma wire_calls:
  "\<forall>f \<in> set fs. json_loads F (dumps f) = Inr (JObj f) \<Longrightarrow>
   map (message_calls F key) (over_the_wire dumps fs) = map (run_calls F key) fs"
  by (induction fs) (simp_all add: message_calls_def parse_frame_def)

lemma concat_take: "prefix (concat (map f (take n xs))) (concat (map f xs))"
  by (metis append_take_drop_id concat_append map_append prefixI)

text \<open>Frames of a client, sent whole, are read to the end and told to core as what they mean.\<close>

lemma sent_told:
  assumes "list_all client_frame sent" and "\<forall>f \<in> set sent. json_loads F (dumps f) = Inr (JObj f)" and "core_answers F"
  shows "\<exists>g'. read_loop (logged F) (over_the_wire dumps sent) g = (None, g') \<and>
    filter is_run_call (calls_of g') =
      filter is_run_call (calls_of g) @ concat (map (run_calls F (conn_key (link_conn (s_link g)))) sent)"
proof -
  obtain g' where loop: "read_loop (logged F) (over_the_wire dumps sent) g = (None, g')"
    using loop_stays [OF assms(1) core_answers_logged [OF assms(3)]] assms(2) logged_simps(1) by metis
  with read_loop_calls [OF loop] show ?thesis unfolding wire_calls [OF assms(2)] by blast
qed

text \<open>C3. Whatever a provider's client does, core hears it: from a fresh queue, through any sequence
  of offers answered, events reported, runs finished, questions asked, timed out and settled and
  connections ended, the gateway that reads what the client sent never ends the connection over it,
  and what core is told about runs is, under the key of the link, a prefix of what the client's acts
  mean, in their order, and all of it once everything queued was sent.\<close>

theorem provider_end_to_end:
  assumes "cl_outbound s = []" and "\<forall>a \<in> set as. answers_accepted F a"
    and "sent = take n (cl_outbound (fold (client_do E d c) as s))"
    and "\<forall>f \<in> set sent. json_loads F (dumps f) = Inr (JObj f)" and "core_answers F"
  shows "\<exists>g'. read_loop (logged F) (over_the_wire dumps sent) g = (None, g') \<and>
    prefix (filter is_run_call (calls_of g'))
      (filter is_run_call (calls_of g) @ acts_meaning E d c (conn_key (link_conn (s_link g))) as s) \<and>
    (length (cl_outbound (fold (client_do E d c) as s)) \<le> n \<longrightarrow>
       filter is_run_call (calls_of g') =
       filter is_run_call (calls_of g) @ acts_meaning E d c (conn_key (link_conn (s_link g))) as s)"
proof -
  let ?key = "conn_key (link_conn (s_link g))"
  obtain fs where out: "cl_outbound (fold (client_do E d c) as s) = fs" and shape: "list_all client_frame fs"
    and means: "concat (map (run_calls F ?key) fs) = acts_meaning E d c ?key as s"
    using acts_frames [OF assms(2), of E d c s ?key] assms(1) by auto
  have sent: "sent = take n fs" using assms(3) out by simp
  have "list_all client_frame sent" using shape in_set_takeD unfolding sent list_all_iff by fast
  then obtain g' where loop: "read_loop (logged F) (over_the_wire dumps sent) g = (None, g')"
    and told: "filter is_run_call (calls_of g') = filter is_run_call (calls_of g) @ concat (map (run_calls F ?key) sent)"
    using sent_told [OF _ assms(4,5)] by blast
  then show ?thesis
    using out means sent concat_take [of "run_calls F ?key" n fs] by (intro exI [of _ g']) auto
qed

text \<open>One run, taken, reported on and finished.\<close>

definition one_run :: "client_act list" where
  "one_run = [Hears ((''type'', JStr ''run'') # wire_dump1), Reports ''run1'' (JStr ''e''), Finishes ''run1'']"

definition type_text :: "obj \<Rightarrow> string" where
  "type_text f = (case dget f ''type'' of JStr t \<Rightarrow> t | _ \<Rightarrow> [])"

lemma one_run_sent:
  "cl_outbound (fold (client_do wire_env sample_runtime (\<lambda>i r. r)) one_run sample_client) =
     [ack_frame (JStr ''run1'') True, report_event_frame ''run1'' (JStr ''e''), finish_run_frame ''run1'']"
  by (simp add: one_run_def on_client_frame_def offer_def wire_dump1_def sample_client_def send_event_def
      send_finish_def send_frame_def run_payload_def wire_env_def sample_runtime_def answer_frame_def dump_event_def)

lemma one_run_means:
  "acts_meaning wire_env sample_runtime (\<lambda>i r. r) key one_run sample_client =
     [CAnswer (JStr ''run1'') Accepted key, CEvent (JStr ''run1'') (JStr ''e'') key, CFinish (JStr ''run1'') key]"
  by (simp add: one_run_def offer_def offer_meaning_def hosted_def meant_def wire_dump1_def sample_client_def
      run_payload_def wire_env_def sample_runtime_def)

lemma sample_core_answers: "core_answers (sample_core texts)"
  by (simp add: core_answers_def sample_core_def)

theorem provider_end_to_end_witness:
  "\<exists>g'. read_loop (logged (sample_core sample_texts)) (over_the_wire type_text
      [ack_frame (JStr ''run1'') True, report_event_frame ''run1'' (JStr ''e''), finish_run_frame ''run1''])
      (sample_session (sample_state, [])) = (None, g') \<and>
    filter is_run_call (calls_of g') =
      [CAnswer (JStr ''run1'') Accepted ''key1'', CEvent (JStr ''run1'') (JStr ''e'') ''key1'',
       CFinish (JStr ''run1'') ''key1'']"
proof -
  let ?sent = "[ack_frame (JStr ''run1'') True, report_event_frame ''run1'' (JStr ''e''), finish_run_frame ''run1'']"
  have ok: "\<forall>a \<in> set one_run. answers_accepted (sample_core sample_texts) a"
    by (simp add: one_run_def answers_accepted_def wire_dump1_def sample_core_def)
  have loads: "\<forall>f \<in> set ?sent. json_loads (sample_core sample_texts) (type_text f) = Inr (JObj f)"
    by (simp add: sample_core_def sample_texts_def type_text_def ack_frame_def report_event_frame_def
        finish_run_frame_def)
  have fresh: "cl_outbound sample_client = []" by (simp add: sample_client_def)
  have key: "conn_key (link_conn (s_link (sample_session (sample_state, []) ))) = ''key1''"
    and log: "calls_of (sample_session (sample_state, [])) = []"
    by (simp_all add: sample_session_def)
  show ?thesis
    using provider_end_to_end [OF fresh ok _ loads sample_core_answers, where n = 3 and E = wire_env
        and d = sample_runtime and c = "\<lambda>i r. r" and g = "sample_session (sample_state, [])"]
    unfolding one_run_sent one_run_means key log by (auto simp del: read_loop.simps)
qed

section \<open>The shared vocabulary\<close>


lemma sample_enveloped: "calls_enveloped (sample_core texts)"
  by (auto simp: calls_enveloped_def sample_core_def Let_def split: if_splits)

lemma welcome_sent:
  "reach (provider_init (sample_core sample_texts) 1) (enveloped_step (sample_core sample_texts) (=))
     (write_one (sample_session sample_state))"
proof (rule reach_next, rule reach_start)
  show "provider_init (sample_core sample_texts) 1 (sample_session sample_state)"
    unfolding provider_init_def by (intro exI) (rule sample_open)
  have "outbound (s_link (write_one (sample_session sample_state))) = []"
    by (simp add: write_one_def sample_session_def welcome_frame_def CLOSE_def)
  moreover have "outbound (link_call k l) \<noteq> []" for k l using outbound_link_call [of k l] by auto
  ultimately have "write_one (sample_session sample_state) \<noteq>
      (sample_session sample_state)\<lparr>s_link := link_call k (s_link (sample_session sample_state))\<rparr>" for k
    by (metis session.select_convs(1) session.surjective session.update_convs(1))
  with sample_sent show "enveloped_step (sample_core sample_texts) (=) (sample_session sample_state)
      (write_one (sample_session sample_state))"
    by (simp add: enveloped_step_def)
qed


end
