(* ===== verification/Kyok_Link.thy ===== *)
theory Kyok_Link
  imports Provider_Link
begin

text \<open>
  \<open>souk_server/ws_kyok.py\<close>, the \<open>SocketLLMProvider\<close> object: the table of completions in flight
  on one connection, the queue and the answer stream of each, and what the generator yields.
\<close>

section \<open>Answer streams\<close>

text \<open>
  What is put on a completion's queue: a chunk's data, the \<open>_DONE\<close> sentinel or an exception.
  \<open>CompletionRefused\<close> carries the provider's refusal; the argument of the RuntimeError is
  whatever JSON value the provider sent as its message.
\<close>

datatype stream_error =
    CompletionRefused obj
  | Runtime_Error json
  | InvalidChunk exn

datatype answer_item = Chunk obj | DoneItem | Failure stream_error

text \<open>How a generator ended: it returned, it raised, or its consumer closed it.\<close>

datatype stream_end = Returned | RaisedError stream_error | Abandoned

text \<open>
  One completion: the id minted for it, all items ever put on its queue with the number already
  taken (the queue holds the rest), what the generator has yielded, whether its body has begun
  and how it ended.
\<close>

record stream =
  st_id :: string
  st_items :: "answer_item list"
  st_taken :: nat
  st_seen :: "json list"
  st_started :: bool
  st_end :: "stream_end option"

text \<open>The object: its answers table holds the place of the stream whose queue it names.\<close>

record kyok_link =
  k_conn :: conn
  k_outbound :: "obj list"
  k_answers :: "string \<rightharpoonup> nat"
  k_streams :: "stream list"

definition KYOK_SURFACE :: "string list" where
  "KYOK_SURFACE = [''public_key'', ''complete'']"

definition socket_llm_attrs :: "string list" where
  "socket_llm_attrs = [''public_key'', ''complete'', ''feed'', ''fail_pending'']"

definition new_llm_provider :: "string list \<Rightarrow> nat \<Rightarrow> string \<Rightarrow> exn + kyok_link" where
  "new_llm_provider attrs cid public_key =
     (let missing = missing_surface KYOK_SURFACE attrs in
      if missing \<noteq> []
      then Inl (Exn TypeError (''SocketLLMProvider is not a ConnectedLLMProvider: missing '' @
                               py_repr (JList (map JStr missing))))
      else Inr \<lparr>k_conn = \<lparr>conn_id = cid, conn_key = public_key, conn_max = JNull\<rparr>, k_outbound = [],
                k_answers = Map.empty, k_streams = []\<rparr>)"

lemma new_llm_provider_ok:
  "new_llm_provider socket_llm_attrs cid key =
     Inr \<lparr>k_conn = \<lparr>conn_id = cid, conn_key = key, conn_max = JNull\<rparr>, k_outbound = [],
          k_answers = Map.empty, k_streams = []\<rparr>"
  by (simp add: new_llm_provider_def missing_surface_def KYOK_SURFACE_def socket_llm_attrs_def)

definition k_put :: "obj \<Rightarrow> kyok_link \<Rightarrow> kyok_link" where
  "k_put frame l = l\<lparr>k_outbound := k_outbound l @ [frame]\<rparr>"

text \<open>\<open>complete\<close>: the id is the one \<open>new_id\<close> gave; \<open>dump\<close> is the dumped request.\<close>

definition completion_frame :: "string \<Rightarrow> obj \<Rightarrow> obj" where
  "completion_frame request_id dump =
     dict_merge [(''type'', JStr ''completionRequest''), (''requestId'', JStr request_id)] dump"

definition complete :: "string \<Rightarrow> obj \<Rightarrow> kyok_link \<Rightarrow> kyok_link" where
  "complete request_id dump l =
     k_put (completion_frame request_id dump)
       (l\<lparr>k_answers := (k_answers l)(request_id \<mapsto> length (k_streams l)),
          k_streams := k_streams l @
            [\<lparr>st_id = request_id, st_items = [], st_taken = 0, st_seen = [], st_started = False,
              st_end = None\<rparr>]\<rparr>)"

definition put_item :: "answer_item \<Rightarrow> nat \<Rightarrow> kyok_link \<Rightarrow> kyok_link" where
  "put_item item i l =
     l\<lparr>k_streams := (k_streams l)[i := (k_streams l ! i)\<lparr>st_items := st_items (k_streams l ! i) @ [item]\<rparr>]\<rparr>"

definition feed :: "string \<Rightarrow> answer_item \<Rightarrow> kyok_link \<Rightarrow> bool \<times> kyok_link" where
  "feed request_id item l =
     (case k_answers l request_id of None \<Rightarrow> (False, l) | Some i \<Rightarrow> (True, put_item item i l))"

definition disconnected :: stream_error where
  "disconnected = Runtime_Error (JStr ''LLM provider disconnected mid-response'')"

definition stopped_answering :: stream_error where
  "stopped_answering = Runtime_Error (JStr ''LLM provider stopped answering mid-completion'')"

text \<open>\<open>fail_pending\<close>: the streams the table names, each given the failure; then the table is cleared.\<close>

definition fail_stream :: "(string \<rightharpoonup> nat) \<Rightarrow> nat \<times> stream \<Rightarrow> stream" where
  "fail_stream answers = (\<lambda>(i, st).
     if i \<in> ran answers then st\<lparr>st_items := st_items st @ [Failure disconnected]\<rparr> else st)"

definition fail_pending :: "kyok_link \<Rightarrow> kyok_link" where
  "fail_pending l =
     l\<lparr>k_streams := map (fail_stream (k_answers l)) (enumerate 0 (k_streams l)),
       k_answers := Map.empty\<rparr>"

section \<open>The generator\<close>

text \<open>
  \<open>_answer_stream\<close> resumed with an item on its queue: a chunk is validated and yielded, the
  sentinel returns, an exception is raised; ending in any way takes the id out of the table.
\<close>

definition end_stream :: "stream_end \<Rightarrow> nat \<Rightarrow> stream \<Rightarrow> kyok_link \<Rightarrow> kyok_link" where
  "end_stream how i st l =
     l\<lparr>k_streams := (k_streams l)[i := st\<lparr>st_end := Some how\<rparr>],
       k_answers := (k_answers l)(st_id st := None)\<rparr>"

definition take_item :: "(obj \<Rightarrow> exn + json) \<Rightarrow> nat \<Rightarrow> kyok_link \<Rightarrow> kyok_link" where
  "take_item validate i l =
     (let old = k_streams l ! i;
          st = old\<lparr>st_taken := Suc (st_taken old), st_started := True\<rparr>
      in case st_items old ! st_taken old of
           DoneItem \<Rightarrow> end_stream Returned i st l
         | Failure e \<Rightarrow> end_stream (RaisedError e) i st l
         | Chunk d \<Rightarrow>
             (case validate d of
                Inl e \<Rightarrow> end_stream (RaisedError (InvalidChunk e)) i st l
              | Inr x \<Rightarrow> l\<lparr>k_streams := (k_streams l)[i := st\<lparr>st_seen := st_seen st @ [x]\<rparr>]\<rparr>))"

text \<open>Resumed with an empty queue: it waits, or the gap timeout fires.\<close>

definition wait_item :: "nat \<Rightarrow> kyok_link \<Rightarrow> kyok_link" where
  "wait_item i l = l\<lparr>k_streams := (k_streams l)[i := (k_streams l ! i)\<lparr>st_started := True\<rparr>]\<rparr>"

definition gap_timeout :: "nat \<Rightarrow> kyok_link \<Rightarrow> kyok_link" where
  "gap_timeout i l =
     end_stream (RaisedError stopped_answering) i ((k_streams l ! i)\<lparr>st_started := True\<rparr>) l"

text \<open>
  The consumer closes the generator: the \<open>finally\<close> block runs only if its body has begun.
\<close>

definition drop_stream :: "nat \<Rightarrow> kyok_link \<Rightarrow> kyok_link" where
  "drop_stream i l =
     (let st = k_streams l ! i in
      if st_started st then end_stream Abandoned i st l
      else l\<lparr>k_streams := (k_streams l)[i := st\<lparr>st_end := Some Abandoned\<rparr>]\<rparr>)"

section \<open>What one stream may have yielded\<close>

text \<open>The chunks of a list of items, each valid, against what was yielded for them.\<close>

definition relayed :: "(obj \<Rightarrow> exn + json) \<Rightarrow> answer_item list \<Rightarrow> json list \<Rightarrow> bool" where
  "relayed validate items seen \<longleftrightarrow> list_all2 (\<lambda>it x. \<exists>d. it = Chunk d \<and> validate d = Inr x) items seen"

fun ended_ok :: "(obj \<Rightarrow> exn + json) \<Rightarrow> answer_item list \<Rightarrow> json list \<Rightarrow> stream_end option \<Rightarrow> bool" where
  "ended_ok validate taken seen None = relayed validate taken seen"
| "ended_ok validate taken seen (Some Abandoned) = relayed validate taken seen"
| "ended_ok validate taken seen (Some Returned) =
     (\<exists>cs. taken = cs @ [DoneItem] \<and> relayed validate cs seen)"
| "ended_ok validate taken seen (Some (RaisedError e)) =
     ((e = stopped_answering \<and> relayed validate taken seen) \<or>
      (\<exists>cs it. taken = cs @ [it] \<and> relayed validate cs seen \<and>
         (it = Failure e \<or> (\<exists>d x. it = Chunk d \<and> validate d = Inl x \<and> e = InvalidChunk x))))"

definition stream_ok :: "(obj \<Rightarrow> exn + json) \<Rightarrow> stream \<Rightarrow> bool" where
  "stream_ok validate st \<longleftrightarrow>
     st_taken st \<le> length (st_items st) \<and>
     ended_ok validate (take (st_taken st) (st_items st)) (st_seen st) (st_end st)"

lemma relayed_Nil [simp]: "relayed V [] ys \<longleftrightarrow> ys = []"
  by (simp add: relayed_def)

lemma relayed_snoc: "relayed V xs ys \<Longrightarrow> V d = Inr y \<Longrightarrow> relayed V (xs @ [Chunk d]) (ys @ [y])"
  by (simp add: relayed_def list_all2_appendI)

lemma stream_ok_fed: "stream_ok V st \<Longrightarrow> stream_ok V (st\<lparr>st_items := st_items st @ items\<rparr>)"
  by (simp add: stream_ok_def)

lemma stream_ok_started: "stream_ok V st \<Longrightarrow> stream_ok V (st\<lparr>st_started := b\<rparr>)"
  by (simp add: stream_ok_def)

lemma stream_ok_abandon: "stream_ok V st \<Longrightarrow> st_end st = None \<Longrightarrow> stream_ok V (st\<lparr>st_end := Some Abandoned\<rparr>)"
  by (simp add: stream_ok_def)

lemma stream_ok_gap:
  "stream_ok V st \<Longrightarrow> st_end st = None \<Longrightarrow> stream_ok V (st\<lparr>st_end := Some (RaisedError stopped_answering)\<rparr>)"
  by (simp add: stream_ok_def)

text \<open>Taking one more item, as a function of the stream alone.\<close>

definition step_stream :: "(obj \<Rightarrow> exn + json) \<Rightarrow> stream \<Rightarrow> stream" where
  "step_stream validate old =
     (let st = old\<lparr>st_taken := Suc (st_taken old), st_started := True\<rparr> in
      case st_items old ! st_taken old of
        DoneItem \<Rightarrow> st\<lparr>st_end := Some Returned\<rparr>
      | Failure e \<Rightarrow> st\<lparr>st_end := Some (RaisedError e)\<rparr>
      | Chunk d \<Rightarrow>
          (case validate d of
             Inl e \<Rightarrow> st\<lparr>st_end := Some (RaisedError (InvalidChunk e))\<rparr>
           | Inr x \<Rightarrow> st\<lparr>st_seen := st_seen st @ [x]\<rparr>))"

lemma take_item_step:
  "take_item V i l =
     (let st = step_stream V (k_streams l ! i) in
      l\<lparr>k_streams := (k_streams l)[i := st],
        k_answers := (if st_end st = st_end (k_streams l ! i) then k_answers l
                      else (k_answers l)(st_id st := None))\<rparr>)"
  if "st_end (k_streams l ! i) = None"
  using that
  by (auto simp: take_item_def step_stream_def end_stream_def Let_def split: answer_item.splits sum.splits)

lemma step_stream_id [simp]: "st_id (step_stream V st) = st_id st"
  by (simp add: step_stream_def Let_def split: answer_item.splits sum.splits)

lemma step_stream_items [simp]: "st_items (step_stream V st) = st_items st"
  by (simp add: step_stream_def Let_def split: answer_item.splits sum.splits)

lemma stream_ok_step:
  assumes "stream_ok V st" and "st_end st = None" and "st_taken st < length (st_items st)"
  shows "stream_ok V (step_stream V st)"
proof -
  have t: "take (Suc (st_taken st)) (st_items st) =
      take (st_taken st) (st_items st) @ [st_items st ! st_taken st]"
    using assms(3) by (rule take_Suc_conv_app_nth)
  have r: "relayed V (take (st_taken st) (st_items st)) (st_seen st)"
    using assms(1,2) by (simp add: stream_ok_def)
  show ?thesis
    using assms r by (auto simp: step_stream_def stream_ok_def Let_def t relayed_snoc
        split: answer_item.splits sum.splits)
qed

section \<open>Facts about the table\<close>

lemma put_item_frame [link_simps]:
  "k_conn (put_item it i l) = k_conn l" "k_outbound (put_item it i l) = k_outbound l"
  "k_answers (put_item it i l) = k_answers l"
  "length (k_streams (put_item it i l)) = length (k_streams l)"
  by (simp_all add: put_item_def)

lemma k_put_frame [link_simps]:
  "k_conn (k_put f l) = k_conn l" "k_outbound (k_put f l) = k_outbound l @ [f]"
  "k_answers (k_put f l) = k_answers l" "k_streams (k_put f l) = k_streams l"
  by (simp_all add: k_put_def)

lemma fail_pending_frame [link_simps]:
  "k_conn (fail_pending l) = k_conn l" "k_outbound (fail_pending l) = k_outbound l"
  "k_answers (fail_pending l) = Map.empty"
  "length (k_streams (fail_pending l)) = length (k_streams l)"
  by (simp_all add: fail_pending_def)

lemma fail_pending_nth:
  "i < length (k_streams l) \<Longrightarrow>
   k_streams (fail_pending l) ! i =
     (if i \<in> ran (k_answers l)
      then (k_streams l ! i)\<lparr>st_items := st_items (k_streams l ! i) @ [Failure disconnected]\<rparr>
      else k_streams l ! i)"
  by (simp add: fail_pending_def fail_stream_def nth_enumerate_eq)

lemma completion_frame_get:
  assumes "''type'' \<notin> fst ` set dump" and "''requestId'' \<notin> fst ` set dump"
  shows "dget (completion_frame r dump) ''type'' = JStr ''completionRequest''"
    and "dget (completion_frame r dump) ''requestId'' = JStr r"
  using assms by (simp_all add: completion_frame_def dget_merge_notin)

end
