(* ===== verification/Kyok_Socket.thy ===== *)
theory Kyok_Socket
  imports Kyok_Link Provider_Socket
begin

text \<open>
  \<open>souk_server/ws_kyok.py\<close>, the socket: opening \<open>/ws/kyok\<close>, the handler of each frame type, the
  teardown, and the step relation that interleaves them with the completions core asks for and
  the consumers of their answers.
\<close>

section \<open>Core as this socket uses it\<close>

record 'c llm_core = contract +
  llm_identity_key :: string
  attach_llm_provider :: "conn \<Rightarrow> json \<Rightarrow> json \<Rightarrow> json \<Rightarrow> ('c, exn, json) call"
  detach_llm_provider :: "string \<Rightarrow> nat \<Rightarrow> 'c \<Rightarrow> 'c"
  register_llm_providers :: "conn \<Rightarrow> string list \<Rightarrow> obj option \<Rightarrow> ('c, exn, string list) call"
  delete_llm_offering :: "conn \<Rightarrow> string \<Rightarrow> ('c, exn, unit) call"
  validate_chunk :: "obj \<Rightarrow> exn + json"

text \<open>
  The session of one open socket. \<open>ks_pending\<close> is the core call the read loop is suspended on,
  if any: while one is awaited nothing further is read, and everything else goes on.
\<close>

datatype pending = Registering "string list" "obj option" | DeletingModel string

record 'c ksession =
  ks_link :: kyok_link
  ks_core :: 'c
  ks_wire :: "obj list"
  ks_close :: "obj option"
  ks_pending :: "pending option"
  ks_phase :: phase

definition k_say :: "obj \<Rightarrow> 'c ksession \<Rightarrow> 'c ksession" where
  "k_say frame s = s\<lparr>ks_link := k_put frame (ks_link s)\<rparr>"

definition KYOK_FRAME_TYPES :: "string set" where
  "KYOK_FRAME_TYPES = {''register'', ''deleteModel'', ''chunk'', ''done'', ''error''}"

definition request_error_frame :: "string \<Rightarrow> string \<Rightarrow> obj" where
  "request_error_frame request_id message =
     [(''type'', JStr ''error''), (''requestId'', JStr request_id), (''message'', JStr message)]"

section \<open>The read loop, frame type by frame type\<close>

type_synonym 'c khandled = "exn option \<times> 'c ksession"

text \<open>\<open>isinstance(models, list) and models and all(isinstance(m, str) and m ...)\<close>.\<close>

definition model_names :: "json \<Rightarrow> string list option" where
  "model_names models =
     (case models of
        JList ms \<Rightarrow>
          if ms \<noteq> [] \<and> list_all nonempty_str ms
          then Some (map (\<lambda>m. case m of JStr n \<Rightarrow> n | _ \<Rightarrow> []) ms) else None
      | _ \<Rightarrow> None)"

definition on_llm_register :: "obj \<Rightarrow> 'c ksession \<Rightarrow> 'c khandled" where
  "on_llm_register frame s =
     (case model_names (dget frame ''models'') of
        None \<Rightarrow> (None, k_say (error_frame ''register needs a non-empty 'models' list of strings'') s)
      | Some models \<Rightarrow>
          (case dget frame ''metadata'' of
             JNull \<Rightarrow> (None, s\<lparr>ks_pending := Some (Registering models None)\<rparr>)
           | JObj metadata \<Rightarrow> (None, s\<lparr>ks_pending := Some (Registering models (Some metadata))\<rparr>)
           | _ \<Rightarrow> (None, k_say (error_frame ''metadata must be an object'') s)))"

definition on_delete_model :: "obj \<Rightarrow> 'c ksession \<Rightarrow> 'c khandled" where
  "on_delete_model frame s =
     (case dget frame ''name'' of
        JStr name \<Rightarrow>
          if name = [] then (None, k_say (error_frame ''deleteModel needs a name'') s)
          else (None, s\<lparr>ks_pending := Some (DeletingModel name)\<rparr>)
      | _ \<Rightarrow> (None, k_say (error_frame ''deleteModel needs a name'') s))"

text \<open>The awaited core call coming back, and what the handler does with it.\<close>

definition resume_pending :: "('c, 'z) llm_core_scheme \<Rightarrow> pending \<Rightarrow> 'c ksession \<Rightarrow> 'c khandled" where
  "resume_pending F p s =
     (case p of
        Registering models metadata \<Rightarrow>
          (case register_llm_providers F (k_conn (ks_link s)) models metadata (ks_core s) of
             (Inl e, c') \<Rightarrow>
               (let s' = s\<lparr>ks_core := c', ks_pending := None\<rparr> in
                if is_funduq_error F e \<or> is_value_error F e
                then (None, k_say (error_frame (exn_text e)) s') else (Some e, s'))
           | (Inr registered, c') \<Rightarrow>
               (None, k_say [(''type'', JStr ''registered''), (''names'', JList (map JStr (sort registered)))]
                        (s\<lparr>ks_core := c', ks_pending := None\<rparr>)))
      | DeletingModel name \<Rightarrow>
          (case delete_llm_offering F (k_conn (ks_link s)) name (ks_core s) of
             (Inl e, c') \<Rightarrow>
               (let s' = s\<lparr>ks_core := c', ks_pending := None\<rparr> in
                if is_funduq_error F e
                then (None, k_say (named_error_frame name (exn_text e)) s') else (Some e, s'))
           | (Inr u, c') \<Rightarrow>
               (None, k_say [(''type'', JStr ''deleted''), (''name'', JStr name)]
                        (s\<lparr>ks_core := c', ks_pending := None\<rparr>))))"

text \<open>What an answer frame puts on its completion's queue; \<open>Inl\<close> is a frame refused before that.\<close>

definition frame_item :: "obj \<Rightarrow> string + answer_item" where
  "frame_item frame =
     (if dget frame ''type'' = JStr ''chunk''
      then (case dget frame ''data'' of
              JObj d \<Rightarrow> Inr (Chunk d) | _ \<Rightarrow> Inl ''chunk data must be an object'')
      else if dget frame ''type'' = JStr ''done'' then Inr DoneItem
      else (case dget frame ''refusal'' of
              JObj r \<Rightarrow> Inr (Failure (CompletionRefused r))
            | _ \<Rightarrow> Inr (Failure (Runtime_Error
                     (py_or (dget frame ''message'') (JStr ''LLM provider reported an error''))))))"

definition no_such_completion :: string where
  "no_such_completion = ''no such in-flight completion on this connection''"

definition on_answer :: "obj \<Rightarrow> 'c ksession \<Rightarrow> 'c khandled" where
  "on_answer frame s =
     (case dget frame ''requestId'' of
        JStr request_id \<Rightarrow>
          (case frame_item frame of
             Inl message \<Rightarrow> (None, k_say (request_error_frame request_id message) s)
           | Inr item \<Rightarrow>
               (case feed request_id item (ks_link s) of
                  (accepted, l') \<Rightarrow>
                    (let s' = s\<lparr>ks_link := l'\<rparr> in
                     (None, if accepted then s'
                            else k_say (request_error_frame request_id no_such_completion) s'))))
      | _ \<Rightarrow> (None, k_say (error_frame ''frame needs a requestId'') s))"

definition on_kyok_frame :: "obj \<Rightarrow> 'c ksession \<Rightarrow> 'c khandled" where
  "on_kyok_frame frame s =
     (let ftype = dget frame ''type'' in
      if \<not> hashable ftype then (Some (unhashable ftype), s)
      else if ftype \<notin> JStr ` KYOK_FRAME_TYPES
        then (None, k_say (error_frame (''unknown frame type '' @ py_repr ftype)) s)
      else if ftype = JStr ''register'' then on_llm_register frame s
      else if ftype = JStr ''deleteModel'' then on_delete_model frame s
      else on_answer frame s)"

definition on_kyok_message :: "'z contract_scheme \<Rightarrow> asgi_message \<Rightarrow> 'c ksession \<Rightarrow> 'c khandled" where
  "on_kyok_message K m s =
     (case parse_frame K m of
        Inl e \<Rightarrow> (Some e, s)
      | Inr None \<Rightarrow> (None, k_say (error_frame ''unparseable frame'') s)
      | Inr (Some frame) \<Rightarrow> on_kyok_frame frame s)"

text \<open>
  The read loop over the messages that have arrived, up to the disconnect, an exception or the
  first frame whose core call suspends it; the messages it left unread come with the outcome.
\<close>

datatype kyok_stop = KLeft | KRaised exn | KSuspended | KWaiting

fun kyok_loop :: "'z contract_scheme \<Rightarrow> asgi_message list \<Rightarrow> 'c ksession \<Rightarrow>
    kyok_stop \<times> asgi_message list \<times> 'c ksession" where
  "kyok_loop K [] s = (KWaiting, [], s)"
| "kyok_loop K (m # ms) s =
     (if m = Disconnect then (KLeft, ms, s)
      else (case on_kyok_message K m s of
              (Some e, s') \<Rightarrow> (KRaised e, ms, s')
            | (None, s') \<Rightarrow> if ks_pending s' = None then kyok_loop K ms s' else (KSuspended, ms, s')))"

text \<open>The \<open>finally\<close> block: detach this connection, fail what is in flight, stop the writer.\<close>

definition kyok_teardown :: "('c, 'z) llm_core_scheme \<Rightarrow> 'c ksession \<Rightarrow> 'c ksession" where
  "kyok_teardown F s =
     (let k = k_conn (ks_link s) in
      s\<lparr>ks_core := detach_llm_provider F (conn_key k) (conn_id k) (ks_core s),
        ks_link := fail_pending (ks_link s), ks_pending := None, ks_phase := Gone\<rparr>)"

definition kyok_write :: "'c ksession \<Rightarrow> 'c ksession" where
  "kyok_write s =
     (case k_outbound (ks_link s) of
        [] \<Rightarrow> s
      | f # rest \<Rightarrow>
          (let s' = s\<lparr>ks_link := (ks_link s)\<lparr>k_outbound := rest\<rparr>\<rparr> in
           if dget f ''type'' = JStr CLOSE then s'\<lparr>ks_close := Some f, ks_phase := Closing\<rparr>
           else s'\<lparr>ks_wire := ks_wire s @ [f]\<rparr>))"

text \<open>As on the provider's socket, a send that raises ends the writer, and nothing takes frames any more.\<close>

definition kyok_writer_dies :: "'c ksession \<Rightarrow> 'c ksession" where
  "kyok_writer_dies s = s\<lparr>ks_phase := Closing\<rparr>"

section \<open>Opening the socket\<close>

datatype 'c kyok_door =
    KNeverOpened 'c
  | KClosedAtDoor int string 'c
  | KOpenRaised exn 'c
  | KOpen "'c ksession"

definition kyok_open ::
  "('c, 'z) llm_core_scheme \<Rightarrow> nat \<Rightarrow> asgi_message option \<Rightarrow> 'c \<Rightarrow> 'c kyok_door" where
  "kyok_open F cid first c =
     (case receive_hello F first of
        Inl e \<Rightarrow> KOpenRaised e c
      | Inr PeerGone \<Rightarrow> KNeverOpened c
      | Inr (ClosedHello code reason) \<Rightarrow> KClosedAtDoor code reason c
      | Inr (GotHello hello) \<Rightarrow>
          (case kyok_hello_error hello of
             Some problem \<Rightarrow> KClosedAtDoor POLICY_VIOLATION problem c
           | None \<Rightarrow>
               (case new_llm_provider socket_llm_attrs cid (py_str (dget hello ''publicKey'')) of
                  Inl e \<Rightarrow> KOpenRaised e c
                | Inr link \<Rightarrow>
                (case attach_llm_provider F (k_conn link) (dget hello ''ticket'')
                       (dget hello ''nonce'') (dget hello ''proof'') c of
                  (Inl e, c') \<Rightarrow>
                    if is_class InvalidRegistration e \<or> is_value_error F e
                    then KClosedAtDoor POLICY_VIOLATION (exn_text e) c' else KOpenRaised e c'
                | (Inr answer, c') \<Rightarrow>
                    KOpen \<lparr>ks_link = k_put (welcome_frame (llm_identity_key F) answer) link,
                           ks_core = c', ks_wire = [], ks_close = None, ks_pending = None,
                           ks_phase = Opened\<rparr>))))"

section \<open>Everything that can happen to an open socket\<close>

text \<open>
  A dumped request has the envelope's own fields, none of them \<open>type\<close> or \<open>requestId\<close>; \<open>new_id\<close>
  never gives an id twice. A stream moves while it has not ended: it takes what is queued, waits,
  times out on an empty queue, or is closed by its consumer.
\<close>

definition plain_dump :: "obj \<Rightarrow> bool" where
  "plain_dump dump \<longleftrightarrow> ''type'' \<notin> fst ` set dump \<and> ''requestId'' \<notin> fst ` set dump"

definition fresh_id :: "string \<Rightarrow> kyok_link \<Rightarrow> bool" where
  "fresh_id r l \<longleftrightarrow> r \<notin> st_id ` set (k_streams l)"

definition live_stream :: "nat \<Rightarrow> kyok_link \<Rightarrow> bool" where
  "live_stream i l \<longleftrightarrow> i < length (k_streams l) \<and> st_end (k_streams l ! i) = None"

definition queued :: "nat \<Rightarrow> kyok_link \<Rightarrow> bool" where
  "queued i l \<longleftrightarrow> st_taken (k_streams l ! i) < length (st_items (k_streams l ! i))"

inductive kyok_step ::
  "('c, 'z) llm_core_scheme \<Rightarrow> ('c \<Rightarrow> 'c \<Rightarrow> bool) \<Rightarrow> 'c ksession \<Rightarrow> 'c ksession \<Rightarrow> bool"
  for F W where
  k_reads: "ks_phase s \<noteq> Gone \<Longrightarrow> ks_pending s = None \<Longrightarrow> m \<noteq> Disconnect \<Longrightarrow>
    on_kyok_message F m s = (None, s') \<Longrightarrow> kyok_step F W s s'"
| k_raises: "ks_phase s \<noteq> Gone \<Longrightarrow> ks_pending s = None \<Longrightarrow> m \<noteq> Disconnect \<Longrightarrow>
    on_kyok_message F m s = (Some e, s') \<Longrightarrow> kyok_step F W s (kyok_teardown F s')"
| k_resumes: "ks_pending s = Some p \<Longrightarrow> ks_phase s \<noteq> Gone \<Longrightarrow>
    resume_pending F p s = (None, s') \<Longrightarrow> kyok_step F W s s'"
| k_fails: "ks_pending s = Some p \<Longrightarrow> ks_phase s \<noteq> Gone \<Longrightarrow>
    resume_pending F p s = (Some e, s') \<Longrightarrow> kyok_step F W s (kyok_teardown F s')"
| k_leaves: "ks_phase s \<noteq> Gone \<Longrightarrow> kyok_step F W s (kyok_teardown F s)"
| k_asks: "plain_dump dump \<Longrightarrow> fresh_id r (ks_link s) \<Longrightarrow>
    kyok_step F W s (s\<lparr>ks_link := complete r dump (ks_link s)\<rparr>)"
| k_takes: "live_stream i (ks_link s) \<Longrightarrow> queued i (ks_link s) \<Longrightarrow>
    kyok_step F W s (s\<lparr>ks_link := take_item (validate_chunk F) i (ks_link s)\<rparr>)"
| k_waits: "live_stream i (ks_link s) \<Longrightarrow> \<not> queued i (ks_link s) \<Longrightarrow>
    kyok_step F W s (s\<lparr>ks_link := wait_item i (ks_link s)\<rparr>)"
| k_gaps: "live_stream i (ks_link s) \<Longrightarrow> \<not> queued i (ks_link s) \<Longrightarrow>
    kyok_step F W s (s\<lparr>ks_link := gap_timeout i (ks_link s)\<rparr>)"
| k_drops: "live_stream i (ks_link s) \<Longrightarrow>
    kyok_step F W s (s\<lparr>ks_link := drop_stream i (ks_link s)\<rparr>)"
| k_writes: "ks_phase s = Opened \<Longrightarrow> k_outbound (ks_link s) \<noteq> [] \<Longrightarrow> kyok_step F W s (kyok_write s)"
| k_send_fails: "ks_phase s = Opened \<Longrightarrow> k_outbound (ks_link s) \<noteq> [] \<Longrightarrow> kyok_step F W s (kyok_writer_dies s)"
| k_world: "W (ks_core s) c' \<Longrightarrow> kyok_step F W s (s\<lparr>ks_core := c'\<rparr>)"

definition kyok_init :: "('c, 'z) llm_core_scheme \<Rightarrow> nat \<Rightarrow> 'c ksession \<Rightarrow> bool" where
  "kyok_init F cid s \<longleftrightarrow> (\<exists>first c. kyok_open F cid first c = KOpen s)"

end
