(* ===== verification/Kyok_Facts.thy ===== *)
theory Kyok_Facts
  imports Kyok_Socket
begin

text \<open>
  The library behind the KYOK socket's properties: the invariant of the answers table, that every
  operation keeps it, and the interpretation of the machine contracts on the socket.
\<close>

section \<open>The answers table\<close>

definition table_inv :: "(obj \<Rightarrow> exn + json) \<Rightarrow> kyok_link \<Rightarrow> bool" where
  "table_inv V l \<longleftrightarrow>
     distinct (map st_id (k_streams l)) \<and>
     (\<forall>r i. k_answers l r = Some i \<longrightarrow> i < length (k_streams l) \<and> st_id (k_streams l ! i) = r \<and>
        (st_end (k_streams l ! i) = None \<or> \<not> st_started (k_streams l ! i))) \<and>
     (\<forall>i < length (k_streams l). stream_ok V (k_streams l ! i))"

text \<open>Every stream that has not ended can be answered.\<close>

definition covers :: "kyok_link \<Rightarrow> bool" where
  "covers l \<longleftrightarrow>
     (\<forall>i < length (k_streams l). st_end (k_streams l ! i) = None \<longrightarrow>
        k_answers l (st_id (k_streams l ! i)) = Some i)"

lemma table_inv_empty [simp]:
  "table_inv V \<lparr>k_conn = k, k_outbound = out, k_answers = Map.empty, k_streams = []\<rparr>"
  "covers \<lparr>k_conn = k, k_outbound = out, k_answers = Map.empty, k_streams = []\<rparr>"
  by (simp_all add: table_inv_def covers_def)

lemma table_inv_put [simp]:
  "table_inv V (k_put f l) \<longleftrightarrow> table_inv V l" "covers (k_put f l) \<longleftrightarrow> covers l"
  by (simp_all add: table_inv_def covers_def k_put_def)

lemma table_inv_outbound [simp]:
  "table_inv V (l\<lparr>k_outbound := out\<rparr>) \<longleftrightarrow> table_inv V l" "covers (l\<lparr>k_outbound := out\<rparr>) \<longleftrightarrow> covers l"
  by (simp_all add: table_inv_def covers_def)

lemma ids_update:
  "st_id st = st_id (xs ! i) \<Longrightarrow> i < length xs \<Longrightarrow> map st_id (xs[i := st]) = map st_id xs"
  by (simp add: map_update) (metis list_update_id nth_map)

lemma distinct_ids:
  "distinct (map st_id xs) \<Longrightarrow> i < length xs \<Longrightarrow> j < length xs \<Longrightarrow>
   st_id (xs ! i) = st_id (xs ! j) \<Longrightarrow> i = j"
  using nth_eq_iff_index_eq [of "map st_id xs" i j] by simp

lemma update_table:
  assumes "table_inv V l" and "i < length (k_streams l)" and "st_id st = st_id (k_streams l ! i)"
    and "stream_ok V st" and "st_end st = None \<or> \<not> st_started st"
  shows "table_inv V (l\<lparr>k_streams := (k_streams l)[i := st]\<rparr>)"
  using assms by (auto simp: table_inv_def ids_update nth_list_update)

lemma update_covers:
  assumes "covers l" and "i < length (k_streams l)" and "st_id st = st_id (k_streams l ! i)"
    and "st_end st = None \<longrightarrow> st_end (k_streams l ! i) = None"
  shows "covers (l\<lparr>k_streams := (k_streams l)[i := st]\<rparr>)"
  using assms by (auto simp: covers_def nth_list_update)

lemma end_table:
  assumes "table_inv V l" and "i < length (k_streams l)" and "st_id st = st_id (k_streams l ! i)"
    and "stream_ok V (st\<lparr>st_end := Some how\<rparr>)"
  shows "table_inv V (end_stream how i st l)"
proof -
  have d: "distinct (map st_id (k_streams l))" using assms(1) by (simp add: table_inv_def)
  have "map st_id ((k_streams l)[i := st\<lparr>st_end := Some how\<rparr>]) = map st_id (k_streams l)"
    using assms(2,3) by (simp add: ids_update)
  with assms d show ?thesis
    by (auto simp: table_inv_def end_stream_def nth_list_update)
qed

lemma end_covers:
  assumes "covers l" and "distinct (map st_id (k_streams l))"
    and "i < length (k_streams l)" and "st_id st = st_id (k_streams l ! i)"
  shows "covers (end_stream how i st l)"
  using assms distinct_ids [OF assms(2)]
  by (auto simp: covers_def end_stream_def nth_list_update)

lemma live_simps:
  "live_stream i l \<Longrightarrow> i < length (k_streams l)" "live_stream i l \<Longrightarrow> st_end (k_streams l ! i) = None"
  by (simp_all add: live_stream_def)

lemma table_distinct: "table_inv V l \<Longrightarrow> distinct (map st_id (k_streams l))"
  by (simp add: table_inv_def)

lemma table_stream_ok: "table_inv V l \<Longrightarrow> i < length (k_streams l) \<Longrightarrow> stream_ok V (k_streams l ! i)"
  by (simp add: table_inv_def)

section \<open>Every operation on the object keeps both\<close>

lemma put_item_table:
  "table_inv V l \<Longrightarrow> k_answers l r = Some i \<Longrightarrow> table_inv V (put_item it i l)"
  unfolding put_item_def
  by (rule update_table) (auto simp: table_inv_def intro: stream_ok_fed)

lemma put_item_covers: "covers l \<Longrightarrow> i < length (k_streams l) \<Longrightarrow> covers (put_item it i l)"
  unfolding put_item_def by (rule update_covers) simp_all

lemma feed_table: "table_inv V l \<Longrightarrow> table_inv V (snd (feed r it l))"
  by (auto simp: feed_def intro: put_item_table split: option.splits)

lemma feed_covers: "table_inv V l \<Longrightarrow> covers l \<Longrightarrow> covers (snd (feed r it l))"
  by (auto simp: feed_def table_inv_def intro!: put_item_covers split: option.splits)

lemma complete_table:
  "table_inv V l \<Longrightarrow> fresh_id r l \<Longrightarrow> table_inv V (complete r dump l)"
  by (simp only: complete_def table_inv_put)
     (auto simp: table_inv_def fresh_id_def nth_append less_Suc_eq stream_ok_def relayed_def)

lemma complete_covers: "covers l \<Longrightarrow> fresh_id r l \<Longrightarrow> covers (complete r dump l)"
  by (simp only: complete_def table_inv_put)
     (auto simp: covers_def fresh_id_def nth_append less_Suc_eq)

lemma step_stream_kept:
  assumes "live_stream i l" and "st_end (step_stream V (k_streams l ! i)) = None"
  shows "take_item V i l = l\<lparr>k_streams := (k_streams l)[i := step_stream V (k_streams l ! i)]\<rparr>"
  using assms by (auto simp: take_item_step live_simps Let_def)

lemma end_same: "st_end st = x \<Longrightarrow> st\<lparr>st_end := x\<rparr> = st"
  by (cases st) simp

lemma step_stream_ended:
  assumes "live_stream i l" and "st_end (step_stream V (k_streams l ! i)) = Some how"
  shows "take_item V i l = end_stream how i (step_stream V (k_streams l ! i)) l"
  using assms by (simp add: take_item_step live_simps Let_def end_stream_def end_same [OF assms(2)])

lemma take_item_table:
  assumes "table_inv V l" and "live_stream i l" and "queued i l"
  shows "table_inv V (take_item V i l)"
proof -
  let ?st = "step_stream V (k_streams l ! i)"
  have ok: "stream_ok V ?st"
    using assms by (auto intro!: stream_ok_step table_stream_ok simp: live_stream_def queued_def)
  show ?thesis
  proof (cases "st_end ?st")
    case None
    then show ?thesis
      using assms ok by (simp add: step_stream_kept live_simps update_table)
  next
    case (Some how)
    have "table_inv V (end_stream how i ?st l)"
      using assms(1,2) ok by (intro end_table) (simp_all add: live_simps end_same [OF Some])
    then show ?thesis using assms(2) Some by (simp add: step_stream_ended)
  qed
qed

lemma take_item_covers:
  assumes "table_inv V l" and "covers l" and "live_stream i l"
  shows "covers (take_item V i l)"
proof (cases "st_end (step_stream V (k_streams l ! i))")
  case None
  then show ?thesis
    using assms by (simp add: step_stream_kept live_simps update_covers)
next
  case (Some how)
  then show ?thesis
    using assms by (simp add: step_stream_ended live_simps end_covers table_distinct)
qed

lemma wait_item_table: "table_inv V l \<Longrightarrow> live_stream i l \<Longrightarrow> table_inv V (wait_item i l)"
  unfolding wait_item_def
  by (rule update_table) (simp_all add: live_simps stream_ok_started table_stream_ok)

lemma wait_item_covers: "covers l \<Longrightarrow> live_stream i l \<Longrightarrow> covers (wait_item i l)"
  unfolding wait_item_def by (rule update_covers) (simp_all add: live_simps)

lemma gap_timeout_table: "table_inv V l \<Longrightarrow> live_stream i l \<Longrightarrow> table_inv V (gap_timeout i l)"
  unfolding gap_timeout_def
  by (rule end_table)
     (simp_all add: live_simps stream_ok_started stream_ok_gap table_stream_ok)

lemma gap_timeout_covers:
  "table_inv V l \<Longrightarrow> covers l \<Longrightarrow> live_stream i l \<Longrightarrow> covers (gap_timeout i l)"
  unfolding gap_timeout_def by (rule end_covers) (simp_all add: live_simps table_distinct)

lemma drop_stream_table: "table_inv V l \<Longrightarrow> live_stream i l \<Longrightarrow> table_inv V (drop_stream i l)"
  by (simp add: drop_stream_def Let_def)
     (auto intro!: end_table update_table simp: live_simps stream_ok_abandon table_stream_ok)

lemma drop_stream_covers:
  "table_inv V l \<Longrightarrow> covers l \<Longrightarrow> live_stream i l \<Longrightarrow> covers (drop_stream i l)"
  by (simp add: drop_stream_def Let_def)
     (auto intro!: end_covers update_covers simp: live_simps table_distinct)

lemma fail_pending_ids: "map st_id (k_streams (fail_pending l)) = map st_id (k_streams l)"
  by (rule nth_equalityI) (simp_all add: link_simps fail_pending_nth)

lemma fail_pending_table: "table_inv V l \<Longrightarrow> table_inv V (fail_pending l)"
  unfolding table_inv_def
  by (simp add: fail_pending_ids link_simps fail_pending_nth stream_ok_fed)

section \<open>The session\<close>

definition k_said :: "'c ksession \<Rightarrow> obj list" where
  "k_said s = ks_wire s @ (case ks_close s of None \<Rightarrow> [] | Some f \<Rightarrow> [f]) @ k_outbound (ks_link s)"

text \<open>
  What a step other than the writer's does to the socket itself, and to the table: \<open>keeps V\<close>
  is what the operations above have in common.
\<close>

definition k_grows :: "'c ksession \<Rightarrow> 'c ksession \<Rightarrow> bool" where
  "k_grows s t \<longleftrightarrow>
     k_conn (ks_link t) = k_conn (ks_link s) \<and> ks_wire t = ks_wire s \<and> ks_close t = ks_close s \<and>
     ks_phase t = ks_phase s \<and> prefix (k_outbound (ks_link s)) (k_outbound (ks_link t))"

definition keeps :: "(obj \<Rightarrow> exn + json) \<Rightarrow> kyok_link \<Rightarrow> kyok_link \<Rightarrow> bool" where
  "keeps V l l' \<longleftrightarrow>
     (table_inv V l \<longrightarrow> table_inv V l' \<and> (covers l \<longrightarrow> covers l')) \<and>
     map st_id (k_streams l') = map st_id (k_streams l)"

lemma k_grows_refl [simp]: "k_grows s s"
  by (simp add: k_grows_def)

lemma k_grows_core [simp]: "k_grows s (s\<lparr>ks_core := c\<rparr>)"
  by (simp add: k_grows_def)

lemma k_grows_say [simp]: "k_grows s (k_say f s)"
  by (simp add: k_grows_def k_say_def link_simps)

lemma keeps_refl [simp]: "keeps V l l"
  by (simp add: keeps_def)

lemma keeps_say [simp]: "keeps V (ks_link s) (ks_link (k_say f s))"
  by (simp add: keeps_def k_say_def link_simps)

lemma feed_ids: "table_inv V l \<Longrightarrow> map st_id (k_streams (snd (feed r it l))) = map st_id (k_streams l)"
  by (auto simp: feed_def put_item_def table_inv_def ids_update split: option.splits)

lemma resume_grows:
  "resume_pending F p s = (x, s') \<Longrightarrow> k_grows s s' \<and> keeps V (ks_link s) (ks_link s')"
  by (auto simp: resume_pending_def Let_def k_grows_def k_say_def keeps_def link_simps
      split: pending.splits prod.splits sum.splits if_splits)

lemma feed_keeps: "table_inv V l \<Longrightarrow> keeps V l (snd (feed r it l))"
  by (simp add: keeps_def feed_table feed_covers feed_ids)

lemma feed_frame [link_simps]:
  "k_conn (snd (feed r it l)) = k_conn l" "k_outbound (snd (feed r it l)) = k_outbound l"
  "k_answers (snd (feed r it l)) = k_answers l"
  by (auto simp: feed_def link_simps split: option.splits)

definition moves :: "(obj \<Rightarrow> exn + json) \<Rightarrow> 'c ksession \<Rightarrow> 'c ksession \<Rightarrow> bool" where
  "moves V s t \<longleftrightarrow> (table_inv V (ks_link s) \<longrightarrow> k_grows s t \<and> keeps V (ks_link s) (ks_link t))"

lemma moves_refl [simp]: "moves V s s"
  by (simp add: moves_def)

lemma moves_say [simp]: "moves V s (k_say f s)"
  by (simp add: moves_def)

lemma moves_pending [simp]: "moves V s (s\<lparr>ks_pending := p\<rparr>)"
  by (simp add: moves_def k_grows_def)

lemma moves_feed: "moves V s (s\<lparr>ks_link := snd (feed r it (ks_link s))\<rparr>)"
  by (simp add: moves_def k_grows_def feed_keeps link_simps)

lemma moves_feed_say: "moves V s (k_say f (s\<lparr>ks_link := snd (feed r it (ks_link s))\<rparr>))"
  by (simp add: moves_def k_grows_def feed_keeps link_simps k_say_def keeps_def feed_table feed_covers feed_ids)

lemma moves_llm_register: "moves V s (snd (on_llm_register d s))"
  by (simp add: on_llm_register_def split: option.splits json.splits)

lemma moves_delete_model: "moves V s (snd (on_delete_model d s))"
  by (simp add: on_delete_model_def split: json.splits)

lemma moves_on_answer: "moves V s (snd (on_answer d s))"
  by (simp add: on_answer_def Let_def case_prod_unfold moves_feed moves_feed_say
      split: json.splits sum.splits)

lemma moves_frame: "moves V s (snd (on_kyok_frame d s))"
  by (simp add: on_kyok_frame_def Let_def moves_llm_register moves_delete_model moves_on_answer)

lemma moves_message: "moves V s (snd (on_kyok_message K m s))"
  by (simp add: on_kyok_message_def moves_frame split: sum.splits option.splits)

lemma on_answer_table: "k_answers (ks_link (snd (on_answer d s))) = k_answers (ks_link s)"
  by (simp add: on_answer_def Let_def case_prod_unfold link_simps k_say_def
      split: json.splits sum.splits)

lemma moves_table: "k_answers (ks_link (snd (on_kyok_message K m s))) = k_answers (ks_link s)"
  by (simp add: on_kyok_message_def on_kyok_frame_def Let_def on_answer_table on_llm_register_def
      on_delete_model_def link_simps k_say_def
      split: json.splits sum.splits option.splits)

lemma message_grows:
  "on_kyok_message K m s = (x, s') \<Longrightarrow> table_inv V (ks_link s) \<Longrightarrow>
   k_grows s s' \<and> keeps V (ks_link s) (ks_link s')"
  using moves_message [of V s K m] by (simp add: moves_def)

section \<open>The invariant of an open KYOK socket\<close>

definition requested :: "string \<Rightarrow> obj list \<Rightarrow> bool" where
  "requested r fs \<longleftrightarrow> (\<exists>f \<in> set fs. dget f ''type'' = JStr ''completionRequest'' \<and>
     dget f ''requestId'' = JStr r)"

definition kyok_inv :: "('c, 'z) llm_core_scheme \<Rightarrow> conn \<Rightarrow> 'c ksession \<Rightarrow> bool" where
  "kyok_inv F k s \<longleftrightarrow>
     k_conn (ks_link s) = k \<and> table_inv (validate_chunk F) (ks_link s) \<and>
     (ks_phase s \<noteq> Gone \<longrightarrow> covers (ks_link s)) \<and>
     (\<exists>answer rest. k_said s = welcome_frame (llm_identity_key F) answer # rest) \<and>
     (ks_phase s = Opened \<longrightarrow> ks_close s = None) \<and>
     (\<forall>r \<in> set (map st_id (k_streams (ks_link s))). requested r (k_said s))"

lemma requested_prefix: "requested r fs \<Longrightarrow> prefix fs gs \<Longrightarrow> requested r gs"
  by (auto simp: requested_def prefix_def)

lemma k_said_grows: "k_grows s t \<Longrightarrow> prefix (k_said s) (k_said t)"
  by (auto simp: k_grows_def k_said_def prefix_def split: option.splits)

lemma kyok_inv_keeps:
  assumes "k_grows s t" and "keeps (validate_chunk F) (ks_link s) (ks_link t)" and "kyok_inv F k s"
  shows "kyok_inv F k t"
proof -
  have p: "prefix (k_said s) (k_said t)" using assms(1) by (rule k_said_grows)
  then obtain more where "k_said t = k_said s @ more" by (auto simp: prefix_def)
  with assms(3) have w: "\<exists>answer rest. k_said t = welcome_frame (llm_identity_key F) answer # rest"
    by (auto simp: kyok_inv_def)
  from assms(2,3) requested_prefix [OF _ p]
  have "\<forall>r \<in> set (map st_id (k_streams (ks_link t))). requested r (k_said t)"
    by (simp only: kyok_inv_def keeps_def) blast
  with assms w show ?thesis by (simp add: kyok_inv_def keeps_def k_grows_def)
qed

text \<open>The operations on a stream change nothing of the socket.\<close>

lemma stream_op_frame [link_simps]:
  "k_conn (end_stream how i st l) = k_conn l" "k_outbound (end_stream how i st l) = k_outbound l"
  "k_conn (take_item V i l) = k_conn l" "k_outbound (take_item V i l) = k_outbound l"
  "k_conn (wait_item i l) = k_conn l" "k_outbound (wait_item i l) = k_outbound l"
  "k_conn (gap_timeout i l) = k_conn l" "k_outbound (gap_timeout i l) = k_outbound l"
  "k_conn (drop_stream i l) = k_conn l" "k_outbound (drop_stream i l) = k_outbound l"
  by (simp_all add: take_item_def wait_item_def gap_timeout_def drop_stream_def end_stream_def Let_def
      split: answer_item.splits sum.splits)

lemma stream_op_ids:
  assumes "live_stream i l"
  shows "map st_id (k_streams (take_item V i l)) = map st_id (k_streams l)"
    and "map st_id (k_streams (wait_item i l)) = map st_id (k_streams l)"
    and "map st_id (k_streams (gap_timeout i l)) = map st_id (k_streams l)"
    and "map st_id (k_streams (drop_stream i l)) = map st_id (k_streams l)"
  using assms
  by (simp_all add: take_item_step wait_item_def gap_timeout_def drop_stream_def end_stream_def
      Let_def live_simps ids_update)

lemma stream_op_keeps:
  assumes "live_stream i l"
  shows "queued i l \<Longrightarrow> keeps V l (take_item V i l)"
    and "keeps V l (wait_item i l)" and "keeps V l (gap_timeout i l)" and "keeps V l (drop_stream i l)"
  using assms unfolding keeps_def
  by (simp_all add: stream_op_ids take_item_table take_item_covers wait_item_table wait_item_covers
      gap_timeout_table gap_timeout_covers drop_stream_table drop_stream_covers)

lemma k_grows_link:
  "k_conn l = k_conn (ks_link s) \<Longrightarrow> k_outbound l = k_outbound (ks_link s) \<Longrightarrow>
   k_grows s (s\<lparr>ks_link := l\<rparr>)"
  by (simp add: k_grows_def)

lemma kyok_inv_teardown: "kyok_inv F k s \<Longrightarrow> kyok_inv F k (kyok_teardown F s)"
  unfolding kyok_inv_def
  by (simp only: k_said_def kyok_teardown_def Let_def)
     (simp add: link_simps fail_pending_table fail_pending_ids del: set_map)

lemma k_said_write: "ks_close s = None \<Longrightarrow> k_said (kyok_write s) = k_said s"
  by (auto simp: k_said_def kyok_write_def Let_def split: list.splits)

lemma kyok_inv_write:
  assumes "kyok_inv F k s" and "ks_phase s = Opened"
  shows "kyok_inv F k (kyok_write s)"
proof -
  from assms have "k_said (kyok_write s) = k_said s" by (simp add: kyok_inv_def k_said_write)
  with assms show ?thesis
    by (auto simp: kyok_inv_def kyok_write_def Let_def split: list.splits)
qed

lemma complete_frame_said:
  "k_said (s\<lparr>ks_link := complete r dump (ks_link s)\<rparr>) = k_said s @ [completion_frame r dump]"
  by (simp add: k_said_def complete_def k_put_def)

lemma kyok_inv_complete:
  assumes "kyok_inv F k s" and "fresh_id r (ks_link s)" and "plain_dump dump"
  shows "kyok_inv F k (s\<lparr>ks_link := complete r dump (ks_link s)\<rparr>)"
proof -
  let ?s = "s\<lparr>ks_link := complete r dump (ks_link s)\<rparr>"
  have new: "requested r (k_said ?s)"
    using assms(3) unfolding complete_frame_said
    by (simp add: requested_def plain_dump_def completion_frame_get)
  have old: "requested q (k_said ?s)" if "requested q (k_said s)" for q
    using that unfolding complete_frame_said by (auto simp: requested_def)
  have "map st_id (k_streams (complete r dump (ks_link s))) = map st_id (k_streams (ks_link s)) @ [r]"
    by (simp add: complete_def k_put_def)
  with new old assms(1)
  have "\<forall>q \<in> set (map st_id (k_streams (ks_link ?s))). requested q (k_said ?s)"
    by (auto simp: kyok_inv_def)
  moreover have "k_conn (complete r dump (ks_link s)) = k_conn (ks_link s)"
    by (simp add: complete_def k_put_def)
  ultimately show ?thesis
    using assms(1,2) complete_frame_said [of r dump s] unfolding kyok_inv_def
    by (auto simp: complete_table complete_covers)
qed

lemma kyok_writer_dies_keeps [simp]:
  "ks_link (kyok_writer_dies s) = ks_link s" "ks_wire (kyok_writer_dies s) = ks_wire s"
  "ks_close (kyok_writer_dies s) = ks_close s" "ks_pending (kyok_writer_dies s) = ks_pending s"
  "k_said (kyok_writer_dies s) = k_said s" "ks_phase (kyok_writer_dies s) = Closing"
  by (simp_all add: kyok_writer_dies_def k_said_def)

lemma kyok_inv_dies: "kyok_inv F k s \<Longrightarrow> ks_phase s = Opened \<Longrightarrow> kyok_inv F k (kyok_writer_dies s)"
  by (simp add: kyok_inv_def)

lemma kyok_step_cases:
  assumes "kyok_step F W s t" and "kyok_inv F k s"
  shows "(k_grows s t \<and> keeps (validate_chunk F) (ks_link s) (ks_link t)) \<or>
    (\<exists>u. k_grows s u \<and> keeps (validate_chunk F) (ks_link s) (ks_link u) \<and> t = kyok_teardown F u) \<or>
    ((t = kyok_write s \<or> t = kyok_writer_dies s) \<and> ks_phase s = Opened) \<or>
    (\<exists>r dump. fresh_id r (ks_link s) \<and> plain_dump dump \<and> t = s\<lparr>ks_link := complete r dump (ks_link s)\<rparr>)"
proof -
  have inv: "table_inv (validate_chunk F) (ks_link s)" using assms(2) by (simp add: kyok_inv_def)
  show ?thesis
    using assms(1)
  proof cases
    case (k_reads m)
    with message_grows inv show ?thesis by blast
  next
    case (k_raises m e s')
    with message_grows inv show ?thesis by blast
  next
    case (k_resumes p)
    with resume_grows show ?thesis by blast
  next
    case (k_fails p e s')
    with resume_grows show ?thesis by blast
  next
    case k_leaves
    then show ?thesis using k_grows_refl keeps_refl by blast
  next
    case (k_asks dump r)
    then show ?thesis by blast
  next
    case (k_takes i)
    then show ?thesis by (simp add: k_grows_link stream_op_keeps link_simps)
  next
    case (k_waits i)
    then show ?thesis by (simp add: k_grows_link stream_op_keeps link_simps)
  next
    case (k_gaps i)
    then show ?thesis by (simp add: k_grows_link stream_op_keeps link_simps)
  next
    case (k_drops i)
    then show ?thesis by (simp add: k_grows_link stream_op_keeps link_simps)
  next
    case k_writes
    then show ?thesis by simp
  next
    case k_send_fails
    then show ?thesis by simp
  next
    case (k_world c')
    then show ?thesis by simp
  qed
qed

lemma kyok_inv_step: "kyok_inv F k s \<Longrightarrow> kyok_step F W s t \<Longrightarrow> kyok_inv F k t"
  by (frule (1) kyok_step_cases [rotated])
     (blast intro: kyok_inv_keeps kyok_inv_teardown kyok_inv_write kyok_inv_dies kyok_inv_complete)

lemma k_said_teardown [simp]: "k_said (kyok_teardown F s) = k_said s"
  by (simp add: k_said_def kyok_teardown_def Let_def link_simps)

lemma kyok_said_step:
  assumes "kyok_inv F k s" and "kyok_step F W s t"
  shows "prefix (k_said s) (k_said t)"
  using kyok_step_cases [OF assms(2,1)] assms(1)
  by (auto dest: k_said_grows simp: complete_frame_said k_said_write kyok_inv_def)

lemma kyok_open_KOpen:
  assumes "kyok_open F cid first c = KOpen s"
  obtains hello key answer where
    "receive_hello F first = Inr (GotHello hello)" and "hello_complete hello"
    and "dget hello ''publicKey'' = JStr key"
    and "attach_llm_provider F \<lparr>conn_id = cid, conn_key = key, conn_max = JNull\<rparr>
           (dget hello ''ticket'') (dget hello ''nonce'') (dget hello ''proof'') c = (Inr answer, ks_core s)"
    and "ks_link s = \<lparr>k_conn = \<lparr>conn_id = cid, conn_key = key, conn_max = JNull\<rparr>,
           k_outbound = [welcome_frame (llm_identity_key F) answer], k_answers = Map.empty, k_streams = []\<rparr>"
    and "ks_wire s = []" and "ks_close s = None" and "ks_pending s = None" and "ks_phase s = Opened"
proof -
  from assms obtain hello where h: "receive_hello F first = Inr (GotHello hello)"
    and e: "kyok_hello_error hello = None"
    by (auto simp: kyok_open_def split: sum.splits hello_outcome.splits option.splits)
  then have ok: "hello_complete hello" by (simp add: kyok_hello_ok)
  then obtain key where k: "dget hello ''publicKey'' = JStr key" "key \<noteq> []"
    by (rule hello_complete_key)
  have ps: "py_str (JStr key) = key" by (simp add: py_str_def)
  from assms h e k that [OF h ok k(1)] show ?thesis
    by (auto simp: kyok_open_def new_llm_provider_ok ps k_put_def
        split: prod.splits sum.splits if_splits)
qed

lemma kyok_inv_init: "kyok_init F cid s \<Longrightarrow> kyok_inv F (k_conn (ks_link s)) s"
  unfolding kyok_init_def
  by (auto elim!: kyok_open_KOpen simp: kyok_inv_def k_said_def)

interpretation kv: machine_log
  "\<lambda>s. kyok_init F cid s \<and> k_conn (ks_link s) = k" "kyok_step F W" "kyok_inv F k" k_said
  for F :: "('c, 'z) llm_core_scheme" and cid k W
  by unfold_locales (auto intro: kyok_inv_init kyok_inv_step kyok_said_step)

lemma kyok_reach_inv:
  assumes "reach (kyok_init F cid) (kyok_step F W) s"
  obtains k where "kyok_inv F k s"
proof -
  obtain k where "reach (\<lambda>s. kyok_init F cid s \<and> k_conn (ks_link s) = k) (kyok_step F W) s"
    using assms by (induction rule: reach.induct) (blast intro: reach.intros)+
  then have "kyok_inv F k s" by (rule kv.reach_inv)
  then show thesis by (rule that)
qed

end
