(* ===== verification/Kyok_Props.thy ===== *)
theory Kyok_Props
  imports Kyok_Facts
begin

text \<open>
  What the KYOK socket guarantees: how it opens, whose answers it accepts, what the consumer of a
  completion sees, and what a disconnect does to the completions in flight.
\<close>

section \<open>A sample\<close>

definition sample_llm :: "(string \<times> json) list \<Rightarrow> unit llm_core" where
  "sample_llm texts =
     \<lparr>json_loads = (\<lambda>t. case map_of texts t of
                         Some j \<Rightarrow> Inr j | None \<Rightarrow> Inl (Exn JSONDecodeError ''Expecting value'')),
      check_connect = (\<lambda>k t n p m. None), validate_registration = (\<lambda>d. Inl ''name''),
      validate_verdict = (\<lambda>i w r. None),
      is_funduq_error = is_class FunduqError, is_value_error = is_class ValueError,
      llm_identity_key = ''funduq1'',
      attach_llm_provider = (\<lambda>k t n p c.
        (if t = JStr ''ticket1'' then Inr (JStr ''answer1'') else Inl (Exn InvalidRegistration ''spent''), c)),
      detach_llm_provider = (\<lambda>key i c. c),
      register_llm_providers = (\<lambda>k ms meta c. (Inr ms, c)),
      delete_llm_offering = (\<lambda>k n c. (Inr (), c)),
      validate_chunk = (\<lambda>d. if nonempty_str (dget d ''id'') then Inr (JObj d)
                            else Inl (Exn ValidationError ''id''))\<rparr>"

definition llm_chunk :: obj where
  "llm_chunk = [(''id'', JStr ''c1'')]"

definition llm_texts :: "(string \<times> json) list" where
  "llm_texts =
     [(''hello'', JObj [(''type'', JStr ''hello''), (''version'', JInt 4), (''publicKey'', JStr ''key1''),
        (''ticket'', JStr ''ticket1''), (''nonce'', JStr ''nonce1''), (''proof'', JStr ''proof1'')]),
      (''chunk'', JObj [(''type'', JStr ''chunk''), (''requestId'', JStr ''r1''), (''data'', JObj llm_chunk)]),
      (''stray'', JObj [(''type'', JStr ''chunk''), (''requestId'', JStr ''r2''), (''data'', JObj llm_chunk)]),
      (''done'', JObj [(''type'', JStr ''done''), (''requestId'', JStr ''r1'')])]"

definition llm_session :: "unit ksession" where
  "llm_session =
     \<lparr>ks_link = \<lparr>k_conn = \<lparr>conn_id = 1, conn_key = ''key1'', conn_max = JNull\<rparr>,
        k_outbound = [welcome_frame ''funduq1'' (JStr ''answer1'')], k_answers = Map.empty, k_streams = []\<rparr>,
      ks_core = (), ks_wire = [], ks_close = None, ks_pending = None, ks_phase = Opened\<rparr>"

lemma llm_open:
  "kyok_open (sample_llm llm_texts) 1 (Some (TextMessage ''hello'')) () = KOpen llm_session"
  by (simp add: kyok_open_def receive_hello_def parse_frame_def kyok_hello_error_def
      WIRE_VERSION_def new_llm_provider_ok py_str_def k_put_def sample_llm_def llm_texts_def llm_session_def)

text \<open>One completion asked for, and then the states its answer goes through.\<close>

definition llm_asked :: "unit ksession" where
  "llm_asked = llm_session\<lparr>ks_link := complete ''r1'' [(''body'', JObj [])] (ks_link llm_session)\<rparr>"

lemma llm_asked_reach:
  "reach (kyok_init (sample_llm llm_texts) 1) (kyok_step (sample_llm llm_texts) (=)) llm_asked"
  unfolding llm_asked_def
proof (rule reach_next, rule reach_start)
  show "kyok_init (sample_llm llm_texts) 1 llm_session"
    unfolding kyok_init_def by (intro exI) (rule llm_open)
  show "kyok_step (sample_llm llm_texts) (=) llm_session
      (llm_session\<lparr>ks_link := complete ''r1'' [(''body'', JObj [])] (ks_link llm_session)\<rparr>)"
    by (rule k_asks) (simp_all add: plain_dump_def fresh_id_def llm_session_def)
qed

lemma llm_asked_simps:
  "k_streams (ks_link llm_asked) =
     [\<lparr>st_id = ''r1'', st_items = [], st_taken = 0, st_seen = [], st_started = False, st_end = None\<rparr>]"
  "k_answers (ks_link llm_asked) = [''r1'' \<mapsto> 0]"
  "ks_phase llm_asked = Opened" "ks_pending llm_asked = None"
  by (simp_all add: llm_asked_def llm_session_def complete_def k_put_def)

section \<open>Opening\<close>

text \<open>An LLM provider's socket opens only for a complete hello of wire version 4 whose exact
  ticket, nonce and proof core verified for its exact key, with the welcome as the one queued
  frame and no completion in flight; one that is turned away at the door is closed with the policy
  code.\<close>

theorem kyok_open_proven:
  shows "case kyok_open F cid first c of
      KOpen s \<Rightarrow>
        (\<exists>m hello key answer. first = Some m \<and> parse_frame F m = Inr (Some hello) \<and> hello_complete hello \<and>
           dget hello ''type'' = JStr ''hello'' \<and> dget hello ''publicKey'' = JStr key \<and>
           attach_llm_provider F \<lparr>conn_id = cid, conn_key = key, conn_max = JNull\<rparr>
             (dget hello ''ticket'') (dget hello ''nonce'') (dget hello ''proof'') c = (Inr answer, ks_core s) \<and>
           conn_key (k_conn (ks_link s)) = key \<and>
           k_outbound (ks_link s) = [welcome_frame (llm_identity_key F) answer]) \<and>
        k_answers (ks_link s) = Map.empty \<and> ks_wire s = [] \<and> ks_phase s = Opened
    | KClosedAtDoor code reason c' \<Rightarrow> code = POLICY_VIOLATION
    | KNeverOpened c' \<Rightarrow> c' = c
    | KOpenRaised e c' \<Rightarrow> True"
proof (cases "kyok_open F cid first c")
  case (KOpen s)
  show ?thesis
    unfolding KOpen kyok_door.case
    by (rule kyok_open_KOpen [OF KOpen]) (auto simp: receive_hello_got)
next
  case (KClosedAtDoor code reason c')
  then show ?thesis
    by (auto simp: kyok_open_def receive_hello_def new_llm_provider_ok POLICY_VIOLATION_def
        split: sum.splits hello_outcome.splits option.splits prod.splits if_splits)
next
  case (KNeverOpened c')
  then show ?thesis
    by (auto simp: kyok_open_def new_llm_provider_ok
        split: sum.splits hello_outcome.splits option.splits prod.splits if_splits)
next
  case (KOpenRaised e c')
  then show ?thesis by simp
qed

section \<open>Whose answers are accepted\<close>

text \<open>C7. Membership in this connection's table is what authorizes an answer: an answer frame is
  accepted only for a request id this very socket has carried out in a \<open>completionRequest\<close> frame,
  and while the socket is open the answer to a completion that has not ended is always accepted
  and put on that completion's queue and no other's.\<close>

theorem kyok_answer_authorized:
  assumes "reach (kyok_init F cid) (kyok_step F W) s"
  shows "(fst (feed r item (ks_link s)) \<longrightarrow> requested r (k_said s)) \<and>
    (\<forall>i < length (k_streams (ks_link s)). ks_phase s \<noteq> Gone \<and> st_end (k_streams (ks_link s) ! i) = None \<longrightarrow>
       feed (st_id (k_streams (ks_link s) ! i)) item (ks_link s) = (True, put_item item i (ks_link s)))"
proof -
  obtain k where inv: "kyok_inv F k s" using assms by (rule kyok_reach_inv)
  then have t: "table_inv (validate_chunk F) (ks_link s)" by (simp add: kyok_inv_def)
  have "requested r (k_said s)" if "fst (feed r item (ks_link s))"
  proof -
    from that obtain i where "k_answers (ks_link s) r = Some i"
      by (auto simp: feed_def split: option.splits)
    with t have "i < length (k_streams (ks_link s))" "st_id (k_streams (ks_link s) ! i) = r"
      by (simp_all add: table_inv_def)
    then have "r \<in> set (map st_id (k_streams (ks_link s)))" by auto
    with inv show ?thesis unfolding kyok_inv_def by blast
  qed
  moreover have "feed (st_id (k_streams (ks_link s) ! i)) item (ks_link s) = (True, put_item item i (ks_link s))"
    if "i < length (k_streams (ks_link s))" "ks_phase s \<noteq> Gone" "st_end (k_streams (ks_link s) ! i) = None" for i
    using inv that by (simp add: kyok_inv_def covers_def feed_def)
  ultimately show ?thesis by blast
qed

theorem kyok_answer_authorized_witness:
  "fst (feed ''r1'' DoneItem (ks_link llm_asked)) \<and> requested ''r1'' (k_said llm_asked) \<and>
   \<not> fst (feed ''r2'' DoneItem (ks_link llm_asked))"
proof -
  have "(fst (feed ''r1'' DoneItem (ks_link llm_asked)) \<longrightarrow> requested ''r1'' (k_said llm_asked)) \<and>
    (\<forall>i < length (k_streams (ks_link llm_asked)).
       ks_phase llm_asked \<noteq> Gone \<and> st_end (k_streams (ks_link llm_asked) ! i) = None \<longrightarrow>
       feed (st_id (k_streams (ks_link llm_asked) ! i)) DoneItem (ks_link llm_asked) =
         (True, put_item DoneItem i (ks_link llm_asked)))"
    by (rule kyok_answer_authorized [OF llm_asked_reach])
  then show ?thesis by (simp add: llm_asked_simps feed_def)
qed

text \<open>What a message carries for one request, and the frames of a loop routed to its queue.\<close>

definition carried :: "'z contract_scheme \<Rightarrow> string \<Rightarrow> asgi_message \<Rightarrow> answer_item list" where
  "carried K r m =
     (case parse_frame K m of
        Inr (Some d) \<Rightarrow>
          if dget d ''type'' \<in> {JStr ''chunk'', JStr ''done'', JStr ''error''} \<and> dget d ''requestId'' = JStr r
          then (case frame_item d of Inr it \<Rightarrow> [it] | Inl e \<Rightarrow> []) else []
      | _ \<Rightarrow> [])"

definition items_of :: "nat \<Rightarrow> 'c ksession \<Rightarrow> answer_item list" where
  "items_of i s = st_items (k_streams (ks_link s) ! i)"

lemma items_of_say [simp]: "items_of i (k_say f s) = items_of i s"
  by (simp add: items_of_def k_say_def k_put_def)

lemma items_of_pending [simp]: "items_of i (s\<lparr>ks_pending := p\<rparr>) = items_of i s"
  by (simp add: items_of_def)

lemma items_of_feed:
  assumes "table_inv V (ks_link s)" and "k_answers (ks_link s) r = Some i"
  shows "items_of i (s\<lparr>ks_link := snd (feed q it (ks_link s))\<rparr>) = items_of i s @ (if q = r then [it] else [])"
proof (cases "k_answers (ks_link s) q")
  case None
  with assms show ?thesis by (auto simp: items_of_def feed_def)
next
  case (Some j)
  from assms Some have ij: "i < length (k_streams (ks_link s))" "st_id (k_streams (ks_link s) ! i) = r"
    "st_id (k_streams (ks_link s) ! j) = q" by (simp_all add: table_inv_def)
  show ?thesis
  proof (cases "q = r")
    case True
    with assms Some ij show ?thesis by (simp add: items_of_def feed_def put_item_def)
  next
    case False
    with ij have "i \<noteq> j" by auto
    with False Some ij show ?thesis by (simp add: items_of_def feed_def put_item_def)
  qed
qed

lemma items_of_answer:
  assumes "table_inv V (ks_link s)" and "k_answers (ks_link s) r = Some i"
  shows "items_of i (snd (on_answer d s)) = items_of i s @
    (if dget d ''requestId'' = JStr r then (case frame_item d of Inr it \<Rightarrow> [it] | Inl e \<Rightarrow> []) else [])"
  using items_of_feed [OF assms]
  by (auto simp: on_answer_def Let_def case_prod_unfold split: json.splits sum.splits)

lemma items_of_message:
  assumes "table_inv V (ks_link s)" and "k_answers (ks_link s) r = Some i"
    and "on_kyok_message K m s = (None, s')"
  shows "items_of i s' = items_of i s @ carried K r m"
proof (cases "\<exists>d. parse_frame K m = Inr (Some d)")
  case False
  with assms(3) show ?thesis
    by (auto simp: on_kyok_message_def carried_def split: sum.splits option.splits)
next
  case True
  then obtain d where d: "parse_frame K m = Inr (Some d)" by blast
  have reg: "items_of i (snd (on_llm_register d s)) = items_of i s"
    by (simp add: on_llm_register_def split: option.splits json.splits)
  have del: "items_of i (snd (on_delete_model d s)) = items_of i s"
    by (simp add: on_delete_model_def split: json.splits)
  have s': "on_kyok_frame d s = (None, s')" using assms(3) d by (simp add: on_kyok_message_def)
  consider (odd) "dget d ''type'' \<notin> JStr ` KYOK_FRAME_TYPES"
    | (reg) "dget d ''type'' = JStr ''register''" | (del) "dget d ''type'' = JStr ''deleteModel''"
    | (ans) "dget d ''type'' \<in> {JStr ''chunk'', JStr ''done'', JStr ''error''}"
    by (auto simp: KYOK_FRAME_TYPES_def)
  then show ?thesis
  proof cases
    case odd
    with s' have "items_of i s' = items_of i s"
      by (auto simp: on_kyok_frame_def Let_def split: if_splits)
    with odd d show ?thesis by (auto simp: carried_def KYOK_FRAME_TYPES_def)
  next
    case r: reg
    with s' have "s' = snd (on_llm_register d s)"
      by (simp add: on_kyok_frame_def Let_def KYOK_FRAME_TYPES_def)
    with r d reg show ?thesis by (simp add: carried_def)
  next
    case e: del
    with s' have "s' = snd (on_delete_model d s)"
      by (simp add: on_kyok_frame_def Let_def KYOK_FRAME_TYPES_def)
    with e d del show ?thesis by (simp add: carried_def)
  next
    case ans
    with s' have "s' = snd (on_answer d s)"
      by (auto simp: on_kyok_frame_def Let_def KYOK_FRAME_TYPES_def)
    with ans d items_of_answer [OF assms(1,2), of d] show ?thesis by (simp add: carried_def)
  qed
qed

lemma loop_items:
  assumes "kyok_loop K ms s = (KWaiting, rest, s')"
    and "table_inv V (ks_link s)" and "k_answers (ks_link s) r = Some i"
  shows "items_of i s' = items_of i s @ concat (map (carried K r) ms)"
  using assms
proof (induction ms arbitrary: s)
  case Nil
  then show ?case by simp
next
  case (Cons m ms)
  from Cons.prems(1) obtain u where u: "on_kyok_message K m s = (None, u)"
    and rest: "kyok_loop K ms u = (KWaiting, rest, s')"
    by (auto split: if_splits prod.splits option.splits)
  have g: "keeps V (ks_link s) (ks_link u)" using message_grows [OF u Cons.prems(2)] by simp
  with Cons.prems(2) have t: "table_inv V (ks_link u)" by (simp add: keeps_def)
  have "k_answers (ks_link u) = k_answers (ks_link s)"
    using moves_table [of K m s] u by simp
  with Cons.prems(3) Cons.IH [OF rest t] items_of_message [OF Cons.prems(2,3) u]
  show ?case by simp
qed

text \<open>Completions are multiplexed without mixing: over any run of messages the loop has read,
  the queue of a completion in flight gains exactly the items the messages carried under its own
  request id, in the order they arrived.\<close>

theorem kyok_answers_routed:
  assumes "kyok_loop K ms s = (KWaiting, rest, s')"
    and "table_inv V (ks_link s)" and "k_answers (ks_link s) r = Some i"
  shows "items_of i s' = items_of i s @ concat (map (carried K r) ms)"
  using assms by (rule loop_items)

definition llm_messages :: "asgi_message list" where
  "llm_messages = [TextMessage ''chunk'', TextMessage ''stray'', TextMessage ''done'']"

lemma llm_asked_table: "table_inv V (ks_link llm_asked)"
  by (simp add: table_inv_def llm_asked_simps stream_ok_def)

lemma llm_loop_waits: "fst (kyok_loop (sample_llm llm_texts) llm_messages llm_asked) = KWaiting"
  by (simp add: llm_messages_def on_kyok_message_def parse_frame_def on_kyok_frame_def
      KYOK_FRAME_TYPES_def on_answer_def frame_item_def feed_def put_item_def k_say_def k_put_def
      sample_llm_def llm_texts_def llm_asked_simps Let_def)

lemma llm_loop_carried:
  "concat (map (carried (sample_llm llm_texts) ''r1'') llm_messages) = [Chunk llm_chunk, DoneItem]"
  by (simp add: llm_messages_def carried_def parse_frame_def frame_item_def sample_llm_def llm_texts_def)

theorem kyok_answers_routed_witness:
  "items_of 0 (snd (snd (kyok_loop (sample_llm llm_texts) llm_messages llm_asked))) =
     [Chunk llm_chunk, DoneItem]"
proof -
  have loop: "kyok_loop (sample_llm llm_texts) llm_messages llm_asked =
     (KWaiting, fst (snd (kyok_loop (sample_llm llm_texts) llm_messages llm_asked)),
      snd (snd (kyok_loop (sample_llm llm_texts) llm_messages llm_asked)))"
    by (intro prod_eqI) (simp_all only: llm_loop_waits fst_conv snd_conv)
  have answers: "k_answers (ks_link llm_asked) ''r1'' = Some 0" by (simp add: llm_asked_simps)
  have empty: "items_of 0 llm_asked = []" by (simp add: items_of_def llm_asked_simps)
  show ?thesis
    using kyok_answers_routed [OF loop llm_asked_table answers] unfolding llm_loop_carried empty
    by simp
qed

section \<open>What the consumer sees\<close>

lemma stream_ok_split:
  assumes "stream_ok V st"
  shows "\<exists>cs more. st_items st = cs @ more \<and> relayed V cs (st_seen st) \<and>
    (st_end st = Some Returned \<longrightarrow> (\<exists>rest. more = DoneItem # rest))"
proof -
  let ?t = "take (st_taken st) (st_items st)" and ?d = "drop (st_taken st) (st_items st)"
  have split: "st_items st = ?t @ ?d" by simp
  have e: "ended_ok V ?t (st_seen st) (st_end st)" using assms by (simp add: stream_ok_def)
  consider (midway) "relayed V ?t (st_seen st)" "st_end st \<noteq> Some Returned"
    | (finished) cs where "?t = cs @ [DoneItem]" "relayed V cs (st_seen st)"
    | (raised) cs it where "?t = cs @ [it]" "relayed V cs (st_seen st)" "st_end st \<noteq> Some Returned"
    using e by (cases "(V, ?t, st_seen st, st_end st)" rule: ended_ok.cases) auto
  then show ?thesis
  proof cases
    case midway
    then show ?thesis using split by blast
  next
    case (finished cs)
    then have "st_items st = cs @ DoneItem # ?d" using split by simp
    with finished(2) show ?thesis by blast
  next
    case (raised cs it)
    then have "st_items st = cs @ it # ?d" using split by simp
    with raised(2,3) show ?thesis by blast
  qed
qed

text \<open>C8. What the consumer of a completion has received is, at every moment, the validated image
  of the first items the provider sent for it, all of them chunks: no chunk is skipped, reordered,
  invented or passed on unvalidated. And if the answer ended normally, the provider's own \<open>done\<close>
  came right after exactly those chunks: a truncated answer never looks complete.\<close>

theorem kyok_stream_relays:
  assumes "reach (kyok_init F cid) (kyok_step F W) s" and "i < length (k_streams (ks_link s))"
  shows "\<exists>cs more. items_of i s = cs @ more \<and>
    list_all2 (\<lambda>it x. \<exists>d. it = Chunk d \<and> validate_chunk F d = Inr x) cs (st_seen (k_streams (ks_link s) ! i)) \<and>
    (st_end (k_streams (ks_link s) ! i) = Some Returned \<longrightarrow> (\<exists>rest. more = DoneItem # rest))"
proof -
  obtain k where "kyok_inv F k s" using assms(1) by (rule kyok_reach_inv)
  with assms(2) have "stream_ok (validate_chunk F) (k_streams (ks_link s) ! i)"
    by (simp add: kyok_inv_def table_stream_ok)
  then show ?thesis
    unfolding items_of_def relayed_def [symmetric] by (rule stream_ok_split)
qed

theorem kyok_stream_relays_witness:
  "\<exists>cs more. items_of 0 llm_asked = cs @ more \<and>
    list_all2 (\<lambda>it x. \<exists>d. it = Chunk d \<and> validate_chunk (sample_llm llm_texts) d = Inr x) cs
      (st_seen (k_streams (ks_link llm_asked) ! 0)) \<and>
    (st_end (k_streams (ks_link llm_asked) ! 0) = Some Returned \<longrightarrow> (\<exists>rest. more = DoneItem # rest))"
  by (rule kyok_stream_relays [OF llm_asked_reach]) (simp add: llm_asked_simps)

section \<open>The disconnect\<close>

text \<open>After the teardown no step adds to the queue of a completion that existed before it.\<close>

lemma gone_take: "live_stream i l \<Longrightarrow> st_items (k_streams (take_item V i l) ! j) = st_items (k_streams l ! j)"
  by (cases "j = i") (auto simp: take_item_step live_simps Let_def)

lemma gone_items_step:
  assumes "kyok_step F W s t" and "ks_phase s = Gone" and "i < length (k_streams (ks_link s))"
  shows "ks_phase t = Gone \<and> i < length (k_streams (ks_link t)) \<and> items_of i t = items_of i s"
  using assms(1)
proof cases
  case (k_asks dump r)
  with assms(2,3) show ?thesis by (simp add: items_of_def complete_def k_put_def nth_append)
next
  case (k_takes j)
  with assms(2,3) show ?thesis by (simp add: items_of_def gone_take) (simp add: take_item_step live_simps Let_def)
next
  case (k_waits j)
  with assms(2,3) show ?thesis by (cases "i = j") (simp_all add: items_of_def wait_item_def)
next
  case (k_gaps j)
  with assms(2,3) show ?thesis
    by (cases "i = j") (simp_all add: items_of_def gap_timeout_def end_stream_def)
next
  case (k_drops j)
  with assms(2,3) show ?thesis
    by (cases "i = j") (simp_all add: items_of_def drop_stream_def end_stream_def Let_def)
next
  case (k_world c')
  with assms(2,3) show ?thesis by (simp add: items_of_def)
qed (use assms(2) in simp_all)

lemma gone_items:
  assumes "(kyok_step F W)\<^sup>*\<^sup>* s t" and "ks_phase s = Gone" and "i < length (k_streams (ks_link s))"
  shows "ks_phase t = Gone \<and> i < length (k_streams (ks_link t)) \<and> items_of i t = items_of i s"
  using assms(1)
proof (induction rule: rtranclp_induct)
  case base
  with assms show ?case by simp
next
  case (step t u)
  then have "ks_phase t = Gone" "i < length (k_streams (ks_link t))" "items_of i t = items_of i s"
    by simp_all
  with gone_items_step [OF step.hyps(2)] show ?case by simp
qed

lemma teardown_items:
  assumes "kyok_inv F k s" and "ks_phase s \<noteq> Gone"
    and "i < length (k_streams (ks_link s))" and "st_end (k_streams (ks_link s) ! i) = None"
  shows "items_of i (kyok_teardown F s) = items_of i s @ [Failure disconnected]"
proof -
  from assms have "k_answers (ks_link s) (st_id (k_streams (ks_link s) ! i)) = Some i"
    by (simp add: kyok_inv_def covers_def)
  then have "i \<in> ran (k_answers (ks_link s))" by (auto simp: ran_def)
  with assms(3) show ?thesis
    by (simp add: items_of_def kyok_teardown_def Let_def fail_pending_nth)
qed

text \<open>C9. When the socket goes away, every completion that had not ended fails at once instead of
  at the gap timeout: its queue gets the disconnect error last, the table is emptied, and whatever
  happens afterwards its queue never gains another item, so it can still end normally only if the
  provider's \<open>done\<close> had already arrived.\<close>

theorem kyok_disconnect_fails:
  assumes "reach (kyok_init F cid) (kyok_step F W) s" and "ks_phase s \<noteq> Gone"
    and "i < length (k_streams (ks_link s))" and "st_end (k_streams (ks_link s) ! i) = None"
    and "(kyok_step F W)\<^sup>*\<^sup>* (kyok_teardown F s) t"
  shows "k_answers (ks_link (kyok_teardown F s)) = Map.empty \<and>
    items_of i t = items_of i s @ [Failure disconnected] \<and>
    (st_end (k_streams (ks_link t) ! i) = Some Returned \<longrightarrow> DoneItem \<in> set (items_of i s))"
proof -
  let ?d = "kyok_teardown F s"
  obtain k where inv: "kyok_inv F k s" using assms(1) by (rule kyok_reach_inv)
  then have "kyok_inv F k ?d" by (rule kyok_inv_teardown)
  with assms(5) have invt: "kyok_inv F k t" by (rule kv.steps_inv)
  have items: "items_of i ?d = items_of i s @ [Failure disconnected]"
    using inv assms(2-4) by (rule teardown_items)
  have "i < length (k_streams (ks_link ?d))" and "ks_phase ?d = Gone"
    using assms(3) by (simp_all add: kyok_teardown_def Let_def link_simps)
  with gone_items [OF assms(5)] items
  have t: "i < length (k_streams (ks_link t))" "items_of i t = items_of i s @ [Failure disconnected]"
    by simp_all
  have "stream_ok (validate_chunk F) (k_streams (ks_link t) ! i)"
    using invt t(1) by (simp add: kyok_inv_def table_stream_ok)
  from stream_ok_split [OF this] have
    "DoneItem \<in> set (items_of i t)" if "st_end (k_streams (ks_link t) ! i) = Some Returned"
    using that by (auto simp: items_of_def)
  with t show ?thesis by (auto simp: kyok_teardown_def Let_def link_simps)
qed

theorem kyok_disconnect_fails_witness:
  "k_answers (ks_link (kyok_teardown (sample_llm llm_texts) llm_asked)) = Map.empty \<and>
   items_of 0 (kyok_teardown (sample_llm llm_texts) llm_asked) = [Failure disconnected]"
proof -
  have "items_of 0 llm_asked = []" by (simp add: items_of_def llm_asked_simps)
  moreover have "k_answers (ks_link (kyok_teardown (sample_llm llm_texts) llm_asked)) = Map.empty \<and>
     items_of 0 (kyok_teardown (sample_llm llm_texts) llm_asked) =
       items_of 0 llm_asked @ [Failure disconnected] \<and>
     (st_end (k_streams (ks_link (kyok_teardown (sample_llm llm_texts) llm_asked)) ! 0) = Some Returned \<longrightarrow>
        DoneItem \<in> set (items_of 0 llm_asked))"
    by (rule kyok_disconnect_fails [OF llm_asked_reach _ _ _ rtranclp.rtrancl_refl])
       (simp_all add: llm_asked_simps)
  ultimately show ?thesis by simp
qed

text \<open>
  A stream its consumer drops before first asking it for an item keeps its place in the table,
  because the \<open>finally\<close> block of a generator that never began does not run: answers to it go on
  being accepted and queued for the life of the connection.
\<close>

lemma dropped_unstarted_stays:
  assumes "live_stream i l" and "k_answers l r = Some i" and "\<not> st_started (k_streams l ! i)"
  shows "fst (feed r item (drop_stream i l)) \<and> st_end (k_streams (drop_stream i l) ! i) = Some Abandoned"
  using assms by (simp add: drop_stream_def feed_def live_simps)

end
