(* ===== verification/Kyok_Bridge.thy ===== *)
theory Kyok_Bridge
  imports Funduq_Core Handshake
begin

text \<open>
  \<open>souk-client-sdk/souk_client_sdk/kyok_bridge.py\<close>: an LLM provider's end of \<open>/ws/kyok\<close>. The ticket
  and welcome it checks, its registration and withdrawal, and the completions it answers: one task
  per request, their frames interleaved on one outbound queue.
\<close>

section \<open>Opening the link\<close>

text \<open>
  The contract functions it calls, the far side's model validator, and the bridge's own settings:
  the key, the offering and the pinned funduq key.
\<close>

record bridge_env =
  b_sign :: "json \<Rightarrow> json \<Rightarrow> string \<Rightarrow> string"
  b_answer_ok :: "json \<Rightarrow> string \<Rightarrow> json \<Rightarrow> string \<Rightarrow> bool"
  b_validate :: "obj \<Rightarrow> string + obj"
  b_key :: string
  b_offering :: string
  b_pinned :: "string option"
  b_ephemeral :: bool

definition wrong_funduq :: "string \<Rightarrow> exn" where
  "wrong_funduq m = Exn (OtherExc ''WrongFunduq'') m"

text \<open>\<open>_fetch_ticket\<close>, from the parsed answer on: both fields are subscripted.\<close>

definition bridge_ticket :: "bridge_env \<Rightarrow> obj \<Rightarrow> exn + json \<times> json" where
  "bridge_ticket E data =
     (case map_of data ''funduqPublicKey'' of
        None \<Rightarrow> Inl (Exn KeyError ''funduqPublicKey'')
      | Some key \<Rightarrow>
          if (case b_pinned E of None \<Rightarrow> False | Some p \<Rightarrow> key \<noteq> JStr p)
          then Inl (wrong_funduq (''ticket endpoint presented funduq key '' @ py_str key @
                      '', but this bridge pinned '' @ (case b_pinned E of None \<Rightarrow> ''None'' | Some p \<Rightarrow> p)))
          else (case map_of data ''ticket'' of
                  None \<Rightarrow> Inl (Exn KeyError ''ticket'') | Some ticket \<Rightarrow> Inr (ticket, key)))"

definition bridge_hello :: "bridge_env \<Rightarrow> json \<Rightarrow> json \<Rightarrow> string \<Rightarrow> obj" where
  "bridge_hello E ticket funduq_key nonce =
     [(''type'', JStr ''hello''), (''version'', JInt WIRE_VERSION), (''publicKey'', JStr (b_key E)),
      (''ticket'', ticket), (''nonce'', JStr nonce),
      (''proof'', JStr (b_sign E funduq_key ticket nonce))]"

definition not_proved :: exn where
  "not_proved = wrong_funduq
     ''the funduq answering this link-open did not prove the key it presented at ticket time''"

definition bridge_welcome :: "bridge_env \<Rightarrow> json \<Rightarrow> json \<Rightarrow> string \<Rightarrow> obj \<Rightarrow> exn option" where
  "bridge_welcome E ticket funduq_key nonce welcome =
     (if dget welcome ''type'' \<noteq> JStr ''welcome''
      then Some (Exn RuntimeError (''expected welcome, got '' @ py_repr (JObj welcome)))
      else (case dget welcome ''answer'' of
              JStr answer \<Rightarrow> if b_answer_ok E funduq_key answer ticket nonce then None else Some not_proved
            | _ \<Rightarrow> Some not_proved))"

definition register_models :: "bridge_env \<Rightarrow> obj" where
  "register_models E = [(''type'', JStr ''register''), (''models'', JList [JStr (b_offering E)])]"

text \<open>\<open>x in y\<close> for a string \<open>x\<close>: membership, substring or key, and TypeError for the rest.\<close>

definition str_in :: "string \<Rightarrow> json \<Rightarrow> exn + bool" where
  "str_in x y =
     (case y of
        JList ys \<Rightarrow> Inr (JStr x \<in> set ys)
      | JStr s \<Rightarrow> Inr (sublist x s)
      | JObj d \<Rightarrow> Inr (x \<in> fst ` set d)
      | _ \<Rightarrow> Inl (Exn TypeError ''argument is not iterable''))"

definition bridge_registered :: "bridge_env \<Rightarrow> obj \<Rightarrow> exn option" where
  "bridge_registered E reply =
     (if dget reply ''type'' = JStr ''error''
      then Some (Exn RuntimeError (''souk refused the registration: '' @ py_repr (dget reply ''message'')))
      else if dget reply ''type'' \<noteq> JStr ''registered''
        then Some (Exn RuntimeError (''expected registered ['' @ repr_str (b_offering E) @ ''], got '' @
                                     py_repr (JObj reply)))
      else (case str_in (b_offering E) (dget_or reply ''names'' (JList [])) of
              Inl e \<Rightarrow> Some e
            | Inr True \<Rightarrow> None
            | Inr False \<Rightarrow>
                Some (Exn RuntimeError (''expected registered ['' @ repr_str (b_offering E) @ ''], got '' @
                                        py_repr (JObj reply)))))"

text \<open>\<open>run_metadata\<close>: what a caller submits to have its run served here.\<close>

definition run_metadata :: "bridge_env \<Rightarrow> json \<Rightarrow> obj" where
  "run_metadata E context =
     [(''kyok'', JObj ([(''llmProvider'', JObj [(''providerKey'', JStr (b_key E)), (''name'', JStr (b_offering E))])] @
        (if context = JNull then [] else [(''context'', context)])))]"

section \<open>One completion\<close>

text \<open>
  What the handler's stream does: the chunks it yields, as dicts, and how it ends. An exception of
  another class is its text.
\<close>

datatype handler_end = HandlerReturns | HandlerRefuses obj | HandlerRaises string

type_synonym handler = "obj \<Rightarrow> obj list \<times> handler_end"

text \<open>\<open>_to_chunk_dict\<close>: the three surfaces a chunk may have.\<close>

datatype raw_chunk = ModelDump obj | DictMethod obj | MappingChunk obj

definition to_chunk_dict :: "raw_chunk \<Rightarrow> obj" where
  "to_chunk_dict c = (case c of ModelDump d \<Rightarrow> d | DictMethod d \<Rightarrow> d | MappingChunk d \<Rightarrow> d)"

text \<open>\<open>_call_llm\<close>: what it asks the LLM library for; the library's stream is an argument.\<close>

record llm_request =
  lr_model :: string
  lr_api_key :: string
  lr_api_base :: json
  lr_messages :: json
  lr_tools :: json
  lr_temperature :: json
  lr_stream :: bool

definition llm_request_of :: "string \<Rightarrow> string \<Rightarrow> json \<Rightarrow> obj \<Rightarrow> llm_request" where
  "llm_request_of model api_key api_base body =
     \<lparr>lr_model = model, lr_api_key = api_key, lr_api_base = api_base,
      lr_messages = dget_or body ''messages'' (JList []),
      lr_tools = py_or (dget body ''tools'') JNull,
      lr_temperature = dget body ''temperature'', lr_stream = True\<rparr>"

definition call_llm ::
  "(llm_request \<Rightarrow> raw_chunk list \<times> handler_end) \<Rightarrow> string \<Rightarrow> string \<Rightarrow> json \<Rightarrow> (obj \<Rightarrow> obj) \<Rightarrow> handler" where
  "call_llm acompletion model api_key api_base body_of delivered =
     (case acompletion (llm_request_of model api_key api_base (body_of delivered)) of
        (chunks, how) \<Rightarrow> (map to_chunk_dict chunks, how))"

definition chunk_frame :: "json \<Rightarrow> obj \<Rightarrow> obj" where
  "chunk_frame request_id data =
     [(''type'', JStr ''chunk''), (''requestId'', request_id), (''data'', JObj data)]"

definition done_frame :: "json \<Rightarrow> obj" where
  "done_frame request_id = [(''type'', JStr ''done''), (''requestId'', request_id)]"

definition failed_frame :: "json \<Rightarrow> string \<Rightarrow> obj" where
  "failed_frame request_id message =
     [(''type'', JStr ''error''), (''requestId'', request_id), (''message'', JStr message)]"

definition refused_frame :: "json \<Rightarrow> obj \<Rightarrow> obj" where
  "refused_frame request_id refusal =
     failed_frame request_id ''refused by the LLM provider'' @ [(''refusal'', JObj refusal)]"

definition end_frame :: "json \<Rightarrow> handler_end \<Rightarrow> obj" where
  "end_frame request_id how =
     (case how of
        HandlerReturns \<Rightarrow> done_frame request_id
      | HandlerRefuses refusal \<Rightarrow> refused_frame request_id refusal
      | HandlerRaises message \<Rightarrow> failed_frame request_id message)"

definition envelope :: "obj \<Rightarrow> obj" where
  "envelope frame = filter (\<lambda>(k, v). k \<notin> {''type'', ''requestId''}) frame"

text \<open>All the frames one request gets, if its task is left to finish.\<close>

definition serve_one :: "bridge_env \<Rightarrow> handler \<Rightarrow> json \<Rightarrow> obj \<Rightarrow> obj list" where
  "serve_one E h request_id frame =
     (case b_validate E (envelope frame) of
        Inl e \<Rightarrow> [failed_frame request_id ''malformed completionRequest'']
      | Inr delivered \<Rightarrow>
          (case h delivered of (chunks, how) \<Rightarrow>
             map (chunk_frame request_id) chunks @ [end_frame request_id how]))"

section \<open>The connection\<close>

text \<open>
  A task holds its request id and the frames it has still to queue. The queue is kept whole, with
  the number of frames the writer has sent.
\<close>

record serving_task =
  t_request :: json
  t_left :: "obj list"

record bridge =
  br_attached :: bool
  br_deleted :: bool
  br_queue :: "obj list"
  br_sent :: nat
  br_tasks :: "serving_task list"
  br_asked :: "(json \<times> obj) list"

text \<open>\<open>_serve_connection\<close> once registered.\<close>

definition attach :: "bridge \<Rightarrow> bridge" where
  "attach s = s\<lparr>br_attached := True, br_queue := [], br_sent := 0, br_tasks := [], br_asked := []\<rparr>"

definition on_bridge_frame :: "bridge_env \<Rightarrow> handler \<Rightarrow> obj \<Rightarrow> bridge \<Rightarrow> exn option \<times> bridge" where
  "on_bridge_frame E h frame s =
     (let kind = dget frame ''type'' in
      if kind = JStr ''completionRequest''
      then (case map_of frame ''requestId'' of
              None \<Rightarrow> (Some (Exn KeyError ''requestId''), s)
            | Some r \<Rightarrow>
                (None, s\<lparr>br_tasks := br_tasks s @ [\<lparr>t_request = r, t_left = serve_one E h r frame\<rparr>],
                         br_asked := br_asked s @ [(r, frame)]\<rparr>))
      else if kind = JStr ''deleted'' then (None, s\<lparr>br_deleted := True\<rparr>)
      else (None, s))"

text \<open>A task resumes and queues its next frame; the writer sends the oldest queued one.\<close>

definition task_emits :: "nat \<Rightarrow> bridge \<Rightarrow> bridge" where
  "task_emits i s =
     (let t = br_tasks s ! i in
      s\<lparr>br_queue := br_queue s @ [hd (t_left t)],
        br_tasks := (br_tasks s)[i := t\<lparr>t_left := tl (t_left t)\<rparr>]\<rparr>)"

definition bridge_write :: "bridge \<Rightarrow> bridge" where
  "bridge_write s = s\<lparr>br_sent := Suc (br_sent s)\<rparr>"

text \<open>\<open>deregister\<close>, up to its wait: nothing to send on when no link is open.\<close>

definition delete_model_frame :: "bridge_env \<Rightarrow> obj" where
  "delete_model_frame E = [(''type'', JStr ''deleteModel''), (''name'', JStr (b_offering E))]"

definition deregister :: "bridge_env \<Rightarrow> bridge \<Rightarrow> bridge" where
  "deregister E s =
     (if \<not> br_attached s then s
      else s\<lparr>br_deleted := False, br_queue := br_queue s @ [delete_model_frame E]\<rparr>)"

text \<open>The \<open>finally\<close> block: unattached, the tasks in flight cancelled.\<close>

definition detach :: "bridge \<Rightarrow> bridge" where
  "detach s = s\<lparr>br_attached := False, br_tasks := map (\<lambda>t. t\<lparr>t_left := []\<rparr>) (br_tasks s)\<rparr>"

text \<open>
  One connection: the ids of the requests that arrive are new, as the far side mints them; the
  link is gone after \<open>detach\<close>.
\<close>

inductive bridge_step :: "bridge_env \<Rightarrow> handler \<Rightarrow> bridge \<Rightarrow> bridge \<Rightarrow> bool" for E h where
  b_frame: "br_attached s \<Longrightarrow> dget frame ''type'' = JStr ''completionRequest'' \<Longrightarrow>
    map_of frame ''requestId'' = Some r \<Longrightarrow> r \<notin> fst ` set (br_asked s) \<Longrightarrow>
    on_bridge_frame E h frame s = (x, t) \<Longrightarrow> bridge_step E h s t"
| b_other: "br_attached s \<Longrightarrow> dget frame ''type'' \<noteq> JStr ''completionRequest'' \<Longrightarrow>
    on_bridge_frame E h frame s = (x, t) \<Longrightarrow> bridge_step E h s t"
| b_emits: "i < length (br_tasks s) \<Longrightarrow> t_left (br_tasks s ! i) \<noteq> [] \<Longrightarrow> bridge_step E h s (task_emits i s)"
| b_writes: "br_attached s \<Longrightarrow> br_sent s < length (br_queue s) \<Longrightarrow> bridge_step E h s (bridge_write s)"
| b_deregister: "bridge_step E h s (deregister E s)"
| b_detach: "br_attached s \<Longrightarrow> bridge_step E h s (detach s)"

text \<open>Leaving \<open>serving()\<close>: only an identity minted here withdraws its offering.\<close>

definition serving_exit :: "bridge_env \<Rightarrow> bridge \<Rightarrow> bridge" where
  "serving_exit E s = (if b_ephemeral E then deregister E s else s)"

section \<open>Each request is answered in order, by its own frames\<close>

definition answers_of :: "json \<Rightarrow> obj list \<Rightarrow> obj list" where
  "answers_of r q = filter (\<lambda>f. map_of f ''requestId'' = Some r) q"

definition bridge_init :: "bridge \<Rightarrow> bool" where
  "bridge_init s \<longleftrightarrow> (\<exists>s0. s = attach s0)"

definition bridge_inv :: "bridge_env \<Rightarrow> handler \<Rightarrow> bridge \<Rightarrow> bool" where
  "bridge_inv E h s \<longleftrightarrow>
     distinct (map fst (br_asked s)) \<and> map t_request (br_tasks s) = map fst (br_asked s) \<and>
     (\<forall>f \<in> set (br_queue s). \<forall>r. map_of f ''requestId'' = Some r \<longrightarrow> r \<in> fst ` set (br_asked s)) \<and>
     (\<forall>i < length (br_asked s). \<exists>rest.
        serve_one E h (fst (br_asked s ! i)) (snd (br_asked s ! i)) =
          answers_of (fst (br_asked s ! i)) (br_queue s) @ t_left (br_tasks s ! i) @ rest \<and>
        (br_attached s \<longrightarrow> rest = [])) \<and>
     br_sent s \<le> length (br_queue s)"

lemma serve_one_ids: "f \<in> set (serve_one E h r frame) \<Longrightarrow> map_of f ''requestId'' = Some r"
proof -
  have "map_of (end_frame r how) ''requestId'' = Some r" for how
    by (cases how) (simp_all add: end_frame_def done_frame_def failed_frame_def refused_frame_def)
  moreover have "map_of (chunk_frame r d) ''requestId'' = Some r" for d
    by (simp add: chunk_frame_def)
  moreover have "map_of (failed_frame r m) ''requestId'' = Some r" for m
    by (simp add: failed_frame_def)
  moreover assume "f \<in> set (serve_one E h r frame)"
  ultimately show ?thesis by (auto simp: serve_one_def split: sum.splits prod.splits)
qed

lemma answers_of_simps [simp]:
  "answers_of r [] = []" "answers_of r (p @ q) = answers_of r p @ answers_of r q"
  "answers_of r [f] = (if map_of f ''requestId'' = Some r then [f] else [])"
  by (simp_all add: answers_of_def)

lemma answers_of_none:
  "\<forall>f \<in> set q. \<forall>r. map_of f ''requestId'' = Some r \<longrightarrow> r \<in> R \<Longrightarrow> r \<notin> R \<Longrightarrow> answers_of r q = []"
  by (auto simp: answers_of_def filter_empty_conv)

lemma bridge_inv_init: "bridge_init s \<Longrightarrow> bridge_inv E h s"
  by (auto simp: bridge_init_def bridge_inv_def attach_def)

lemma bridge_inv_length: "bridge_inv E h s \<Longrightarrow> length (br_tasks s) = length (br_asked s)"
  unfolding bridge_inv_def by (metis length_map)

lemma bridge_inv_ask:
  assumes inv: "bridge_inv E h s" and new: "r \<notin> fst ` set (br_asked s)" and at: "br_attached s"
  shows "bridge_inv E h (s\<lparr>br_tasks := br_tasks s @ [\<lparr>t_request = r, t_left = serve_one E h r frame\<rparr>],
    br_asked := br_asked s @ [(r, frame)]\<rparr>)"
proof -
  have l: "length (br_tasks s) = length (br_asked s)" using inv by (rule bridge_inv_length)
  have none: "answers_of r (br_queue s) = []"
    using inv new answers_of_none [of "br_queue s" "fst ` set (br_asked s)" r] by (simp add: bridge_inv_def)
  from inv new at l none show ?thesis
    by (fastforce simp: bridge_inv_def nth_append less_Suc_eq)
qed

lemma bridge_inv_emit:
  assumes inv: "bridge_inv E h s" and i: "i < length (br_tasks s)" and left: "t_left (br_tasks s ! i) \<noteq> []"
  shows "bridge_inv E h (task_emits i s)"
proof -
  let ?t = "task_emits i s" and ?f = "hd (t_left (br_tasks s ! i))"
  have l: "length (br_tasks s) = length (br_asked s)" using inv by (rule bridge_inv_length)
  let ?r = "\<lambda>j. fst (br_asked s ! j)"
  have part: "\<exists>rest. serve_one E h (?r j) (snd (br_asked s ! j)) =
      answers_of (?r j) (br_queue s) @ t_left (br_tasks s ! j) @ rest \<and> (br_attached s \<longrightarrow> rest = [])"
    if "j < length (br_asked s)" for j using inv that by (simp add: bridge_inv_def)
  have id: "map_of ?f ''requestId'' = Some (?r i)"
    using part [of i] i left l serve_one_ids [of ?f E h "?r i" "snd (br_asked s ! i)"]
    by (metis UnI1 UnI2 hd_in_set set_append)
  have new: "\<exists>rest. serve_one E h (?r j) (snd (br_asked s ! j)) =
      answers_of (?r j) (br_queue ?t) @ t_left (br_tasks ?t ! j) @ rest \<and> (br_attached ?t \<longrightarrow> rest = [])"
    if j: "j < length (br_asked s)" for j
  proof (cases "j = i")
    case True
    have "t_left (br_tasks s ! i) = ?f # tl (t_left (br_tasks s ! i))" using left by simp
    then have "\<And>xs rest. xs @ t_left (br_tasks s ! i) @ rest = (xs @ [?f]) @ tl (t_left (br_tasks s ! i)) @ rest"
      by (metis append.assoc append_Cons append_Nil)
    with True part [of i] i l id show ?thesis by (simp add: task_emits_def Let_def)
  next
    case False
    have "distinct (map fst (br_asked s))" using inv by (simp add: bridge_inv_def)
    then have "?r j \<noteq> ?r i" using False i j l by (metis length_map nth_eq_iff_index_eq nth_map)
    with part [OF j] id False show ?thesis by (auto simp: task_emits_def Let_def)
  qed
  have reqs: "map t_request (br_tasks ?t) = map fst (br_asked s)"
  proof -
    have "map t_request (br_tasks ?t) = map t_request (br_tasks s)"
      by (rule nth_equalityI) (simp_all add: task_emits_def Let_def nth_list_update i)
    with inv show ?thesis by (simp add: bridge_inv_def)
  qed
  have known: "\<forall>f \<in> set (br_queue ?t). \<forall>r. map_of f ''requestId'' = Some r \<longrightarrow> r \<in> fst ` set (br_asked s)"
    using inv id i l by (auto simp: bridge_inv_def task_emits_def Let_def)
  have same: "br_asked ?t = br_asked s" "br_sent ?t = br_sent s" "length (br_queue ?t) = Suc (length (br_queue s))"
    by (simp_all add: task_emits_def Let_def)
  show ?thesis unfolding bridge_inv_def same using inv reqs known new by (simp add: bridge_inv_def)
qed

lemma bridge_inv_deregister: "bridge_inv E h s \<Longrightarrow> bridge_inv E h (deregister E s)"
  by (auto simp: bridge_inv_def deregister_def delete_model_frame_def)

lemma bridge_inv_detach:
  assumes "bridge_inv E h s"
  shows "bridge_inv E h (detach s)"
proof -
  have "length (br_tasks s) = length (br_asked s)" using assms by (rule bridge_inv_length)
  with assms show ?thesis by (auto simp: bridge_inv_def detach_def comp_def)
qed

lemma bridge_inv_step: "bridge_inv E h s \<Longrightarrow> bridge_step E h s t \<Longrightarrow> bridge_inv E h t"
proof (erule bridge_step.cases)
  fix sa frame r x u
  assume "bridge_inv E h s" "s = sa" "t = u" "br_attached sa" "map_of frame ''requestId'' = Some r"
    "dget frame ''type'' = JStr ''completionRequest''" "r \<notin> fst ` set (br_asked sa)"
    "on_bridge_frame E h frame sa = (x, u)"
  then show ?thesis using bridge_inv_ask [of E h s r frame] by (simp add: on_bridge_frame_def Let_def)
next
  fix sa frame x u
  assume a: "bridge_inv E h s" "s = sa" "t = u" "on_bridge_frame E h frame sa = (x, u)"
    "dget frame ''type'' \<noteq> JStr ''completionRequest''"
  then have "u = s \<or> u = s\<lparr>br_deleted := True\<rparr>"
    by (auto simp: on_bridge_frame_def Let_def split: if_splits)
  with a show ?thesis by (auto simp: bridge_inv_def)
next
  fix sa
  assume "bridge_inv E h s" "s = sa" "t = bridge_write sa" "br_sent sa < length (br_queue sa)"
  then show ?thesis by (simp add: bridge_inv_def bridge_write_def)
qed (simp_all add: bridge_inv_emit bridge_inv_deregister bridge_inv_detach)

interpretation bv: machine_invariant bridge_init "bridge_step E h" "bridge_inv E h"
  for E :: bridge_env and h :: handler
  by unfold_locales (fact bridge_inv_init, fact bridge_inv_step)

lemma bridge_answers_prefix:
  assumes "bridge_inv E h s" and "(r, frame) \<in> set (br_asked s)"
  shows "prefix (answers_of r (br_queue s)) (serve_one E h r frame)"
  using assms by (fastforce simp: bridge_inv_def in_set_conv_nth prefix_def)

lemma bridge_answers_whole:
  assumes "bridge_inv E h s" and "(r, frame) \<in> set (br_asked s)" and "br_attached s"
    and "\<forall>t \<in> set (br_tasks s). t_left t = []"
  shows "answers_of r (br_queue s) = serve_one E h r frame"
proof -
  obtain i where i: "i < length (br_asked s)" "br_asked s ! i = (r, frame)"
    using assms(2) by (auto simp: in_set_conv_nth)
  then have "t_left (br_tasks s ! i) = []" using assms(4) bridge_inv_length [OF assms(1)] by simp
  moreover have "serve_one E h r frame = answers_of r (br_queue s) @ t_left (br_tasks s ! i)"
    using assms(1,3) i by (fastforce simp: bridge_inv_def)
  ultimately show ?thesis by simp
qed

lemma answers_of_take: "prefix (answers_of r (take n q)) (answers_of r q)"
  by (metis answers_of_simps(2) append_take_drop_id prefix_def)

end
