(* ===== verification/Kyok_Wire.thy ===== *)
theory Kyok_Wire
  imports Kyok_Props Kyok_Bridge
begin

text \<open>
  The two ends of \<open>/ws/kyok\<close> put together: what the bridge of the client SDK sends against what
  the gateway's socket makes of it, and its hello against the gateway's check.
\<close>

section \<open>The request\<close>

text \<open>A dumped envelope: an object whose keys are distinct and none of them the transport's.\<close>

definition wire_dump :: "obj \<Rightarrow> bool" where
  "wire_dump dump \<longleftrightarrow>
     distinct (map fst dump) \<and> ''type'' \<notin> fst ` set dump \<and> ''requestId'' \<notin> fst ` set dump"

lemma envelope_completion:
  assumes "wire_dump dump"
  shows "envelope (completion_frame r dump) = dump"
proof -
  have "completion_frame r dump = [(''type'', JStr ''completionRequest''), (''requestId'', JStr r)] @ dump"
    unfolding completion_frame_def using assms by (intro dict_merge_append) (auto simp: wire_dump_def)
  moreover have "filter (\<lambda>(k, v). k \<notin> {''type'', ''requestId''}) dump = dump"
    using assms by (force simp: wire_dump_def filter_id_conv)
  ultimately show ?thesis by (simp add: envelope_def)
qed

section \<open>The answer\<close>

text \<open>What the consumer of a completion is to be given, from what the handler did.\<close>

definition end_item :: "handler_end \<Rightarrow> answer_item" where
  "end_item how =
     (case how of
        HandlerReturns \<Rightarrow> DoneItem
      | HandlerRefuses refusal \<Rightarrow> Failure (CompletionRefused refusal)
      | HandlerRaises message \<Rightarrow>
          Failure (Runtime_Error (JStr (if message = [] then ''LLM provider reported an error'' else message))))"

definition answer_items :: "bridge_env \<Rightarrow> handler \<Rightarrow> obj \<Rightarrow> answer_item list" where
  "answer_items E h dump =
     (case b_validate E dump of
        Inl e \<Rightarrow> [end_item (HandlerRaises ''malformed completionRequest'')]
      | Inr delivered \<Rightarrow> (case h delivered of (chunks, how) \<Rightarrow> map Chunk chunks @ [end_item how]))"

definition frame_items :: "obj \<Rightarrow> answer_item list" where
  "frame_items d = (case frame_item d of Inr it \<Rightarrow> [it] | Inl e \<Rightarrow> [])"

lemma frame_items_chunk: "frame_items (chunk_frame r d) = [Chunk d]"
  by (simp add: frame_items_def frame_item_def chunk_frame_def)

lemma frame_items_end: "frame_items (end_frame r how) = [end_item how]"
  by (cases how)
     (simp_all add: frame_items_def frame_item_def end_frame_def end_item_def done_frame_def
        failed_frame_def refused_frame_def py_or_def)

lemma frame_items_failed: "frame_items (failed_frame r m) = [end_item (HandlerRaises m)]"
  using frame_items_end [of r "HandlerRaises m"] by (simp add: end_frame_def)

lemma serve_one_items: "concat (map frame_items (serve_one E h r frame)) = answer_items E h (envelope frame)"
proof -
  have "concat (map (frame_items \<circ> chunk_frame r) cs) = map Chunk cs" for cs
    by (induction cs) (simp_all add: frame_items_chunk)
  then show ?thesis
    by (simp add: serve_one_def answer_items_def frame_items_end frame_items_failed
        split: sum.splits prod.splits)
qed

lemma serve_one_types:
  "f \<in> set (serve_one E h r frame) \<Longrightarrow> dget f ''type'' \<in> {JStr ''chunk'', JStr ''done'', JStr ''error''}"
proof -
  have "dget (end_frame r how) ''type'' \<in> {JStr ''done'', JStr ''error''}" for how
    by (cases how) (simp_all add: end_frame_def done_frame_def failed_frame_def refused_frame_def)
  moreover have "dget (chunk_frame r d) ''type'' = JStr ''chunk''" for d
    by (simp add: chunk_frame_def)
  moreover have "dget (failed_frame r m) ''type'' = JStr ''error''" for m
    by (simp add: failed_frame_def)
  moreover assume "f \<in> set (serve_one E h r frame)"
  ultimately show ?thesis by (auto simp: serve_one_def split: sum.splits prod.splits)
qed

lemma carried_frames:
  assumes "\<forall>f \<in> set q. json_loads K (dumps f) = Inr (JObj f)"
    and "\<forall>f \<in> set (answers_of (JStr r) q). dget f ''type'' \<in> {JStr ''chunk'', JStr ''done'', JStr ''error''}"
  shows "concat (map (carried K r) (map (\<lambda>f. TextMessage (dumps f)) q)) =
    concat (map frame_items (answers_of (JStr r) q))"
  using assms
proof (induction q)
  case Nil
  then show ?case by simp
next
  case (Cons f q)
  have hd: "answers_of (JStr r) (f # q) = answers_of (JStr r) [f] @ answers_of (JStr r) q"
    by (metis answers_of_simps(2) append_Cons append_Nil)
  have p: "parse_frame K (TextMessage (dumps f)) = Inr (Some f)"
    using Cons.prems(1) by (simp add: parse_frame_def)
  have get: "dget f ''requestId'' = JStr r \<longleftrightarrow> map_of f ''requestId'' = Some (JStr r)"
    by (auto simp: dget_def split: option.splits)
  have "carried K r (TextMessage (dumps f)) = concat (map frame_items (answers_of (JStr r) [f]))"
    using Cons.prems(2) p get unfolding hd by (auto simp: carried_def frame_items_def)
  with Cons hd show ?case by simp
qed

text \<open>What the gateway reads off the frames the bridge has sent so far.\<close>

lemma sent_carried:
  assumes inv: "bridge_inv E h b" and asked: "(JStr r, frame) \<in> set (br_asked b)"
    and loads: "\<forall>f \<in> set (br_queue b). json_loads K (dumps f) = Inr (JObj f)"
  shows "prefix (concat (map (carried K r) (map (\<lambda>f. TextMessage (dumps f)) (take n (br_queue b)))))
      (answer_items E h (envelope frame))"
    and "br_attached b \<Longrightarrow> \<forall>t \<in> set (br_tasks b). t_left t = [] \<Longrightarrow> length (br_queue b) \<le> n \<Longrightarrow>
      concat (map (carried K r) (map (\<lambda>f. TextMessage (dumps f)) (take n (br_queue b)))) =
      answer_items E h (envelope frame)"
proof -
  let ?q = "take n (br_queue b)" and ?all = "serve_one E h (JStr r) frame"
  have p: "prefix (answers_of (JStr r) ?q) ?all"
    using answers_of_take bridge_answers_prefix [OF inv asked] by (rule prefix_order.trans)
  have loads': "\<forall>f \<in> set ?q. json_loads K (dumps f) = Inr (JObj f)"
    using loads in_set_takeD by fast
  have types: "\<forall>f \<in> set (answers_of (JStr r) ?q). dget f ''type'' \<in> {JStr ''chunk'', JStr ''done'', JStr ''error''}"
    using p serve_one_types by (blast dest: set_mono_prefix)
  note c = carried_frames [OF loads' types]
  from p obtain zs where "?all = answers_of (JStr r) ?q @ zs" by (auto simp: prefix_def)
  then have "answer_items E h (envelope frame) =
      concat (map frame_items (answers_of (JStr r) ?q)) @ concat (map frame_items zs)"
    by (simp flip: serve_one_items [of E h "JStr r"])
  then show "prefix (concat (map (carried K r) (map (\<lambda>f. TextMessage (dumps f)) ?q)))
      (answer_items E h (envelope frame))"
    unfolding c by simp
  assume "br_attached b" "\<forall>t \<in> set (br_tasks b). t_left t = []" "length (br_queue b) \<le> n"
  then show "concat (map (carried K r) (map (\<lambda>f. TextMessage (dumps f)) ?q)) =
      answer_items E h (envelope frame)"
    unfolding c using bridge_answers_whole [OF inv asked] serve_one_items [of E h "JStr r"] by simp
qed

text \<open>C1. The two ends of the KYOK wire agree: whatever completions the bridge serves at the same
  time and however their frames interleave, once the gateway has read what the bridge sent, the
  queue of a completion holds a prefix, in order, of the handler's chunks for that very request
  followed by its end (done, the structured refusal intact, or the error text), and the whole of
  it when the bridge has finished and everything it queued was sent.\<close>

theorem kyok_end_to_end:
  assumes "reach bridge_init (bridge_step E h) b"
    and "(JStr r, completion_frame r dump) \<in> set (br_asked b)" and "wire_dump dump"
    and "\<forall>f \<in> set (br_queue b). json_loads K (dumps f) = Inr (JObj f)"
    and "kyok_loop K (map (\<lambda>f. TextMessage (dumps f)) (take (br_sent b) (br_queue b))) s = (KWaiting, rest, s')"
    and "table_inv V (ks_link s)" and "k_answers (ks_link s) r = Some i" and "items_of i s = []"
  shows "prefix (items_of i s') (answer_items E h dump) \<and>
    (br_attached b \<and> (\<forall>t \<in> set (br_tasks b). t_left t = []) \<and> br_sent b = length (br_queue b) \<longrightarrow>
       items_of i s' = answer_items E h dump)"
proof -
  have inv: "bridge_inv E h b" using assms(1) by (rule bv.reach_inv)
  have items: "items_of i s' =
      concat (map (carried K r) (map (\<lambda>f. TextMessage (dumps f)) (take (br_sent b) (br_queue b))))"
    using loop_items [OF assms(5-7)] assms(8) by simp
  show ?thesis
    unfolding items
    using sent_carried [OF inv assms(2,4), where n = "br_sent b"] assms(3)
    by (simp add: envelope_completion)
qed

definition sample_bridge_env :: bridge_env where
  "sample_bridge_env =
     \<lparr>b_sign = (\<lambda>k t n. ''proof''), b_answer_ok = (\<lambda>k a t n. a = ''answer1''), b_validate = Inr,
      b_key = ''key1'', b_offering = ''kyok'', b_pinned = None, b_ephemeral = True\<rparr>"

definition sample_handler :: handler where
  "sample_handler delivered = ([llm_chunk], HandlerReturns)"

definition sample_request :: obj where
  "sample_request = completion_frame ''r1'' [(''body'', JObj [])]"

definition bridge_at :: "nat \<Rightarrow> nat \<Rightarrow> bridge" where
  "bridge_at n sent =
     (let fs = [chunk_frame (JStr ''r1'') llm_chunk, done_frame (JStr ''r1'')] in
      \<lparr>br_attached = True, br_deleted = False, br_queue = take n fs, br_sent = sent,
       br_tasks = [\<lparr>t_request = JStr ''r1'', t_left = drop n fs\<rparr>],
       br_asked = [(JStr ''r1'', sample_request)]\<rparr>)"

definition bridge_empty :: bridge where
  "bridge_empty =
     \<lparr>br_attached = True, br_deleted = False, br_queue = [], br_sent = 0, br_tasks = [], br_asked = []\<rparr>"

lemma sample_bridge_asked: "bridge_step sample_bridge_env sample_handler bridge_empty (bridge_at 0 0)"
proof (rule b_frame)
  show "dget sample_request ''type'' = JStr ''completionRequest''" by code_simp
  show "map_of sample_request ''requestId'' = Some (JStr ''r1'')" by code_simp
  show "on_bridge_frame sample_bridge_env sample_handler sample_request bridge_empty = (None, bridge_at 0 0)"
    by code_simp
qed (simp_all add: bridge_empty_def)

lemma sample_bridge_emits:
  "bridge_step sample_bridge_env sample_handler (bridge_at 0 0) (bridge_at 1 0)"
  "bridge_step sample_bridge_env sample_handler (bridge_at 1 0) (bridge_at 2 0)"
  using b_emits [of 0 "bridge_at 0 0" sample_bridge_env sample_handler]
    b_emits [of 0 "bridge_at 1 0" sample_bridge_env sample_handler]
  by (simp_all add: bridge_at_def task_emits_def Let_def numeral_2_eq_2)

lemma sample_bridge_writes:
  "bridge_step sample_bridge_env sample_handler (bridge_at 2 0) (bridge_at 2 1)"
  "bridge_step sample_bridge_env sample_handler (bridge_at 2 1) (bridge_at 2 2)"
  using b_writes [of "bridge_at 2 0" sample_bridge_env sample_handler]
    b_writes [of "bridge_at 2 1" sample_bridge_env sample_handler]
  by (simp_all add: bridge_at_def bridge_write_def numeral_2_eq_2)

lemma sample_bridge_reach:
  "reach bridge_init (bridge_step sample_bridge_env sample_handler) (bridge_at 2 2)"
proof -
  have "bridge_init bridge_empty"
    unfolding bridge_init_def by (intro exI [of _ bridge_empty]) (simp add: attach_def bridge_empty_def)
  then show ?thesis
    by (meson reach.intros sample_bridge_asked sample_bridge_emits sample_bridge_writes)
qed

definition sample_dumps :: "obj \<Rightarrow> string" where
  "sample_dumps f = (if dget f ''type'' = JStr ''chunk'' then ''chunk'' else ''done'')"

lemma sample_bridge_loop:
  "\<exists>rest s'. kyok_loop (sample_llm llm_texts) (map (\<lambda>f. TextMessage (sample_dumps f))
     (take (br_sent (bridge_at 2 2)) (br_queue (bridge_at 2 2)))) llm_asked = (KWaiting, rest, s')"
  by (simp add: bridge_at_def sample_dumps_def chunk_frame_def done_frame_def numeral_2_eq_2
      on_kyok_message_def parse_frame_def on_kyok_frame_def
      KYOK_FRAME_TYPES_def on_answer_def frame_item_def feed_def put_item_def k_say_def k_put_def
      sample_llm_def llm_texts_def llm_asked_simps Let_def)

theorem kyok_end_to_end_witness:
  "\<exists>rest s'. kyok_loop (sample_llm llm_texts) (map (\<lambda>f. TextMessage (sample_dumps f))
     (take (br_sent (bridge_at 2 2)) (br_queue (bridge_at 2 2)))) llm_asked = (KWaiting, rest, s') \<and>
   items_of 0 s' = [Chunk llm_chunk, DoneItem]"
proof -
  obtain rest s' where loop: "kyok_loop (sample_llm llm_texts) (map (\<lambda>f. TextMessage (sample_dumps f))
     (take (br_sent (bridge_at 2 2)) (br_queue (bridge_at 2 2)))) llm_asked = (KWaiting, rest, s')"
    using sample_bridge_loop by blast
  have asked: "(JStr ''r1'', completion_frame ''r1'' [(''body'', JObj [])]) \<in> set (br_asked (bridge_at 2 2))"
    by (simp add: bridge_at_def sample_request_def)
  have dump: "wire_dump [(''body'', JObj [])]" by (simp add: wire_dump_def)
  have loads: "\<forall>f \<in> set (br_queue (bridge_at 2 2)). json_loads (sample_llm llm_texts) (sample_dumps f) = Inr (JObj f)"
    by (simp add: bridge_at_def numeral_2_eq_2 sample_llm_def llm_texts_def sample_dumps_def chunk_frame_def done_frame_def)
  have answers: "k_answers (ks_link llm_asked) ''r1'' = Some 0" by (simp add: llm_asked_simps)
  have empty: "items_of 0 llm_asked = []" by (simp add: items_of_def llm_asked_simps)
  have finished: "br_attached (bridge_at 2 2)" "\<forall>t \<in> set (br_tasks (bridge_at 2 2)). t_left t = []"
    "br_sent (bridge_at 2 2) = length (br_queue (bridge_at 2 2))"
    by (simp_all add: bridge_at_def numeral_2_eq_2)
  have "items_of 0 s' = answer_items sample_bridge_env sample_handler [(''body'', JObj [])]"
    using kyok_end_to_end [OF sample_bridge_reach asked dump loads loop llm_asked_table answers empty] finished
    by blast
  then have "items_of 0 s' = [Chunk llm_chunk, DoneItem]"
    by (simp add: answer_items_def sample_bridge_env_def sample_handler_def end_item_def)
  with loop show ?thesis by blast
qed

section \<open>The hello\<close>

text \<open>The bridge's hello passes the gateway's check whenever its parts are not empty.\<close>

lemma bridge_hello_admitted:
  assumes "b_key E \<noteq> []" and "nonempty_str ticket" and "nonce \<noteq> []" and "b_sign E key ticket nonce \<noteq> []"
  shows "kyok_hello_error (bridge_hello E ticket key nonce) = None"
  using assms by (simp add: kyok_hello_ok hello_complete_def bridge_hello_def WIRE_VERSION_def)

end
