(* ===== verification/Kyok_Liveness.thy ===== *)
theory Kyok_Liveness
  imports Kyok_Props
begin

text \<open>
  The consumer's end of a completion, run: asking for items while there are some. It shows that a
  completion whose queue holds an end is always brought to it, and so that nobody waits for a
  provider that is gone.
\<close>

text \<open>At most \<open>n\<close> resumptions of the generator, each on an item that is there.\<close>

fun consume :: "(obj \<Rightarrow> exn + json) \<Rightarrow> nat \<Rightarrow> nat \<Rightarrow> 'c ksession \<Rightarrow> 'c ksession" where
  "consume V 0 i s = s"
| "consume V (Suc n) i s =
     (if live_stream i (ks_link s) \<and> queued i (ks_link s)
      then consume V n i (s\<lparr>ks_link := take_item V i (ks_link s)\<rparr>) else s)"

lemma consume_steps: "(kyok_step F W)\<^sup>*\<^sup>* s (consume (validate_chunk F) n i s)"
proof (induction n arbitrary: s)
  case 0
  show ?case by simp
next
  case (Suc n)
  show ?case
    using Suc [of "s\<lparr>ks_link := take_item (validate_chunk F) i (ks_link s)\<rparr>"]
    by (auto intro: converse_rtranclp_into_rtranclp k_takes)
qed

lemma take_item_nth:
  "live_stream i l \<Longrightarrow> k_streams (take_item V i l) ! i = step_stream V (k_streams l ! i)"
  by (simp add: take_item_step live_simps Let_def)

lemma take_item_length [simp]: "length (k_streams (take_item V i l)) = length (k_streams l)"
  by (simp add: take_item_def end_stream_def Let_def split: answer_item.splits sum.splits)

lemma step_stream_taken [simp]: "st_taken (step_stream V st) = Suc (st_taken st)"
  by (simp add: step_stream_def Let_def split: answer_item.splits sum.splits)

lemma step_stream_end:
  assumes "st_end st = None"
  shows "st_end (step_stream V st) \<noteq> Some Abandoned"
    and "(\<forall>d. st_items st ! st_taken st \<noteq> Chunk d) \<Longrightarrow> st_end (step_stream V st) \<noteq> None"
  using assms by (auto simp: step_stream_def Let_def split: answer_item.splits sum.splits)

lemma consume_ends:
  assumes "live_stream i (ks_link s)" and "st_taken (k_streams (ks_link s) ! i) \<le> k"
    and "k < length (items_of i s)" and "\<forall>d. items_of i s ! k \<noteq> Chunk d"
    and "length (items_of i s) - st_taken (k_streams (ks_link s) ! i) \<le> n"
  shows "\<exists>how. st_end (k_streams (ks_link (consume V n i s)) ! i) = Some how \<and> how \<noteq> Abandoned"
  using assms
proof (induction n arbitrary: s)
  case 0
  then show ?case by simp
next
  case (Suc n)
  let ?st = "k_streams (ks_link s) ! i" and ?t = "s\<lparr>ks_link := take_item V i (ks_link s)\<rparr>"
  have open_end: "st_end ?st = None" and i: "i < length (k_streams (ks_link s))"
    using Suc.prems(1) by (simp_all add: live_stream_def)
  have "queued i (ks_link s)" using Suc.prems(2,3) by (simp add: queued_def items_of_def)
  with Suc.prems(1) have c: "consume V (Suc n) i s = consume V n i ?t" by simp
  have t: "k_streams (ks_link ?t) ! i = step_stream V ?st" using Suc.prems(1) by (simp add: take_item_nth)
  show ?case
  proof (cases "st_end (step_stream V ?st)")
    case (Some how)
    then have "consume V n i ?t = ?t" by (cases n) (simp_all add: live_stream_def take_item_nth [OF Suc.prems(1)])
    with c t Some step_stream_end(1) [OF open_end, of V] show ?thesis by auto
  next
    case None
    then have "k \<noteq> st_taken ?st" using step_stream_end(2) [OF open_end, of V] Suc.prems(4) by (auto simp: items_of_def)
    moreover have "items_of i ?t = items_of i s" unfolding items_of_def t by simp
    moreover have "live_stream i (ks_link ?t)" using None i t by (simp add: live_stream_def)
    ultimately show ?thesis unfolding c using Suc.prems(2-5) t by (intro Suc.IH) simp_all
  qed
qed

text \<open>C28. No consumer waits for a provider that has left: after the disconnect, a consumer of a
  completion that had not ended needs only ask for the items that are there, and within as many
  resumptions as its queue still holds the generator has returned or raised, each resumption being
  a step the socket's machine can take.\<close>

theorem kyok_consumer_ends:
  assumes "reach (kyok_init F cid) (kyok_step F W) s" and "ks_phase s \<noteq> Gone" and "live_stream i (ks_link s)"
    and "n = length (items_of i (kyok_teardown F s)) - st_taken (k_streams (ks_link (kyok_teardown F s)) ! i)"
  shows "(kyok_step F W)\<^sup>*\<^sup>* (kyok_teardown F s) (consume (validate_chunk F) n i (kyok_teardown F s)) \<and>
    (\<exists>how. st_end (k_streams (ks_link (consume (validate_chunk F) n i (kyok_teardown F s))) ! i) = Some how \<and>
       how \<noteq> Abandoned)"
proof
  let ?d = "kyok_teardown F s"
  show "(kyok_step F W)\<^sup>*\<^sup>* ?d (consume (validate_chunk F) n i ?d)" by (rule consume_steps)
  obtain k where inv: "kyok_inv F k s" using assms(1) by (rule kyok_reach_inv)
  have i: "i < length (k_streams (ks_link s))" and e: "st_end (k_streams (ks_link s) ! i) = None"
    using assms(3) by (simp_all add: live_stream_def)
  have items: "items_of i ?d = items_of i s @ [Failure disconnected]"
    using inv assms(2) i e by (rule teardown_items)
  have st: "st_end (k_streams (ks_link ?d) ! i) = None" "i < length (k_streams (ks_link ?d))"
    "st_taken (k_streams (ks_link ?d) ! i) = st_taken (k_streams (ks_link s) ! i)"
    using i e by (simp_all add: kyok_teardown_def Let_def link_simps fail_pending_nth)
  have "stream_ok (validate_chunk F) (k_streams (ks_link s) ! i)"
    using inv i by (simp add: kyok_inv_def table_stream_ok)
  then have "st_taken (k_streams (ks_link ?d) ! i) \<le> length (items_of i s)"
    by (simp add: st stream_ok_def items_of_def)
  then show "\<exists>how. st_end (k_streams (ks_link (consume (validate_chunk F) n i ?d)) ! i) = Some how \<and> how \<noteq> Abandoned"
    using st items assms(4) by (intro consume_ends [where k = "length (items_of i s)"])
      (simp_all add: live_stream_def)
qed

theorem kyok_consumer_ends_witness:
  "\<exists>how. st_end (k_streams (ks_link (consume (validate_chunk (sample_llm llm_texts)) 1 0
       (kyok_teardown (sample_llm llm_texts) llm_asked))) ! 0) = Some how \<and> how \<noteq> Abandoned"
proof -
  have one: "1 = length (items_of 0 (kyok_teardown (sample_llm llm_texts) llm_asked)) -
      st_taken (k_streams (ks_link (kyok_teardown (sample_llm llm_texts) llm_asked)) ! 0)"
    by (simp add: items_of_def kyok_teardown_def Let_def fail_pending_nth llm_asked_simps)
  have live: "live_stream 0 (ks_link llm_asked)" by (simp add: live_stream_def llm_asked_simps)
  have ph: "ks_phase llm_asked \<noteq> Gone" by (simp add: llm_asked_simps)
  show ?thesis by (rule conjunct2 [OF kyok_consumer_ends [OF llm_asked_reach ph live one]])
qed

end
