(* ===== verification/Presenter.thy ===== *)
theory Presenter
  imports Funduq_Core
begin

text \<open>
  \<open>souk_server/presenter.py\<close>: the proof a caller may present for the key it holds, the exact
  bytes that proof signs, and who a request was presented by.
\<close>

section \<open>The payload\<close>

definition PRESENTER_DOMAIN :: string where
  "PRESENTER_DOMAIN = ''funduq-server-presenter''"

text \<open>
  \<open>str.encode\<close>: a surrogate code point, whose three bytes begin with 0xED and one of 0xA0 to
  0xBF, has no UTF-8 encoding and raises UnicodeEncodeError, which is a ValueError.
\<close>

fun encodable :: "string \<Rightarrow> bool" where
  "encodable (a # b # s) = (\<not> (a = CHR 0xED \<and> CHR 0xA0 \<le> b \<and> b \<le> CHR 0xBF) \<and> encodable (b # s))"
| "encodable s = True"

definition encode_text :: "string \<Rightarrow> exn + string" where
  "encode_text s =
     (if encodable s then Inr s else Inl (Exn ValueError ''surrogates not allowed''))"

definition payload_text :: "(string \<Rightarrow> string) \<Rightarrow> string \<Rightarrow> int \<Rightarrow> string \<Rightarrow> string" where
  "payload_text sha256hex public_key timestamp body =
     PRESENTER_DOMAIN @ '':'' @ public_key @ '':'' @ int_text timestamp @ '':'' @ sha256hex body"

definition presenter_payload :: "(string \<Rightarrow> string) \<Rightarrow> string \<Rightarrow> int \<Rightarrow> string \<Rightarrow> exn + string" where
  "presenter_payload sha256hex public_key timestamp body =
     encode_text (payload_text sha256hex public_key timestamp body)"

section \<open>Reading the header\<close>

text \<open>
  What the reader uses of other code: the JSON decoder, the text forms \<open>int\<close> accepts, the hash,
  the freshness window and the signature check.
\<close>

record presenter_env =
  pe_loads :: "string \<Rightarrow> exn + json"
  pe_int_of_text :: "string \<Rightarrow> int option"
  pe_sha256hex :: "string \<Rightarrow> string"
  pe_fresh :: "int \<Rightarrow> bool"
  pe_verify :: "string \<Rightarrow> string \<Rightarrow> string \<Rightarrow> bool"

text \<open>\<open>int(x)\<close>, with truncation towards zero for a float and its two errors.\<close>

definition truncate_rat :: "rat \<Rightarrow> int" where
  "truncate_rat r = (if r \<ge> 0 then \<lfloor>r\<rfloor> else \<lceil>r\<rceil>)"

fun py_int :: "(string \<Rightarrow> int option) \<Rightarrow> json \<Rightarrow> exn + int" where
  "py_int parse (JInt i) = Inr i"
| "py_int parse (JBool b) = Inr (if b then 1 else 0)"
| "py_int parse (JFloat (Fin r t)) = Inr (truncate_rat r)"
| "py_int parse (JFloat PosInf) = Inl (Exn OverflowError ''cannot convert float infinity to integer'')"
| "py_int parse (JFloat NegInf) = Inl (Exn OverflowError ''cannot convert float infinity to integer'')"
| "py_int parse (JFloat NaN) = Inl (Exn ValueError ''cannot convert float NaN to integer'')"
| "py_int parse (JStr s) =
     (case parse s of None \<Rightarrow> Inl (Exn ValueError ''invalid literal for int()'') | Some i \<Rightarrow> Inr i)"
| "py_int parse JNull = Inl (Exn TypeError ''int() argument'')"
| "py_int parse (JList xs) = Inl (Exn TypeError ''int() argument'')"
| "py_int parse (JObj d) = Inl (Exn TypeError ''int() argument'')"

text \<open>\<open>proof[k]\<close>: only an object can be indexed by a string.\<close>

definition subscript :: "json \<Rightarrow> string \<Rightarrow> exn + json" where
  "subscript j k =
     (case j of
        JObj d \<Rightarrow> (case map_of d k of None \<Rightarrow> Inl (Exn KeyError k) | Some v \<Rightarrow> Inr v)
      | _ \<Rightarrow> Inl (Exn TypeError ''indices must be integers''))"

text \<open>The exceptions of the \<open>except (TypeError, ValueError, KeyError)\<close> clause.\<close>

definition malformed :: "exn \<Rightarrow> bool" where
  "malformed e \<longleftrightarrow>
     is_class TypeError e \<or> is_class ValueError e \<or> is_class JSONDecodeError e \<or> is_class KeyError e"

text \<open>The three fields, in the order the code reads them.\<close>

definition read_proof :: "presenter_env \<Rightarrow> string \<Rightarrow> exn + json \<times> int \<times> json" where
  "read_proof E raw_header =
     (case pe_loads E raw_header of
        Inl e \<Rightarrow> Inl e
      | Inr proof \<Rightarrow>
          (case subscript proof ''publicKey'' of
             Inl e \<Rightarrow> Inl e
           | Inr public_key \<Rightarrow>
               (case subscript proof ''timestamp'' of
                  Inl e \<Rightarrow> Inl e
                | Inr raw \<Rightarrow>
                    (case py_int (pe_int_of_text E) raw of
                       Inl e \<Rightarrow> Inl e
                     | Inr timestamp \<Rightarrow>
                         (case subscript proof ''signature'' of
                            Inl e \<Rightarrow> Inl e
                          | Inr signature \<Rightarrow> Inr (public_key, timestamp, signature))))))"

definition presenter_key_of :: "presenter_env \<Rightarrow> string option \<Rightarrow> string \<Rightarrow> exn + string option" where
  "presenter_key_of E raw_header body =
     (case raw_header of
        None \<Rightarrow> Inr None
      | Some header \<Rightarrow>
          if header = [] then Inr None
          else (case read_proof E header of
                  Inl e \<Rightarrow> if malformed e then Inr None else Inl e
                | Inr (JStr public_key, timestamp, JStr signature) \<Rightarrow>
                    if \<not> pe_fresh E timestamp then Inr None
                    else (case presenter_payload (pe_sha256hex E) public_key timestamp body of
                            Inl e \<Rightarrow> Inl e
                          | Inr payload \<Rightarrow>
                              Inr (if pe_verify E public_key signature payload
                                   then Some public_key else None))
                | Inr _ \<Rightarrow> Inr None))"

section \<open>Facts\<close>

lemma colon_split:
  assumes "xs @ CHR '':'' # ys = xs' @ CHR '':'' # ys'" and "CHR '':'' \<notin> set ys" and "CHR '':'' \<notin> set ys'"
  shows "xs = xs' \<and> ys = ys'"
proof -
  have "rev (xs @ CHR '':'' # ys) = rev (xs' @ CHR '':'' # ys')" using assms(1) by simp
  then have e: "rev ys @ CHR '':'' # rev xs = rev ys' @ CHR '':'' # rev xs'" by simp
  have t: "takeWhile (\<lambda>c. c \<noteq> CHR '':'') (rev zs @ CHR '':'' # ws) = rev zs"
    if "CHR '':'' \<notin> set zs" for zs ws :: string
    using that by (subst takeWhile_append2) auto
  have "rev ys = rev ys'" using arg_cong [OF e, of "takeWhile (\<lambda>c. c \<noteq> CHR '':'')"] assms(2,3) t by simp
  with e show ?thesis by simp
qed

lemma int_text_no_colon: "CHR '':'' \<notin> set (int_text i)"
  using int_text_chars [of i] by auto

lemma payload_text_inject:
  assumes "payload_text h k t b = payload_text h k' t' b'" and "\<And>x. CHR '':'' \<notin> set (h x)"
  shows "k = k' \<and> t = t' \<and> h b = h b'"
proof -
  have eq: "(PRESENTER_DOMAIN @ '':'' @ k @ '':'' @ int_text t) @ CHR '':'' # h b =
      (PRESENTER_DOMAIN @ '':'' @ k' @ '':'' @ int_text t') @ CHR '':'' # h b'"
    using assms(1) by (simp add: payload_text_def)
  from colon_split [OF eq assms(2) assms(2)] have h: "h b = h b'"
    and "(PRESENTER_DOMAIN @ '':'' @ k) @ CHR '':'' # int_text t =
      (PRESENTER_DOMAIN @ '':'' @ k') @ CHR '':'' # int_text t'" by simp_all
  from colon_split [OF this(2) int_text_no_colon int_text_no_colon] h int_text_inject
  show ?thesis by auto
qed

lemma py_int_overflow:
  "py_int parse j = Inl e \<Longrightarrow> malformed e \<or> (e = Exn OverflowError ''cannot convert float infinity to integer''
     \<and> (j = JFloat PosInf \<or> j = JFloat NegInf))"
  by (induction parse j rule: py_int.induct) (auto simp: malformed_def split: option.splits)

lemma subscript_malformed: "subscript j k = Inl e \<Longrightarrow> malformed e"
  by (auto simp: subscript_def malformed_def split: json.splits option.splits)

lemma subscript_obj: "subscript j k = Inr v \<longleftrightarrow> (\<exists>d. j = JObj d \<and> map_of d k = Some v)"
  by (auto simp: subscript_def split: json.splits option.splits)

text \<open>The errors the reader does not take for a malformed header.\<close>

lemma read_proof_escapes:
  "(\<exists>e. read_proof E h = Inl e \<and> \<not> malformed e) \<longleftrightarrow>
     (\<exists>e. pe_loads E h = Inl e \<and> \<not> malformed e) \<or>
     (\<exists>d k. pe_loads E h = Inr (JObj d) \<and> map_of d ''publicKey'' = Some k \<and>
        (map_of d ''timestamp'' = Some (JFloat PosInf) \<or> map_of d ''timestamp'' = Some (JFloat NegInf)))"
  (is "?l \<longleftrightarrow> ?r")
proof
  assume ?l
  then obtain e where e: "read_proof E h = Inl e" "\<not> malformed e" by blast
  show ?r
  proof (cases "pe_loads E h")
    case (Inl x)
    with e show ?thesis by (simp add: read_proof_def)
  next
    case (Inr p)
    with e obtain k where k: "subscript p ''publicKey'' = Inr k"
      by (auto simp: read_proof_def split: sum.splits dest: subscript_malformed)
    with e Inr obtain raw where raw: "subscript p ''timestamp'' = Inr raw"
      by (auto simp: read_proof_def split: sum.splits dest: subscript_malformed)
    with e Inr k obtain x where "py_int (pe_int_of_text E) raw = Inl x" "\<not> malformed x"
      by (auto simp: read_proof_def split: sum.splits dest: subscript_malformed)
    then have "raw = JFloat PosInf \<or> raw = JFloat NegInf" using py_int_overflow by blast
    with Inr k raw show ?thesis by (auto simp: subscript_obj)
  qed
next
  assume ?r
  then show ?l
    by (elim disjE exE conjE)
       (auto simp: read_proof_def subscript_def malformed_def is_class_def)
qed

section \<open>Properties\<close>

text \<open>Two presenter proofs sign the same bytes only if they name the same key, the same timestamp
  and bodies with the same hash: a signature for one request cannot be presented for another, and
  not by another key, whatever characters the claimed key contains.\<close>

theorem presenter_payload_injective:
  assumes "presenter_payload h k t b = Inr p" and "presenter_payload h k' t' b' = Inr p"
    and "\<And>x. CHR '':'' \<notin> set (h x)"
  shows "k = k' \<and> t = t' \<and> h b = h b'"
proof -
  from assms(1,2) have "payload_text h k t b = payload_text h k' t' b'"
    by (auto simp: presenter_payload_def encode_text_def split: if_splits)
  then show ?thesis using assms(3) by (rule payload_text_inject)
qed

definition sample_hash :: "string \<Rightarrow> string" where
  "sample_hash b = nat_text (length b)"

lemma sample_hash_no_colon: "CHR '':'' \<notin> set (sample_hash x)"
  using nat_text_chars [of "length x"] by (auto simp: sample_hash_def)

theorem presenter_payload_injective_witness:
  "\<exists>p. presenter_payload sample_hash ''k:1'' 17 ''body'' = Inr p \<and>
     (''k:1'' = ''k:1'' \<and> (17::int) = 17 \<and> sample_hash ''body'' = sample_hash ''ydob'')"
proof -
  have a: "presenter_payload sample_hash ''k:1'' 17 ''body'' = Inr (payload_text sample_hash ''k:1'' 17 ''body'')"
    by code_simp
  have b: "presenter_payload sample_hash ''k:1'' 17 ''ydob'' = Inr (payload_text sample_hash ''k:1'' 17 ''body'')"
    by code_simp
  show ?thesis using presenter_payload_injective [OF a b sample_hash_no_colon] a by blast
qed

text \<open>C25. A request is attributed to a key only if its header is a JSON object naming that very key
  and a signature, its timestamp is within the freshness window, and the signature verifies under
  that key over the payload of exactly this body.\<close>

theorem presenter_key_proven:
  assumes "presenter_key_of E header body = Inr (Some key)"
  shows "\<exists>raw d ts sig payload. header = Some raw \<and> raw \<noteq> [] \<and> pe_loads E raw = Inr (JObj d) \<and>
    map_of d ''publicKey'' = Some (JStr key) \<and> map_of d ''signature'' = Some (JStr sig) \<and>
    (\<exists>j. map_of d ''timestamp'' = Some j \<and> py_int (pe_int_of_text E) j = Inr ts) \<and> pe_fresh E ts \<and>
    presenter_payload (pe_sha256hex E) key ts body = Inr payload \<and> pe_verify E key sig payload"
proof -
  obtain raw where h: "header = Some raw" "raw \<noteq> []"
    using assms by (cases header) (auto simp: presenter_key_of_def split: if_splits)
  obtain k ts sig where r: "read_proof E raw = Inr (JStr k, ts, JStr sig)"
    using assms h
    by (auto simp: presenter_key_of_def split: sum.splits prod.splits json.splits if_splits)
  from assms h r have "pe_fresh E ts" and "k = key"
    and "\<exists>payload. presenter_payload (pe_sha256hex E) k ts body = Inr payload \<and> pe_verify E k sig payload"
    by (auto simp: presenter_key_of_def split: sum.splits if_splits)
  moreover from r obtain p j where p: "pe_loads E raw = Inr p" "subscript p ''publicKey'' = Inr (JStr k)"
    "subscript p ''timestamp'' = Inr j" "py_int (pe_int_of_text E) j = Inr ts"
    "subscript p ''signature'' = Inr (JStr sig)"
    by (auto simp: read_proof_def split: sum.splits)
  ultimately show ?thesis using h by (auto simp: subscript_obj)
qed

definition sample_env :: "presenter_env" where
  "sample_env =
     \<lparr>pe_loads = (\<lambda>t. if t = ''good'' then Inr (JObj [(''publicKey'', JStr ''k1''),
           (''timestamp'', JInt 17), (''signature'', JStr ''s1'')])
         else if t = ''inf'' then Inr (JObj [(''publicKey'', JStr ''k1''), (''timestamp'', JFloat PosInf)])
         else Inl (Exn JSONDecodeError ''Expecting value'')),
      pe_int_of_text = (\<lambda>s. None), pe_sha256hex = sample_hash, pe_fresh = (\<lambda>t. t > 10),
      pe_verify = (\<lambda>k s p. k = ''k1'' \<and> s = ''s1'')\<rparr>"

lemma sample_proven: "presenter_key_of sample_env (Some ''good'') ''body'' = Inr (Some ''k1'')"
  by code_simp

theorem presenter_key_proven_witness:
  "\<exists>raw d ts sig payload. Some ''good'' = Some raw \<and> raw \<noteq> [] \<and> pe_loads sample_env raw = Inr (JObj d) \<and>
    map_of d ''publicKey'' = Some (JStr ''k1'') \<and> map_of d ''signature'' = Some (JStr sig) \<and>
    (\<exists>j. map_of d ''timestamp'' = Some j \<and> py_int (pe_int_of_text sample_env) j = Inr ts) \<and>
    pe_fresh sample_env ts \<and> presenter_payload (pe_sha256hex sample_env) ''k1'' ts ''body'' = Inr payload \<and>
    pe_verify sample_env ''k1'' sig payload"
  by (rule presenter_key_proven [OF sample_proven])

text \<open>A bad header reads as nobody and raises nothing, with three exceptions, in which the
  request fails instead: the decoder raises something that is no ValueError, TypeError or KeyError
  (nesting too deep), the timestamp is an infinite float, or a fresh, signed proof names a key
  that has no UTF-8 encoding.\<close>

theorem presenter_key_raises_iff:
  "(\<exists>e. presenter_key_of E header body = Inl e) \<longleftrightarrow>
     (\<exists>raw. header = Some raw \<and> raw \<noteq> [] \<and>
        ((\<exists>e. pe_loads E raw = Inl e \<and> \<not> malformed e) \<or>
         (\<exists>d k. pe_loads E raw = Inr (JObj d) \<and> map_of d ''publicKey'' = Some k \<and>
            (map_of d ''timestamp'' = Some (JFloat PosInf) \<or> map_of d ''timestamp'' = Some (JFloat NegInf))) \<or>
         (\<exists>key ts sig. read_proof E raw = Inr (JStr key, ts, JStr sig) \<and> pe_fresh E ts \<and>
            \<not> encodable (payload_text (pe_sha256hex E) key ts body))))"
proof (cases header)
  case None
  then show ?thesis by (simp add: presenter_key_of_def)
next
  case (Some raw)
  show ?thesis
  proof (cases "raw = []")
    case True
    with Some show ?thesis by (simp add: presenter_key_of_def)
  next
    case False
    have esc: "(\<exists>e. presenter_key_of E header body = Inl e) \<longleftrightarrow>
        (\<exists>e. read_proof E raw = Inl e \<and> \<not> malformed e) \<or>
        (\<exists>key ts sig. read_proof E raw = Inr (JStr key, ts, JStr sig) \<and> pe_fresh E ts \<and>
           \<not> encodable (payload_text (pe_sha256hex E) key ts body))"
      using Some False
      by (auto simp: presenter_key_of_def presenter_payload_def encode_text_def
          split: sum.splits prod.splits json.splits)
    show ?thesis unfolding esc read_proof_escapes using Some False by blast
  qed
qed

lemma infinite_timestamp_raises: "\<exists>e. presenter_key_of sample_env (Some ''inf'') ''body'' = Inl e"
  by (simp add: presenter_key_of_def read_proof_def subscript_def sample_env_def malformed_def is_class_def)

end
