(* ===== verification/Http_Errors.thy ===== *)
theory Http_Errors
  imports Funduq_Core
begin

text \<open>
  \<open>souk_server/deps.py\<close>: the one mapping from domain errors to HTTP responses, and the resolution
  of an address into the agent it names. With it \<open>_escape\<close> of \<open>souk_server/api_a2a.py\<close>, which
  decides the same for the errors that leave A2A's vocabulary.
\<close>

record response =
  r_status :: nat
  r_headers :: "(string \<times> string) list"
  r_body :: json

text \<open>The \<open>_STATUS\<close> table, keyed by the exact type.\<close>

definition STATUS :: "(exn_class \<times> nat) list" where
  "STATUS =
     [(AgentNotFound, 404), (LlmProviderNotFound, 404), (ThreadNotFound, 404), (RunNotFound, 404),
      (ThreadOwnershipMismatch, 409), (ProviderFingerprintTaken, 409), (AgentInUse, 409),
      (LlmOfferingInUse, 409), (InvalidRegistration, 401), (InvalidChain, 401),
      (PresenterRequired, 401), (StreamTaken, 409), (InvalidCancel, 401), (InvalidResolution, 401),
      (ThreadMembershipRequired, 403), (InvalidRunInput, 400), (ThreadQueueFull, 429)]"

definition status_of :: "exn \<Rightarrow> nat" where
  "status_of e =
     (case e of
        Exn k m \<Rightarrow> (case map_of STATUS k of Some n \<Rightarrow> n | None \<Rightarrow> 500)
      | HttpExn s m hs \<Rightarrow> 500
      | KyokExn s m r \<Rightarrow> 500)"

definition detail :: "exn \<Rightarrow> json" where
  "detail e =
     (if is_class ThreadNotFound e then JStr (''thread '' @ [CHR 0x27] @ exn_text e @ [CHR 0x27] @ '' not found'')
      else if is_class InvalidChain e then JStr (''invalid actor chain: '' @ exn_text e)
      else JStr (exn_text e))"

definition handle :: "exn \<Rightarrow> response" where
  "handle e =
     (let content = [(''detail'', detail e)] in
      case e of
        KyokExn status m refusal \<Rightarrow>
          \<lparr>r_status = status, r_headers = [],
           r_body = JObj (case refusal of None \<Rightarrow> content | Some r \<Rightarrow> dict_merge content [(''error'', r)])\<rparr>
      | _ \<Rightarrow> \<lparr>r_status = status_of e, r_headers = [], r_body = JObj content\<rparr>)"

text \<open>What a client of the repository makes of any of them: \<open>raise_for_status\<close> raises.\<close>

definition http_refused :: exn where
  "http_refused = Exn (OtherExc ''HTTPStatusError'') []"

text \<open>
  Which exceptions get a handler: the types of the table, \<open>KyokRejected\<close> and \<open>FunduqError\<close>, with
  their subclasses; \<open>HTTPException\<close> keeps the framework's own handler; anything else is left to
  the server (\<open>None\<close>).
\<close>

definition answer_error :: "(exn \<Rightarrow> bool) \<Rightarrow> exn \<Rightarrow> response option" where
  "answer_error funduq_error e =
     (case e of
        HttpExn status m headers \<Rightarrow>
          Some \<lparr>r_status = status, r_headers = headers, r_body = JObj [(''detail'', JStr m)]\<rparr>
      | KyokExn s m r \<Rightarrow> Some (handle e)
      | Exn k m \<Rightarrow> if k \<in> fst ` set STATUS \<or> funduq_error e then Some (handle e) else None)"

section \<open>Errors that leave A2A's vocabulary\<close>

definition escapable :: "exn \<Rightarrow> bool" where
  "escapable e \<longleftrightarrow> is_class AgentNotFound e \<or> is_class PresenterRequired e \<or> is_class ThreadQueueFull e"

definition escape :: "exn \<Rightarrow> exn" where
  "escape e =
     (if is_class AgentNotFound e then HttpExn 404 (exn_text e) []
      else if is_class PresenterRequired e then HttpExn 401 (exn_text e) []
      else if is_class ThreadQueueFull e
        then HttpExn 429 (exn_text e @ '' '' @ em_dash @ '' retry after a moment; the request was not accepted'')
               [(''Retry-After'', ''1'')]
      else e)"

section \<open>Addresses\<close>

definition resolve_ref ::
  "(string \<Rightarrow> string \<Rightarrow> ('c, exn, agent_ref option) call) \<Rightarrow> string \<Rightarrow> string \<Rightarrow> ('c, exn, agent_ref) call" where
  "resolve_ref resolve_agent provider name =
     bind_io (resolve_agent provider name) (\<lambda>found.
       case found of
         None \<Rightarrow> raise_io (Exn AgentNotFound (''no agent '' @ [CHR 0x27] @ name @ [CHR 0x27] @
                   '' under provider '' @ [CHR 0x27] @ provider @ [CHR 0x27]))
       | Some r \<Rightarrow> ret_io \<lparr>ref_provider_key = ref_provider_key r, ref_name = ref_name r\<rparr>)"

section \<open>Facts\<close>

lemma STATUS_distinct: "distinct (map fst STATUS)"
  by (simp add: STATUS_def)

lemma STATUS_range: "(k, n) \<in> set STATUS \<Longrightarrow> n \<in> {400, 401, 403, 404, 409, 429}"
  by (auto simp: STATUS_def)

lemma status_of_listed: "(k, n) \<in> set STATUS \<Longrightarrow> status_of (Exn k m) = n"
  using map_of_is_SomeI [OF STATUS_distinct] by (simp add: status_of_def)

lemma escape_kept: "\<not> escapable e \<Longrightarrow> escape e = e"
  by (simp add: escapable_def escape_def)

lemma escape_http: "escapable e \<Longrightarrow> \<exists>s m hs. escape e = HttpExn s m hs"
  by (auto simp: escapable_def escape_def)

section \<open>Properties\<close>

text \<open>Every error of the table is answered, by its own status, all of them client errors and
  never 500, with no header and a body holding one \<open>detail\<close> string; a refused completion is
  answered by the status it carries, with the provider's refusal intact beside the detail.\<close>

theorem domain_errors_answered:
  "(\<forall>k n m. (k, n) \<in> set STATUS \<longrightarrow>
      (\<exists>d. answer_error K (Exn k m) = Some \<lparr>r_status = n, r_headers = [], r_body = JObj [(''detail'', JStr d)]\<rparr>) \<and>
      400 \<le> n \<and> n < 500) \<and>
   (\<forall>s m r. answer_error K (KyokExn s m (Some r)) =
      Some \<lparr>r_status = s, r_headers = [], r_body = JObj [(''detail'', JStr m), (''error'', r)]\<rparr>)"
proof (intro conjI allI impI)
  fix k n m
  assume kn: "(k, n) \<in> set STATUS"
  then have "k \<in> fst ` set STATUS" by force
  then show "\<exists>d. answer_error K (Exn k m) =
      Some \<lparr>r_status = n, r_headers = [], r_body = JObj [(''detail'', JStr d)]\<rparr>"
    using status_of_listed [OF kn, of m] by (simp add: answer_error_def handle_def Let_def detail_def)
  show "400 \<le> n" and "n < 500" using STATUS_range [OF kn] by auto
next
  fix s m r
  show "answer_error K (KyokExn s m (Some r)) =
      Some \<lparr>r_status = s, r_headers = [], r_body = JObj [(''detail'', JStr m), (''error'', r)]\<rparr>"
    by (simp add: answer_error_def handle_def Let_def detail_def)
qed

theorem domain_errors_answered_witness:
  "(\<exists>d. answer_error (\<lambda>e. False) (Exn ThreadQueueFull ''full'') =
     Some \<lparr>r_status = 429, r_headers = [], r_body = JObj [(''detail'', JStr d)]\<rparr>)"
  using domain_errors_answered [of "\<lambda>e. False", THEN conjunct1, rule_format, of ThreadQueueFull 429 "''full''"]
  by (simp add: STATUS_def)

text \<open>An error the A2A handler lets out reaches the caller with the same status the table gives
  it on every other road, and a full queue is always answered with a retry header.\<close>

theorem escape_agrees_with_table:
  assumes "escapable e"
  shows "\<exists>r. answer_error K (escape e) = Some r \<and> r_status r = status_of e \<and>
    (is_class ThreadQueueFull e \<longrightarrow> r_headers r = [(''Retry-After'', ''1'')])"
  using assms
  by (cases e) (auto simp: escapable_def escape_def answer_error_def status_of_def STATUS_def)

theorem escape_agrees_with_table_witness:
  "\<exists>r. answer_error (\<lambda>e. False) (escape (Exn ThreadQueueFull ''full'')) = Some r \<and>
    r_status r = status_of (Exn ThreadQueueFull ''full'') \<and>
    (is_class ThreadQueueFull (Exn ThreadQueueFull ''full'') \<longrightarrow> r_headers r = [(''Retry-After'', ''1'')])"
  by (rule escape_agrees_with_table) (simp add: escapable_def)

end
