(* ===== verification/A2A_Door.thy ===== *)
theory A2A_Door
  imports Reads Presenter Http_Errors
begin

text \<open>
  \<open>souk_server/api_a2a.py\<close>: the five overridden operations of \<open>SoukA2ARequestHandler\<close> around the
  upstream handler they delegate to, the hook that says who presented the request, and the asks
  put on a task that waits for an answer.
\<close>

section \<open>The upstream handler and the records it serves\<close>

text \<open>
  Of a Task the door reads its id and context and writes its metadata; of a run row its id and
  thread. A stream is the events it yields and the exception, if any, that ends it.
\<close>

record task =
  task_id :: string
  task_context :: string
  task_metadata :: obj
  task_rest :: json

record run_row =
  row_run_id :: string
  row_thread_id :: string

datatype sent = SentTask task | SentMessage json

record page =
  page_tasks :: "task list"
  page_token :: string
  page_size :: int
  page_total :: int

type_synonym hook = "exn + string option"
type_synonym 'c event_stream = "'c \<Rightarrow> (json list \<times> exn option) \<times> 'c"

text \<open>
  The operations of \<open>A2ARequestHandler\<close> bound to one agent, each given the presenter hook it was
  constructed with, and what the door asks core directly.
\<close>

record 'c a2a_core = "'c core" +
  up_send :: "hook \<Rightarrow> json \<Rightarrow> ('c, exn, sent) call"
  up_send_stream :: "hook \<Rightarrow> json \<Rightarrow> 'c event_stream"
  up_get_task :: "hook \<Rightarrow> json \<Rightarrow> ('c, exn, task option) call"
  up_cancel_task :: "hook \<Rightarrow> json \<Rightarrow> ('c, exn, task option) call"
  up_subscribe :: "hook \<Rightarrow> string \<Rightarrow> 'c event_stream"
  up_list_tasks :: "hook \<Rightarrow> string \<Rightarrow> json \<Rightarrow> ('c, exn, page) call"
  run_lineage :: "string \<Rightarrow> ('c, exn, run_row list) call"
  run_events :: "string \<Rightarrow> ('c, exn, json list) call"
  get_run :: "string \<Rightarrow> ('c, exn, run_row option) call"
  open_asks :: "json list \<Rightarrow> string list"
  funduq_metadata_of :: "task \<Rightarrow> obj"
  observed_key :: string

section \<open>Who is asking\<close>

definition PRESENTER_HEADER :: string where
  "PRESENTER_HEADER = ''funduq-presenter''"

text \<open>The hook for one request: its headers, as the context carries them, and its body.\<close>

definition presenter_hook :: "presenter_env \<Rightarrow> (string \<rightharpoonup> string) \<Rightarrow> string \<Rightarrow> hook" where
  "presenter_hook E headers body = presenter_key_of E (headers PRESENTER_HEADER) body"

definition ask_hook :: "hook \<Rightarrow> ('c, exn, string option) call" where
  "ask_hook h = (case h of Inl e \<Rightarrow> raise_io e | Inr k \<Rightarrow> ret_io k)"

section \<open>The asks of a waiting task\<close>

definition OUTSTANDING_ASKS :: string where
  "OUTSTANDING_ASKS = ''outstandingAsks''"

definition with_asks :: "('c, 'z) a2a_core_scheme \<Rightarrow> string list \<Rightarrow> task \<Rightarrow> task" where
  "with_asks F asks t =
     t\<lparr>task_metadata := AList.update (observed_key F)
         (JObj (dict_merge (funduq_metadata_of F t)
            [(OUTSTANDING_ASKS, JList (map JStr (sort asks)))])) (task_metadata t)\<rparr>"

definition annotate_asks :: "('c, 'z) a2a_core_scheme \<Rightarrow> task option \<Rightarrow> ('c, exn, task option) call" where
  "annotate_asks F t =
     (case t of
        None \<Rightarrow> ret_io None
      | Some task \<Rightarrow>
          bind_io (run_lineage F (task_id task)) (\<lambda>lineage.
            if lineage = [] then ret_io (Some task)
            else bind_io (run_events F (row_run_id (last lineage))) (\<lambda>events.
              ret_io (Some (if open_asks F events \<noteq> [] then with_asks F (open_asks F events) task else task)))))"

section \<open>The overridden operations\<close>

definition on_message_send ::
  "('c, 'z) a2a_core_scheme \<Rightarrow> hook \<Rightarrow> json \<Rightarrow> ('c, exn, sent) call" where
  "on_message_send F h params =
     bind_io (catch_io (up_send F h params) (\<lambda>e. raise_io (escape e))) (\<lambda>reply.
       case reply of
         SentMessage m \<Rightarrow> ret_io (SentMessage m)
       | SentTask t \<Rightarrow> bind_io (annotate_asks F (Some t)) (\<lambda>t'.
           case t' of Some u \<Rightarrow> ret_io (SentTask u) | None \<Rightarrow> ret_io (SentTask t)))"

definition on_message_send_stream :: "('c, 'z) a2a_core_scheme \<Rightarrow> hook \<Rightarrow> json \<Rightarrow> 'c event_stream" where
  "on_message_send_stream F h params =
     (\<lambda>c. case up_send_stream F h params c of
            ((events, stop), c') \<Rightarrow> ((events, map_option escape stop), c'))"

definition on_get_task ::
  "('c, 'z) a2a_core_scheme \<Rightarrow> hook \<Rightarrow> json \<Rightarrow> ('c, exn, task option) call" where
  "on_get_task F h params =
     bind_io (up_get_task F h params) (\<lambda>t.
       case t of
         None \<Rightarrow> annotate_asks F None
       | Some task \<Rightarrow> bind_io (ask_hook h) (\<lambda>key.
           bind_io (may_read F (task_context task) key) (\<lambda>allowed.
             if \<not> allowed then ret_io None else annotate_asks F (Some task))))"

definition on_cancel_task ::
  "('c, 'z) a2a_core_scheme \<Rightarrow> hook \<Rightarrow> json \<Rightarrow> ('c, exn, task option) call" where
  "on_cancel_task F h params = bind_io (up_cancel_task F h params) (annotate_asks F)"

definition no_task :: "string \<Rightarrow> exn" where
  "no_task tid = Exn TaskNotFoundError (''no task '' @ [CHR 0x27] @ tid @ [CHR 0x27] @ '' for this agent'')"

definition on_subscribe_to_task :: "('c, 'z) a2a_core_scheme \<Rightarrow> hook \<Rightarrow> string \<Rightarrow> 'c event_stream" where
  "on_subscribe_to_task F h tid =
     (\<lambda>c. case bind_io (get_run F tid) (\<lambda>run.
                  case run of
                    None \<Rightarrow> ret_io True
                  | Some r \<Rightarrow> bind_io (ask_hook h) (\<lambda>key. may_read F (row_thread_id r) key)) c of
            (Inl e, c') \<Rightarrow> (([], Some e), c')
          | (Inr False, c') \<Rightarrow> (([], Some (no_task tid)), c')
          | (Inr True, c') \<Rightarrow> up_subscribe F h tid c')"

definition empty_page :: page where
  "empty_page = \<lparr>page_tasks = [], page_token = [], page_size = 0, page_total = 0\<rparr>"

definition on_list_tasks ::
  "('c, 'z) a2a_core_scheme \<Rightarrow> hook \<Rightarrow> string \<Rightarrow> json \<Rightarrow> ('c, exn, page) call" where
  "on_list_tasks F h context_id params =
     (if context_id = [] then up_list_tasks F h context_id params
      else bind_io (ask_hook h) (\<lambda>key. bind_io (may_read F context_id key) (\<lambda>allowed.
        if \<not> allowed then ret_io empty_page else up_list_tasks F h context_id params)))"

section \<open>Addresses this gateway serves\<close>

definition interface_url :: "(string \<Rightarrow> string) \<Rightarrow> string \<Rightarrow> agent_ref \<Rightarrow> string" where
  "interface_url fingerprint public_http_url agent =
     rstrip_slash public_http_url @ ''/a2a/'' @ fingerprint (ref_provider_key agent) @ ''/'' @
     ref_name agent @ ''/rpc''"

text \<open>
  The two routes of an agent: the address is resolved before anything else runs. The card builder and
  the JSON-RPC dispatcher, which is given the agent and the raw body, are arguments.
\<close>

definition agent_card_by_pair ::
  "(string \<Rightarrow> string \<Rightarrow> ('c, exn, agent_ref option) call) \<Rightarrow> (agent_ref \<Rightarrow> string \<Rightarrow> ('c, exn, json) call) \<Rightarrow>
   (string \<Rightarrow> string) \<Rightarrow> string \<Rightarrow> string \<Rightarrow> string \<Rightarrow> ('c, exn, json) call" where
  "agent_card_by_pair resolve_agent agent_card fingerprint public_http_url provider name =
     bind_io (resolve_ref resolve_agent provider name) (\<lambda>agent.
       agent_card agent (interface_url fingerprint public_http_url agent))"

definition rpc_by_pair ::
  "(string \<Rightarrow> string \<Rightarrow> ('c, exn, agent_ref option) call) \<Rightarrow> (agent_ref \<Rightarrow> string \<Rightarrow> ('c, exn, json) call) \<Rightarrow>
   string \<Rightarrow> string \<Rightarrow> string \<Rightarrow> ('c, exn, json) call" where
  "rpc_by_pair resolve_agent dispatch provider name body =
     bind_io (resolve_ref resolve_agent provider name) (\<lambda>agent. dispatch agent body)"

section \<open>Facts\<close>

lemma bind_io_run: "bind_io m f c = (case m c of (Inl e, c') \<Rightarrow> (Inl e, c') | (Inr x, c') \<Rightarrow> f x c')"
  by (rule bind_io_app)

lemma ask_hook_simps [io_simps]:
  "ask_hook (Inl e) c = (Inl e, c)" "ask_hook (Inr k) c = (Inr k, c)"
  by (simp_all add: ask_hook_def io_simps)

lemma annotate_None [io_simps]: "annotate_asks F None c = (Inr None, c)"
  by (simp add: annotate_asks_def io_simps)

lemma annotate_Some:
  assumes "annotate_asks F (Some t) c = (Inr r, c')"
  shows "\<exists>lineage c1. run_lineage F (task_id t) c = (Inr lineage, c1) \<and>
    (if lineage = [] then r = Some t \<and> c' = c1
     else \<exists>events. run_events F (row_run_id (last lineage)) c1 = (Inr events, c') \<and>
       r = Some (if open_asks F events \<noteq> [] then with_asks F (open_asks F events) t else t))"
  using assms
  by (auto simp: annotate_asks_def io_simps split: prod.splits sum.splits if_splits)

lemma with_asks_kept:
  "task_id (with_asks F a t) = task_id t" "task_context (with_asks F a t) = task_context t"
  "task_rest (with_asks F a t) = task_rest t"
  by (simp_all add: with_asks_def)

lemma dget_merge_one: "dget (dict_merge d [(k, v)]) j = (if j = k then v else dget d j)"
  by simp

lemma may_read_at_of:
  "may_read F t k c = (Inr b, c') \<Longrightarrow> b = may_read_at F c t k"
  using may_read_false_or_true [of F t k c b] by simp

text \<open>An address nobody has is a 404, and the dispatcher never sees the request.\<close>

lemma rpc_unknown_agent:
  assumes "resolve_agent provider name c = (Inr None, c')"
  shows "\<exists>e. rpc_by_pair resolve_agent dispatch provider name body c = (Inl e, c') \<and> status_of e = 404"
  using assms by (simp add: rpc_by_pair_def resolve_ref_def io_simps status_of_def STATUS_def)

end
