(* ===== verification/A2A_Props.thy ===== *)
theory A2A_Props
  imports A2A_Door Sample_Core
begin

text \<open>
  What the A2A door guarantees: reads are gated by the one reading rule on the key the request
  proved, a denied read is the answer for a thing that is not there, and a waiting task carries
  the asks of its lineage's last run.
\<close>

section \<open>A sample\<close>

text \<open>One task on the thread \<open>sealed\<close> and one on \<open>open\<close>, each a lineage of two runs.\<close>

definition sample_task :: "string \<Rightarrow> task" where
  "sample_task t =
     \<lparr>task_id = ''root'', task_context = t,
      task_metadata = [(''funduq'', JObj [(''interrupts'', JInt 1)]), (''mine'', JInt 2)], task_rest = JNull\<rparr>"

definition sample_page :: page where
  "sample_page = \<lparr>page_tasks = [sample_task ''sealed''], page_token = [], page_size = 1, page_total = 1\<rparr>"

definition sample_a2a :: "string \<Rightarrow> sample a2a_core" where
  "sample_a2a t = core.extend (sample_core [])
     (a2a_core.fields
       (\<lambda>h p c. (Inr (SentTask (sample_task t)), c))
       (\<lambda>h p c. (([], None), c))
       (\<lambda>h p c. (Inr (Some (sample_task t)), c))
       (\<lambda>h p c. (Inr (Some (sample_task t)), c))
       (\<lambda>h i c. (([JStr ''event''], None), c))
       (\<lambda>h x p c. (Inr sample_page, c))
       (\<lambda>i c. (Inr [\<lparr>row_run_id = ''root'', row_thread_id = t\<rparr>,
                    \<lparr>row_run_id = ''tail'', row_thread_id = t\<rparr>], c))
       (\<lambda>r c. (Inr (if r = ''tail'' then [JStr ''b'', JStr ''a''] else [JStr ''old'']), c))
       (\<lambda>i c. (Inr (Some \<lparr>row_run_id = i, row_thread_id = t\<rparr>), c))
       (map (\<lambda>j. case j of JStr s \<Rightarrow> s | _ \<Rightarrow> []))
       (\<lambda>t. case dget (task_metadata t) ''funduq'' of JObj d \<Rightarrow> d | _ \<Rightarrow> [])
       ''funduq'')"

lemmas sample_a2a_simps =
  sample_a2a_def core.defs a2a_core.defs sample_task_def sample_page_def

section \<open>Gated reads\<close>

text \<open>A task is handed out by the read operation only if upstream found it and the reading rule,
  asked about the task's own thread right after, lets in the very key the request proved (or
  anybody, for a thread bound to nobody); what is handed out is that task, its asks aside.\<close>

theorem a2a_get_task_gated:
  assumes "on_get_task F h params c = (Inr (Some t), c')"
  shows "\<exists>task key c1. up_get_task F h params c = (Inr (Some task), c1) \<and> h = Inr key \<and>
    thread_known F c1 (task_context task) \<and>
    (\<exists>ps. parties_seen F c1 (task_context task) = Some ps \<and>
       (ps = None \<or> (\<exists>x xs. ps = Some xs \<and> key = Some x \<and> x \<in> set xs))) \<and>
    task_id t = task_id task \<and> task_context t = task_context task \<and> task_rest t = task_rest task"
proof -
  from assms obtain task c1 where up: "up_get_task F h params c = (Inr (Some task), c1)"
    and rest: "bind_io (ask_hook h) (\<lambda>key. bind_io (may_read F (task_context task) key) (\<lambda>allowed.
        if \<not> allowed then ret_io None else annotate_asks F (Some task))) c1 = (Inr (Some t), c')"
    by (auto simp: on_get_task_def io_simps split: prod.splits sum.splits option.splits)
  then obtain key c2 where h: "h = Inr key" and may: "may_read F (task_context task) key c1 = (Inr True, c2)"
    and ann: "annotate_asks F (Some task) c2 = (Inr (Some t), c')"
    by (cases h) (auto simp: io_simps split: prod.splits sum.splits if_splits)
  from may have "may_read_at F c1 (task_context task) key" by (simp add: may_read_at_def)
  moreover from annotate_Some [OF ann] have
    "task_id t = task_id task \<and> task_context t = task_context task \<and> task_rest t = task_rest task"
    by (auto simp: with_asks_kept split: if_splits)
  ultimately show ?thesis using up h unfolding rg.reads_iff by blast
qed

lemma sample_get_task:
  "on_get_task (sample_a2a ''open'') (Inr None) JNull sample_state =
     (Inr (Some (with_asks (sample_a2a ''open'') [''b'', ''a''] (sample_task ''open''))), sample_state)"
  by (simp add: on_get_task_def may_read_def annotate_asks_def with_asks_def io_simps sample_a2a_simps sample_simps)

theorem a2a_get_task_gated_witness:
  "\<exists>task key c1. up_get_task (sample_a2a ''open'') (Inr None) JNull sample_state = (Inr (Some task), c1) \<and>
    Inr None = (Inr key :: hook) \<and> thread_known (sample_a2a ''open'') c1 (task_context task) \<and>
    (\<exists>ps. parties_seen (sample_a2a ''open'') c1 (task_context task) = Some ps \<and>
       (ps = None \<or> (\<exists>x xs. ps = Some xs \<and> key = Some x \<and> x \<in> set xs))) \<and>
    task_id (with_asks (sample_a2a ''open'') [''b'', ''a''] (sample_task ''open'')) = task_id task \<and>
    task_context (with_asks (sample_a2a ''open'') [''b'', ''a''] (sample_task ''open'')) = task_context task \<and>
    task_rest (with_asks (sample_a2a ''open'') [''b'', ''a''] (sample_task ''open'')) = task_rest task"
  by (rule a2a_get_task_gated [OF sample_get_task])

lemma may_read_stranger:
  assumes "thread_known F c t" and "parties_seen F c t = Some (Some ps)"
    and "\<And>x. key = Some x \<Longrightarrow> x \<notin> set ps"
  shows "\<exists>c'. may_read F t key c = (Inr False, c')"
proof -
  have "\<not> may_read_at F c t key" using assms by (auto simp: rg.bound_parties)
  moreover have "\<exists>b c'. may_read F t key c = (Inr b, c')"
    using assms(1,2)
    by (auto simp: thread_known_def parties_seen_def may_read_def io_simps
        split: prod.splits sum.splits option.splits)
  ultimately show ?thesis by (auto simp: may_read_at_def)
qed

text \<open>C26. To a caller who proved no key, or a key that is no party, a thread that is bound to its
  parties is not there: the task read answers \<open>None\<close>, the answer for a task that is not this
  agent's; the stream refuses with the not-found error before any event; and the listing is the
  empty page.\<close>

theorem a2a_strangers_see_nothing:
  assumes "thread_known F c ctx" and "parties_seen F c ctx = Some (Some ps)"
    and "\<And>x. key = Some x \<Longrightarrow> x \<notin> set ps" and "ctx \<noteq> []"
    and "up_get_task F (Inr key) params c0 = (Inr (Some task), c)" and "task_context task = ctx"
    and "get_run F tid c1 = (Inr (Some run), c)" and "row_thread_id run = ctx"
  shows "fst (on_get_task F (Inr key) params c0) = Inr None \<and>
    fst (on_subscribe_to_task F (Inr key) tid c1) = ([], Some (no_task tid)) \<and>
    fst (on_list_tasks F (Inr key) ctx params c) = Inr empty_page"
proof -
  obtain c' where m: "may_read F ctx key c = (Inr False, c')"
    using may_read_stranger [OF assms(1-3)] by blast
  show ?thesis
    using assms(4-8) m
    by (simp add: on_get_task_def on_subscribe_to_task_def on_list_tasks_def io_simps)
qed

theorem a2a_strangers_see_nothing_witness:
  "fst (on_get_task (sample_a2a ''sealed'') (Inr (Some ''key1'')) JNull sample_state) = Inr None \<and>
   fst (on_subscribe_to_task (sample_a2a ''sealed'') (Inr (Some ''key1'')) ''root'' sample_state) =
     ([], Some (no_task ''root'')) \<and>
   fst (on_list_tasks (sample_a2a ''sealed'') (Inr (Some ''key1'')) ''sealed'' JNull sample_state) = Inr empty_page"
  by (rule a2a_strangers_see_nothing
        [where ps = "[''key9'']" and task = "sample_task ''sealed''" and c = sample_state
           and run = "\<lparr>row_run_id = ''root'', row_thread_id = ''sealed''\<rparr>"])
     (simp_all add: thread_known_def parties_seen_def sample_a2a_simps sample_simps)

section \<open>The asks\<close>

text \<open>A task is annotated off the last run of its lineage, not off the run its id names: if that
  run's events leave asks open, the task's metadata gains exactly their sorted ids under core's
  own key, beside what core wrote there and without touching any other metadata; otherwise, and
  for a task of no lineage, it is handed back as it was.\<close>

theorem asks_of_the_tail:
  assumes "annotate_asks F (Some t) c = (Inr r, c')"
  shows "\<exists>u lineage c1. r = Some u \<and> run_lineage F (task_id t) c = (Inr lineage, c1) \<and>
    task_id u = task_id t \<and> task_context u = task_context t \<and>
    (if lineage = [] then u = t
     else \<exists>events. run_events F (row_run_id (last lineage)) c1 = (Inr events, c') \<and>
       (if open_asks F events = [] then u = t
        else (\<exists>d. dget (task_metadata u) (observed_key F) = JObj d \<and>
                dget d OUTSTANDING_ASKS = JList (map JStr (sort (open_asks F events))) \<and>
                (\<forall>k. k \<noteq> OUTSTANDING_ASKS \<longrightarrow> dget d k = dget (funduq_metadata_of F t) k)) \<and>
             (\<forall>k. k \<noteq> observed_key F \<longrightarrow> dget (task_metadata u) k = dget (task_metadata t) k)))"
proof -
  from annotate_Some [OF assms] obtain lineage c1 where l: "run_lineage F (task_id t) c = (Inr lineage, c1)"
    and rest: "if lineage = [] then r = Some t \<and> c' = c1
     else \<exists>events. run_events F (row_run_id (last lineage)) c1 = (Inr events, c') \<and>
       r = Some (if open_asks F events \<noteq> [] then with_asks F (open_asks F events) t else t)"
    by blast
  have asks: "(\<exists>d. dget (task_metadata (with_asks F a t)) (observed_key F) = JObj d \<and>
                dget d OUTSTANDING_ASKS = JList (map JStr (sort a)) \<and>
                (\<forall>k. k \<noteq> OUTSTANDING_ASKS \<longrightarrow> dget d k = dget (funduq_metadata_of F t) k)) \<and>
      (\<forall>k. k \<noteq> observed_key F \<longrightarrow> dget (task_metadata (with_asks F a t)) k = dget (task_metadata t) k)" for a
    by (simp add: with_asks_def)
  show ?thesis
  proof (cases "lineage = []")
    case True
    with l rest show ?thesis by auto
  next
    case False
    with rest obtain events where e: "run_events F (row_run_id (last lineage)) c1 = (Inr events, c')"
      and r: "r = Some (if open_asks F events \<noteq> [] then with_asks F (open_asks F events) t else t)"
      by auto
    show ?thesis
    proof (cases "open_asks F events = []")
      case True
      with False l e r show ?thesis by auto
    next
      case asked: False
      with r have "r = Some (with_asks F (open_asks F events) t)" by simp
      with False asked l e asks [of "open_asks F events"] show ?thesis
        by (intro exI [of _ "with_asks F (open_asks F events) t"] exI [of _ lineage] exI [of _ c1])
           (simp add: with_asks_kept)
    qed
  qed
qed

theorem asks_of_the_tail_witness:
  "\<exists>u. annotate_asks (sample_a2a ''open'') (Some (sample_task ''open'')) sample_state = (Inr (Some u), sample_state) \<and>
     task_id u = ''root''"
proof -
  have a: "annotate_asks (sample_a2a ''open'') (Some (sample_task ''open'')) sample_state =
     (Inr (Some (with_asks (sample_a2a ''open'') [''b'', ''a''] (sample_task ''open''))), sample_state)"
    by (simp add: annotate_asks_def with_asks_def io_simps sample_a2a_simps)
  from asks_of_the_tail [OF a] a show ?thesis by (auto simp: sample_task_def)
qed

end
