(* ===== verification/A2a_Client.thy ===== *)
theory A2a_Client
  imports Presenter
begin

text \<open>
  \<open>souk-agent-sdk/souk_agent_sdk/a2a_client.py\<close>: the params of a call, the body serialized once
  with the presenter's proof over exactly those bytes, and what is taken from the answers. The
  HTTP exchange itself, the random ids and the clock are arguments.
\<close>

section \<open>The presenter's proof\<close>

text \<open>
  What the caller holds: its key and what its private half signs; the hash, the serializer and the
  clock come from the standard library.
\<close>

record presenter_identity =
  pi_key :: string
  pi_sign :: "string \<Rightarrow> string"

record sdk_env =
  sdk_sha256hex :: "string \<Rightarrow> string"
  sdk_dumps :: "json \<Rightarrow> string"
  sdk_now :: int

definition CLIENT_PRESENTER_HEADER :: string where
  "CLIENT_PRESENTER_HEADER = ''Funduq-Presenter''"

definition A2A_VERSION_HEADER :: string where
  "A2A_VERSION_HEADER = ''A2A-Version''"

definition A2A_PROTOCOL_VERSION :: string where
  "A2A_PROTOCOL_VERSION = ''1.0''"

definition INTERJECTION_EXTENSION_URI :: string where
  "INTERJECTION_EXTENSION_URI = ''https://github.com/hukaichun/funduq/ext/interjection/v1''"

definition ADDRESSED_RUN_METADATA_KEY :: string where
  "ADDRESSED_RUN_METADATA_KEY = INTERJECTION_EXTENSION_URI @ ''/addressedRunId''"

text \<open>This side's own statement of the signed bytes, from the hash of the body.\<close>

definition signed_payload :: "string \<Rightarrow> int \<Rightarrow> string \<Rightarrow> exn + string" where
  "signed_payload public_key timestamp body_hash =
     encode_text (''funduq-server-presenter'' @ '':'' @ public_key @ '':'' @ int_text timestamp @ '':'' @ body_hash)"

definition proof_obj :: "presenter_identity \<Rightarrow> int \<Rightarrow> string \<Rightarrow> obj" where
  "proof_obj I t payload =
     [(''publicKey'', JStr (pi_key I)), (''timestamp'', JInt t), (''signature'', JStr (pi_sign I payload))]"

definition presenter_proof ::
  "sdk_env \<Rightarrow> presenter_identity \<Rightarrow> string \<Rightarrow> int option \<Rightarrow> exn + obj" where
  "presenter_proof E I body timestamp =
     (let t = (case timestamp of None \<Rightarrow> sdk_now E | Some t \<Rightarrow> t) in
      case signed_payload (pi_key I) t (sdk_sha256hex E body) of
        Inl e \<Rightarrow> Inl e
      | Inr payload \<Rightarrow> Inr (proof_obj I t payload))"

definition presenter_headers ::
  "sdk_env \<Rightarrow> presenter_identity option \<Rightarrow> string \<Rightarrow> int option \<Rightarrow> exn + (string \<times> string) list" where
  "presenter_headers E identity body timestamp =
     (case identity of
        None \<Rightarrow> Inr []
      | Some I \<Rightarrow>
          (case presenter_proof E I body timestamp of
             Inl e \<Rightarrow> Inl e
           | Inr proof \<Rightarrow> Inr [(CLIENT_PRESENTER_HEADER, sdk_dumps E (JObj proof))]))"

definition identity_required :: exn where
  "identity_required = Exn (OtherExc ''PresenterIdentityRequired'')
     (''actor_chain was given but identity was not: souk refuses a chain from a caller it cannot '' @
      ''authenticate (PresenterRequired), so this call would be rejected. Pass identity= '' @ em_dash @
      '' the same ProviderIdentity whose key ends the chain '' @ em_dash @
      '' so the Funduq-Presenter header can be signed.'')"

definition presented ::
  "sdk_env \<Rightarrow> obj \<Rightarrow> presenter_identity option \<Rightarrow> bool \<Rightarrow> exn + string \<times> (string \<times> string) list" where
  "presented E body identity actor_chain_present =
     (if actor_chain_present \<and> identity = None then Inl identity_required
      else (let raw = sdk_dumps E (JObj body) in
            case presenter_headers E identity raw None of
              Inl e \<Rightarrow> Inl e
            | Inr proof_headers \<Rightarrow>
                Inr (raw, dict_merge [(A2A_VERSION_HEADER, A2A_PROTOCOL_VERSION),
                                      (''Content-Type'', ''application/json'')] proof_headers)))"

section \<open>The params of a send\<close>

text \<open>The keyword arguments; an absent or empty one is \<open>None\<close> or empty as the code treats it.\<close>

record send_args =
  sa_context_id :: "json option"
  sa_task_id :: "string option"
  sa_addressed_run :: "string option"
  sa_metadata :: obj
  sa_chain :: "string list option"
  sa_references :: "string list"

text \<open>A context id is passed on as it was received, if it is truthy.\<close>

definition set_context :: "json option \<Rightarrow> obj \<Rightarrow> obj" where
  "set_context x d = (case x of Some v \<Rightarrow> if truthy v then AList.update ''contextId'' v d else d | None \<Rightarrow> d)"

definition set_given :: "string \<Rightarrow> string option \<Rightarrow> obj \<Rightarrow> obj" where
  "set_given k x d = (case x of Some v \<Rightarrow> if v = [] then d else AList.update k (JStr v) d | None \<Rightarrow> d)"

definition request_metadata :: "send_args \<Rightarrow> obj" where
  "request_metadata a =
     set_given ADDRESSED_RUN_METADATA_KEY (sa_addressed_run a)
       (case sa_chain a of
          None \<Rightarrow> sa_metadata a
        | Some chain \<Rightarrow> AList.update ''actorChain'' (JList (map JStr chain)) (sa_metadata a))"

definition user_message :: "string \<Rightarrow> string \<Rightarrow> send_args \<Rightarrow> obj" where
  "user_message message_id message_text a =
     (let message = [(''messageId'', JStr message_id), (''role'', JStr ''ROLE_USER''),
                     (''parts'', JList [JObj [(''text'', JStr message_text)]])];
          referring = (if sa_references a = [] then message
                       else AList.update ''referenceTaskIds'' (JList (map JStr (sa_references a))) message)
      in set_given ''taskId'' (sa_task_id a) (set_context (sa_context_id a) referring))"

definition send_message_params :: "string \<Rightarrow> string \<Rightarrow> send_args \<Rightarrow> obj" where
  "send_message_params message_id message_text a =
     (let params = [(''message'', JObj (user_message message_id message_text a))] in
      if request_metadata a = [] then params
      else AList.update ''metadata'' (JObj (request_metadata a)) params)"

definition rpc_body :: "string \<Rightarrow> string \<Rightarrow> obj \<Rightarrow> obj" where
  "rpc_body request_id rpc_method params =
     [(''jsonrpc'', JStr ''2.0''), (''id'', JStr request_id), (''method'', JStr rpc_method), (''params'', JObj params)]"

text \<open>\<open>call_agent_streaming\<close> and \<open>call_agent\<close>, up to the request they post.\<close>

definition streaming_request ::
  "sdk_env \<Rightarrow> string \<Rightarrow> string \<Rightarrow> string \<Rightarrow> send_args \<Rightarrow> presenter_identity option \<Rightarrow>
   exn + string \<times> (string \<times> string) list" where
  "streaming_request E request_id message_id message_text a identity =
     presented E (rpc_body request_id ''SendStreamingMessage'' (send_message_params message_id message_text a))
       identity (sa_chain a \<noteq> None)"

definition configuration :: "bool \<Rightarrow> int option \<Rightarrow> obj" where
  "configuration return_immediately history_length =
     (if return_immediately then [(''returnImmediately'', JBool True)] else []) @
     (case history_length of None \<Rightarrow> [] | Some n \<Rightarrow> [(''historyLength'', JInt n)])"

definition call_request ::
  "sdk_env \<Rightarrow> string \<Rightarrow> string \<Rightarrow> string \<Rightarrow> send_args \<Rightarrow> presenter_identity option \<Rightarrow> bool \<Rightarrow> int option \<Rightarrow>
   exn + string \<times> (string \<times> string) list" where
  "call_request E request_id message_id message_text a identity return_immediately history_length =
     (let params = send_message_params message_id message_text a;
          conf = configuration return_immediately history_length;
          params' = (if conf = [] then params else AList.update ''configuration'' (JObj conf) params)
      in presented E (rpc_body request_id ''SendMessage'' params') identity (sa_chain a \<noteq> None))"

definition get_task_request ::
  "sdk_env \<Rightarrow> string \<Rightarrow> string \<Rightarrow> presenter_identity option \<Rightarrow> int option \<Rightarrow>
   exn + string \<times> (string \<times> string) list" where
  "get_task_request E request_id task_id identity history_length =
     presented E (rpc_body request_id ''GetTask''
       ((''id'', JStr task_id) # (case history_length of None \<Rightarrow> [] | Some n \<Rightarrow> [(''historyLength'', JInt n)])))
       identity False"

definition resubscribe_request ::
  "sdk_env \<Rightarrow> string \<Rightarrow> string \<Rightarrow> presenter_identity option \<Rightarrow> exn + string \<times> (string \<times> string) list" where
  "resubscribe_request E request_id task_id identity =
     presented E (rpc_body request_id ''SubscribeToTask'' [(''id'', JStr task_id)]) identity False"

section \<open>The answers\<close>

definition rpc_result :: "string \<Rightarrow> obj \<Rightarrow> exn + json" where
  "rpc_result rpc_method payload =
     (if dget payload ''error'' \<noteq> JNull
      then Inl (Exn RuntimeError (rpc_method @ '' failed: '' @ py_str (dget payload ''error'')))
      else Inr (dget payload ''result''))"

text \<open>What a stream yields: the results of its items, those without one skipped.\<close>

definition stream_results :: "obj list \<Rightarrow> json list" where
  "stream_results payloads = filter (\<lambda>r. r \<noteq> JNull) (map (\<lambda>p. dget p ''result'') payloads)"

text \<open>
  \<open>_rpc\<close> with the two calls made over it; posting, with the check of the status and the reading of the
  answer's JSON, is an argument, and so is the token of a request that is given no id.
\<close>

type_synonym 'c poster = "string \<Rightarrow> (string \<times> string) list \<Rightarrow> ('c, exn, obj) call"

definition request_id_of :: "string option \<Rightarrow> string \<Rightarrow> string" where
  "request_id_of given token = (case given of Some (c # cs) \<Rightarrow> c # cs | _ \<Rightarrow> ''req_'' @ token)"

definition posted :: "'c poster \<Rightarrow> string \<Rightarrow> (exn + string \<times> (string \<times> string) list) \<Rightarrow> ('c, exn, json) call" where
  "posted post rpc_method request =
     (case request of
        Inl e \<Rightarrow> raise_io e
      | Inr (raw, headers) \<Rightarrow> bind_io (post raw headers) (\<lambda>payload.
          case rpc_result rpc_method payload of Inl e \<Rightarrow> raise_io e | Inr r \<Rightarrow> ret_io r))"

definition call_agent ::
  "sdk_env \<Rightarrow> 'c poster \<Rightarrow> string \<Rightarrow> string option \<Rightarrow> string \<Rightarrow> string \<Rightarrow> send_args \<Rightarrow> presenter_identity option \<Rightarrow>
   bool \<Rightarrow> int option \<Rightarrow> ('c, exn, json) call" where
  "call_agent E post token request_id message_id message_text a identity return_immediately history_length =
     posted post ''SendMessage''
       (call_request E (request_id_of request_id token) message_id message_text a identity return_immediately history_length)"

definition get_task ::
  "sdk_env \<Rightarrow> 'c poster \<Rightarrow> string \<Rightarrow> string option \<Rightarrow> string \<Rightarrow> presenter_identity option \<Rightarrow> int option \<Rightarrow> ('c, exn, json) call" where
  "get_task E post token request_id tid identity history_length =
     posted post ''GetTask'' (get_task_request E (request_id_of request_id token) tid identity history_length)"

section \<open>The proof is read as it was meant\<close>

lemma signed_payload_agrees:
  "signed_payload key t (h body) = presenter_payload h key t body"
  by (simp add: signed_payload_def presenter_payload_def payload_text_def PRESENTER_DOMAIN_def)

lemma proof_obj_read:
  "pe_loads S v = Inr (JObj (proof_obj I t payload)) \<Longrightarrow>
   read_proof S v = Inr (JStr (pi_key I), t, JStr (pi_sign I payload))"
  by (simp add: read_proof_def subscript_def proof_obj_def)

lemma presented_raw: "presented E body I chain = Inr (raw, hs) \<Longrightarrow> raw = sdk_dumps E (JObj body)"
  by (auto simp: presented_def Let_def split: if_splits sum.splits)

lemma presented_headers:
  assumes "presented E body (Some I) chain = Inr (raw, hs)"
  shows "\<exists>payload. presenter_payload (sdk_sha256hex E) (pi_key I) (sdk_now E) raw = Inr payload \<and>
    map_of hs CLIENT_PRESENTER_HEADER = Some (sdk_dumps E (JObj (proof_obj I (sdk_now E) payload)))"
  using assms
  by (auto simp: presented_def Let_def presenter_headers_def presenter_proof_def signed_payload_agrees
      CLIENT_PRESENTER_HEADER_def A2A_VERSION_HEADER_def split: sum.splits)

lemma presented_raises:
  "presented E body None chain = Inl e \<longleftrightarrow> chain \<and> e = identity_required"
  by (auto simp: presented_def Let_def presenter_headers_def)

lemma presented_read:
  assumes "presented E body (Some I) chain = Inr (raw, hs)" and "pe_sha256hex S = sdk_sha256hex E"
    and "\<And>payload. sdk_dumps E (JObj (proof_obj I (sdk_now E) payload)) \<noteq> [] \<and>
           pe_loads S (sdk_dumps E (JObj (proof_obj I (sdk_now E) payload))) = Inr (JObj (proof_obj I (sdk_now E) payload))"
    and "pe_fresh S (sdk_now E)" and "\<And>payload. pe_verify S (pi_key I) (pi_sign I payload) payload"
  shows "presenter_key_of S (map_of hs CLIENT_PRESENTER_HEADER) raw = Inr (Some (pi_key I))"
proof -
  obtain payload where pl: "presenter_payload (pe_sha256hex S) (pi_key I) (sdk_now E) raw = Inr payload"
    and h: "map_of hs CLIENT_PRESENTER_HEADER = Some (sdk_dumps E (JObj (proof_obj I (sdk_now E) payload)))"
    using presented_headers [OF assms(1)] assms(2) by auto
  show ?thesis
    using assms(3) [of payload] assms(4) assms(5) [of payload] pl
    by (simp add: h presenter_key_of_def proof_obj_read)
qed

text \<open>C32. A call presented with an identity is attributed to exactly that identity: the gateway,
  hashing the bytes it received, reads the header back as the caller's own key, whatever the call
  is, provided both sides have the same hash, the header's JSON reads back as it was written, the
  clocks agree to within the window and the key verifies what it signs. Without an identity no
  header is sent and the call is anonymous, and a call that carries a chain without one is never
  sent at all.\<close>

theorem presenter_roundtrip:
  assumes "pe_sha256hex S = sdk_sha256hex E"
    and "\<And>I payload. I \<in> holders \<Longrightarrow> sdk_dumps E (JObj (proof_obj I (sdk_now E) payload)) \<noteq> [] \<and>
           pe_loads S (sdk_dumps E (JObj (proof_obj I (sdk_now E) payload))) = Inr (JObj (proof_obj I (sdk_now E) payload))"
    and "pe_fresh S (sdk_now E)"
    and "\<And>I payload. I \<in> holders \<Longrightarrow> pe_verify S (pi_key I) (pi_sign I payload) payload"
  shows "(\<forall>I \<in> holders. presented E body (Some I) chain = Inr (raw, hs) \<longrightarrow>
            presenter_key_of S (map_of hs CLIENT_PRESENTER_HEADER) raw = Inr (Some (pi_key I))) \<and>
         (presented E body None chain = Inr (raw, hs) \<longrightarrow>
            \<not> chain \<and> presenter_key_of S (map_of hs CLIENT_PRESENTER_HEADER) raw = Inr None) \<and>
         (chain \<longrightarrow> presented E body None chain = Inl identity_required)"
proof (intro conjI ballI impI)
  fix I
  assume I: "I \<in> holders" and p: "presented E body (Some I) chain = Inr (raw, hs)"
  show "presenter_key_of S (map_of hs CLIENT_PRESENTER_HEADER) raw = Inr (Some (pi_key I))"
    by (rule presented_read [OF p assms(1)]) (use assms(2) [OF I] assms(3) assms(4) [OF I] in simp_all)
next
  assume p: "presented E body None chain = Inr (raw, hs)"
  then show "\<not> chain" by (auto simp: presented_def)
  from p have "hs = [(A2A_VERSION_HEADER, A2A_PROTOCOL_VERSION), (''Content-Type'', ''application/json'')]"
    by (auto simp: presented_def presenter_headers_def Let_def split: if_splits)
  then show "presenter_key_of S (map_of hs CLIENT_PRESENTER_HEADER) raw = Inr None"
    by (simp add: presenter_key_of_def CLIENT_PRESENTER_HEADER_def A2A_VERSION_HEADER_def)
next
  assume chain
  then show "presented E body None chain = Inl identity_required" by (simp add: presented_def)
qed

definition sample_identity :: presenter_identity where
  "sample_identity = \<lparr>pi_key = ''k1'', pi_sign = (\<lambda>payload. ''s1'')\<rparr>"

definition sample_sdk :: sdk_env where
  "sample_sdk =
     \<lparr>sdk_sha256hex = sample_hash,
      sdk_dumps = (\<lambda>j. if j = JObj (proof_obj sample_identity 17 []) then ''good'' else ''body''),
      sdk_now = 17\<rparr>"

theorem presenter_roundtrip_witness:
  "\<exists>hs. get_task_request sample_sdk ''req1'' ''task1'' (Some sample_identity) None = Inr (''body'', hs) \<and>
     presenter_key_of sample_env (map_of hs CLIENT_PRESENTER_HEADER) ''body'' = Inr (Some ''k1'')"
proof -
  let ?b = "rpc_body ''req1'' ''GetTask'' [(''id'', JStr ''task1'')]"
  have proof_any: "proof_obj sample_identity 17 payload = proof_obj sample_identity 17 []" for payload
    by (simp add: proof_obj_def sample_identity_def)
  have pl: "presenter_payload sample_hash ''k1'' 17 ''body'' = Inr (payload_text sample_hash ''k1'' 17 ''body'')"
    by code_simp
  have raw: "sdk_dumps sample_sdk (JObj ?b) = ''body''"
    by (simp add: sample_sdk_def proof_obj_def rpc_body_def)
  have fields: "sdk_now sample_sdk = 17" "sdk_sha256hex sample_sdk = sample_hash" "pi_key sample_identity = ''k1''"
    by (simp_all add: sample_sdk_def sample_identity_def)
  have "\<exists>hs. presented sample_sdk ?b (Some sample_identity) False = Inr (''body'', hs)"
    by (simp add: presented_def raw Let_def presenter_headers_def presenter_proof_def signed_payload_agrees
        fields pl)
  then obtain hs where p: "presented sample_sdk ?b (Some sample_identity) False = Inr (''body'', hs)" by blast
  have env: "pe_sha256hex sample_env = sdk_sha256hex sample_sdk" "pe_fresh sample_env (sdk_now sample_sdk)"
    by (simp_all add: sample_env_def sample_sdk_def)
  have loads: "sdk_dumps sample_sdk (JObj (proof_obj I (sdk_now sample_sdk) payload)) \<noteq> [] \<and>
      pe_loads sample_env (sdk_dumps sample_sdk (JObj (proof_obj I (sdk_now sample_sdk) payload))) =
      Inr (JObj (proof_obj I (sdk_now sample_sdk) payload))" if "I \<in> {sample_identity}" for I payload
    using that proof_any [of payload]
    by (simp add: sample_sdk_def sample_env_def) (simp add: proof_obj_def sample_identity_def)
  have verify: "pe_verify sample_env (pi_key I) (pi_sign I payload) payload" if "I \<in> {sample_identity}" for I payload
    using that by (simp add: sample_env_def sample_identity_def)
  have "presenter_key_of sample_env (map_of hs CLIENT_PRESENTER_HEADER) ''body'' = Inr (Some (pi_key sample_identity))"
    using presenter_roundtrip [OF env(1) loads env(2) verify, where holders = "{sample_identity}" and body = ?b and chain = False and raw = "''body''" and hs = hs] p by simp
  with p show ?thesis by (simp add: get_task_request_def sample_identity_def)
qed

end
