(* ===== verification/Llm_Bridge.thy ===== *)
theory Llm_Bridge
  imports Funduq_Core
begin

text \<open>
  \<open>souk_server/api_llm_bridge.py\<close>: the one KYOK route, which lifts the bearer token and two headers
  off the request, hands them to core's relay and frames the answer as JSON or as SSE.
\<close>

text \<open>What the relay's stream yields: chunks, with a failure as the last item if it breaks.\<close>

datatype relay_item = RelayChunk json | CompletionFailure json

text \<open>
  The relay core hands back: which shape was asked for, the collapsed answer, and the stream as
  the items it yields and the exception, if any, that ends it.
\<close>

record relay =
  stream_requested :: bool
  collapsed :: "exn + json"
  relay_items :: "relay_item list"
  relay_end :: "exn option"

text \<open>The two serializers: \<open>json.dumps\<close> and a chunk's \<open>model_dump_json(exclude_none=True)\<close>.\<close>

record serializers =
  dumps :: "json \<Rightarrow> string"
  dump_chunk :: "json \<Rightarrow> string"

definition starts_with :: "string \<Rightarrow> string \<Rightarrow> bool" where
  "starts_with p s \<longleftrightarrow> take (length p) s = p"

definition bearer :: "string option \<Rightarrow> string" where
  "bearer authorization =
     (let header = (case authorization of None \<Rightarrow> [] | Some h \<Rightarrow> h) in
      if starts_with ''Bearer '' header then drop (length ''Bearer '') header else header)"

definition data_line :: "string \<Rightarrow> string" where
  "data_line text = ''data: '' @ text @ [CHR 0x0A, CHR 0x0A]"

definition done_line :: string where
  "done_line = data_line ''[DONE]''"

text \<open>The generator: the lines it yields and the exception it ends with.\<close>

fun sse :: "serializers \<Rightarrow> relay_item list \<Rightarrow> exn option \<Rightarrow> string list \<times> exn option" where
  "sse S [] None = ([done_line], None)"
| "sse S [] (Some e) = ([], Some e)"
| "sse S (CompletionFailure payload # items) stop =
     ([data_line (dumps S (JObj [(''error'', payload)]))], None)"
| "sse S (RelayChunk x # items) stop =
     (case sse S items stop of (lines, e) \<Rightarrow> (data_line (dump_chunk S x) # lines, e))"

datatype bridge_reply = JsonReply json | SseReply "string list \<times> exn option"

definition chat_completions ::
  "serializers \<Rightarrow> (string \<Rightarrow> string \<Rightarrow> string \<Rightarrow> string \<Rightarrow> ('c, exn, relay) call) \<Rightarrow>
   (string \<Rightarrow> string option) \<Rightarrow> string \<Rightarrow> ('c, exn, bridge_reply) call" where
  "chat_completions S kyok_complete headers body =
     (let header = (\<lambda>name. case headers name of None \<Rightarrow> [] | Some h \<Rightarrow> h) in
      bind_io (kyok_complete (bearer (headers ''authorization'')) body
                 (header ''x-souk-kyok-timestamp'') (header ''x-souk-kyok-signature''))
        (\<lambda>relay.
          if \<not> stream_requested relay
          then (case collapsed relay of Inl e \<Rightarrow> raise_io e | Inr j \<Rightarrow> ret_io (JsonReply j))
          else ret_io (SseReply (sse S (relay_items relay) (relay_end relay)))))"

section \<open>Facts\<close>

fun is_chunk :: "relay_item \<Rightarrow> bool" where
  "is_chunk (RelayChunk x) = True"
| "is_chunk (CompletionFailure p) = False"

fun chunk_line :: "serializers \<Rightarrow> relay_item \<Rightarrow> string" where
  "chunk_line S (RelayChunk x) = data_line (dump_chunk S x)"
| "chunk_line S (CompletionFailure p) = data_line (dumps S (JObj [(''error'', p)]))"

lemma data_line_inject [simp]: "data_line a = data_line b \<longleftrightarrow> a = b"
  by (simp add: data_line_def)

lemma sse_lines:
  "sse S items stop =
     (case dropWhile is_chunk items of
        [] \<Rightarrow> (map (chunk_line S) items @ (if stop = None then [done_line] else []), stop)
      | failure # rest \<Rightarrow> (map (chunk_line S) (takeWhile is_chunk items) @ [chunk_line S failure], None))"
proof (induction S items stop rule: sse.induct)
  case (4 S x items stop)
  then show ?case
    by (cases "dropWhile is_chunk items") (simp_all del: dropWhile_eq_Nil_conv)
qed simp_all

section \<open>Properties\<close>

text \<open>C27. The SSE answer is the chunks before the first failure, in order, each on a \<open>data:\<close> line of
  its own; then the failure's error line and nothing more, or, if there was none and the relay
  did not break, the \<open>[DONE]\<close> line. So \<open>[DONE]\<close> is sent exactly when the whole answer was relayed,
  and never after a failure, provided no serialization is itself \<open>[DONE]\<close>.\<close>

theorem sse_done_iff_complete:
  assumes "\<And>x. dump_chunk S x \<noteq> ''[DONE]''" and "\<And>x. dumps S x \<noteq> ''[DONE]''"
  shows "(done_line \<in> set (fst (sse S items stop)) \<longleftrightarrow> list_all is_chunk items \<and> stop = None) \<and>
    takeWhile (\<lambda>l. l \<noteq> done_line) (fst (sse S items stop)) =
      map (chunk_line S) (takeWhile is_chunk items @ take 1 (dropWhile is_chunk items))"
proof -
  have line: "chunk_line S i \<noteq> done_line" for i
    using assms by (cases i) (simp_all add: done_line_def)
  then have no: "done_line \<notin> chunk_line S ` X" for X by (metis imageE)
  have take: "takeWhile (\<lambda>l. l \<noteq> done_line) (map (chunk_line S) xs @ ys) =
      map (chunk_line S) xs @ takeWhile (\<lambda>l. l \<noteq> done_line) ys" for xs ys
    using line by (induction xs) simp_all
  show ?thesis
  proof (cases "dropWhile is_chunk items")
    case Nil
    then have e: "sse S items stop =
        (map (chunk_line S) items @ (if stop = None then [done_line] else []), stop)"
      by (simp add: sse_lines del: dropWhile_eq_Nil_conv)
    from Nil have t: "takeWhile is_chunk items @ take 1 (dropWhile is_chunk items) = items"
      by (metis append_Nil2 takeWhile_dropWhile_id take_Nil)
    from Nil have "list_all is_chunk items" by (simp add: list_all_iff)
    then show ?thesis
      unfolding e t using no take [of items "[]"] take [of items "[done_line]"]
      by (cases stop) (simp_all del: takeWhile_eq_all_conv)
  next
    case (Cons f rest)
    then have "\<not> is_chunk f" by (simp add: dropWhile_eq_Cons_conv)
    moreover from Cons have "f \<in> set items" by (metis set_dropWhileD list.set_intros(1))
    ultimately have "\<not> list_all is_chunk items" by (auto simp: list_all_iff)
    moreover have e: "sse S items stop =
        (map (chunk_line S) (takeWhile is_chunk items) @ [chunk_line S f], None)"
      using Cons by (simp add: sse_lines)
    ultimately show ?thesis
      unfolding e using Cons no line line [symmetric] take [of "takeWhile is_chunk items" "[chunk_line S f]"]
      by auto
  qed
qed

definition sample_serializers :: serializers where
  "sample_serializers = \<lparr>dumps = (\<lambda>j. ''{'' @ py_repr j), dump_chunk = (\<lambda>j. ''{'' @ py_repr j)\<rparr>"

theorem sse_done_iff_complete_witness:
  "done_line \<notin> set (fst (sse sample_serializers [RelayChunk (JInt 1), CompletionFailure (JInt 2)] None)) \<and>
   done_line \<in> set (fst (sse sample_serializers [RelayChunk (JInt 1)] None))"
proof -
  have s: "dump_chunk sample_serializers x \<noteq> ''[DONE]''" "dumps sample_serializers x \<noteq> ''[DONE]''" for x
    by (simp_all add: sample_serializers_def)
  show ?thesis
    using sse_done_iff_complete [OF s, of "[RelayChunk (JInt 1), CompletionFailure (JInt 2)]" None]
      sse_done_iff_complete [OF s, of "[RelayChunk (JInt 1)]" None]
    by simp
qed

end
