(* ===== verification/Agui_Door.thy ===== *)
theory Agui_Door
  imports A2A_Props Llm_Bridge
begin

text \<open>
  \<open>souk_server/api_agui.py\<close>: the thread reads with what a waiting thread waits on, the creation of
  a thread, and a run's answer framed as JSON or as SSE.
\<close>

section \<open>What the door asks of core\<close>

record latest_run =
  lr_run_id :: string
  lr_cancel_requested_by :: "json"

datatype agui_event = TypedEvent json | MappingEvent json

text \<open>What the adapter answers a run with: a snapshot's data, or a stream of events.\<close>

datatype agui_result = ThreadSnapshot json | EventStream "agui_event list" "exn option"

record 'c agui_core = "'c a2a_core" +
  latest_run_for_thread :: "string \<Rightarrow> ('c, exn, latest_run option) call"
  create_thread_op :: "agent_ref \<Rightarrow> obj \<Rightarrow> ('c, exn, string) call"
  thread_snapshot :: "string \<Rightarrow> ('c, exn, obj option) call"
  thread_tree :: "string \<Rightarrow> ('c, exn, obj option) call"
  agui_run :: "agent_ref \<Rightarrow> json \<Rightarrow> string option \<Rightarrow> ('c, exn, agui_result) call"
  resolve_agent :: "string \<Rightarrow> string \<Rightarrow> ('c, exn, agent_ref option) call"

section \<open>Reads\<close>

definition with_outstanding_asks ::
  "('c, 'z) agui_core_scheme \<Rightarrow> string \<Rightarrow> obj \<Rightarrow> ('c, exn, obj) call" where
  "with_outstanding_asks F thread_id snapshot =
     bind_io (latest_run_for_thread F thread_id) (\<lambda>latest.
       case latest of
         None \<Rightarrow> ret_io snapshot
       | Some run \<Rightarrow>
           if lr_cancel_requested_by run \<noteq> JNull then ret_io snapshot
           else bind_io (run_events F (lr_run_id run)) (\<lambda>events.
             let asks = open_asks F events in
             ret_io (if asks = [] then snapshot
                     else AList.update ''waiting_run''
                            (JObj [(''run_id'', JStr (lr_run_id run)),
                                   (''outstanding_asks'', JList (map JStr (sort asks)))]) snapshot)))"

definition thread_not_found :: "string \<Rightarrow> exn" where
  "thread_not_found thread_id =
     Exn AgentNotFound (''thread '' @ [CHR 0x27] @ thread_id @ [CHR 0x27] @ '' not found'')"

definition get_thread_snapshot :: "('c, 'z) agui_core_scheme \<Rightarrow> string \<Rightarrow> ('c, exn, obj) call" where
  "get_thread_snapshot F thread_id =
     bind_io (thread_snapshot F thread_id) (\<lambda>snapshot.
       case snapshot of
         None \<Rightarrow> raise_io (thread_not_found thread_id)
       | Some s \<Rightarrow> with_outstanding_asks F thread_id s)"

definition get_thread_tree :: "('c, 'z) agui_core_scheme \<Rightarrow> string \<Rightarrow> ('c, exn, obj) call" where
  "get_thread_tree F thread_id =
     bind_io (thread_tree F thread_id) (\<lambda>tree.
       case tree of None \<Rightarrow> raise_io (thread_not_found thread_id) | Some t \<Rightarrow> ret_io t)"

section \<open>Creating a thread and running an agent\<close>

definition create_thread_for ::
  "('c, 'z) agui_core_scheme \<Rightarrow> agent_ref \<Rightarrow> obj \<Rightarrow> ('c, exn, string) call" where
  "create_thread_for F agent metadata =
     bind_io (get_agent F agent) (\<lambda>listed.
       if \<not> listed
       then raise_io (Exn AgentNotFound (''agent '' @ [CHR 0x27] @ ref_name agent @ [CHR 0x27] @
                        '' is not registered for that provider''))
       else create_thread_op F agent metadata)"

definition create_thread ::
  "('c, 'z) agui_core_scheme \<Rightarrow> string \<Rightarrow> string \<Rightarrow> obj \<Rightarrow> ('c, exn, string) call" where
  "create_thread F provider name metadata =
     bind_io (resolve_ref (resolve_agent F) provider name) (\<lambda>agent. create_thread_for F agent metadata)"

fun encode_event :: "serializers \<Rightarrow> agui_event \<Rightarrow> string" where
  "encode_event S (TypedEvent j) = dump_chunk S j"
| "encode_event S (MappingEvent j) = dumps S j"

datatype agui_reply = SnapshotReply json | EventReply "(string \<times> string) list" "exn option"

definition run_agent ::
  "serializers \<Rightarrow> presenter_env \<Rightarrow> ('c, 'z) agui_core_scheme \<Rightarrow> agent_ref \<Rightarrow> json \<Rightarrow>
   (string \<rightharpoonup> string) \<Rightarrow> string \<Rightarrow> ('c, exn, agui_reply) call" where
  "run_agent S E F agent body headers raw =
     bind_io (ask_hook (presenter_hook E headers raw)) (\<lambda>presenter.
       bind_io (agui_run F agent body presenter) (\<lambda>result.
         ret_io (case result of
                   ThreadSnapshot d \<Rightarrow> SnapshotReply d
                 | EventStream events stop \<Rightarrow>
                     EventReply (map (\<lambda>e. (''message'', encode_event S e)) events) stop)))"

section \<open>Properties\<close>

text \<open>A thread's snapshot says what the thread waits on exactly when its latest run exists, was
  not asked to cancel and left asks open, and then with that run's id and the sorted ask ids;
  in every other case it is core's snapshot as it was, so an empty list of asks is never shown.\<close>

theorem waiting_run_shown_iff:
  assumes "get_thread_snapshot F t c = (Inr shown, c')"
  shows "\<exists>snapshot c1 latest c2. thread_snapshot F t c = (Inr (Some snapshot), c1) \<and>
    latest_run_for_thread F t c1 = (Inr latest, c2) \<and>
    (if \<exists>run events asks. latest = Some run \<and> lr_cancel_requested_by run = JNull \<and>
          run_events F (lr_run_id run) c2 = (Inr events, c') \<and> open_asks F events = asks \<and> asks \<noteq> []
     then \<exists>run events. latest = Some run \<and> run_events F (lr_run_id run) c2 = (Inr events, c') \<and>
       open_asks F events \<noteq> [] \<and>
       dget shown ''waiting_run'' = JObj [(''run_id'', JStr (lr_run_id run)),
         (''outstanding_asks'', JList (map JStr (sort (open_asks F events))))] \<and>
       (\<forall>k. k \<noteq> ''waiting_run'' \<longrightarrow> dget shown k = dget snapshot k)
     else shown = snapshot)"
proof -
  from assms obtain snapshot c1 where s: "thread_snapshot F t c = (Inr (Some snapshot), c1)"
    and w: "with_outstanding_asks F t snapshot c1 = (Inr shown, c')"
    by (auto simp: get_thread_snapshot_def io_simps split: prod.splits sum.splits option.splits)
  from w obtain latest c2 where l: "latest_run_for_thread F t c1 = (Inr latest, c2)"
    by (auto simp: with_outstanding_asks_def io_simps split: prod.splits sum.splits)
  have r: "if \<exists>run events asks. latest = Some run \<and> lr_cancel_requested_by run = JNull \<and>
          run_events F (lr_run_id run) c2 = (Inr events, c') \<and> open_asks F events = asks \<and> asks \<noteq> []
     then \<exists>run events. latest = Some run \<and> run_events F (lr_run_id run) c2 = (Inr events, c') \<and>
       open_asks F events \<noteq> [] \<and>
       dget shown ''waiting_run'' = JObj [(''run_id'', JStr (lr_run_id run)),
         (''outstanding_asks'', JList (map JStr (sort (open_asks F events))))] \<and>
       (\<forall>k. k \<noteq> ''waiting_run'' \<longrightarrow> dget shown k = dget snapshot k)
     else shown = snapshot"
    using w l
    by (cases latest)
       (auto simp: with_outstanding_asks_def io_simps Let_def split: prod.splits sum.splits if_splits)
  show ?thesis using s l r by blast
qed

definition agui_sample :: "sample agui_core" where
  "agui_sample = a2a_core.extend (sample_a2a ''open'')
     (agui_core.fields
       (\<lambda>t c. (Inr (Some \<lparr>lr_run_id = ''tail'', lr_cancel_requested_by = JNull\<rparr>), c))
       (\<lambda>a m c. (Inr ''t1'', c))
       (\<lambda>t c. (Inr (Some [(''thread_id'', JStr t)]), c))
       (\<lambda>t c. (Inr None, c))
       (\<lambda>a b k c. (Inr (ThreadSnapshot JNull), c))
       (\<lambda>p n c. (Inr None, c)))"

lemma agui_sample_shown:
  "get_thread_snapshot agui_sample ''t1'' sample_state =
     (Inr [(''thread_id'', JStr ''t1''), (''waiting_run'', JObj [(''run_id'', JStr ''tail''),
        (''outstanding_asks'', JList [JStr ''a'', JStr ''b''])])], sample_state)"
  by (simp add: get_thread_snapshot_def with_outstanding_asks_def agui_sample_def agui_core.defs
      sample_a2a_simps io_simps Let_def)

theorem waiting_run_shown_iff_witness:
  "\<exists>snapshot c1. thread_snapshot agui_sample ''t1'' sample_state = (Inr (Some snapshot), c1) \<and>
     snapshot = [(''thread_id'', JStr ''t1'')]"
  using waiting_run_shown_iff [OF agui_sample_shown]
  by (auto simp: agui_sample_def agui_core.defs sample_a2a_simps)

end
