(* ===== verification/Docent.thy ===== *)
theory Docent
  imports A2A_Door "HOL-Library.Multiset"
begin

text \<open>
  \<open>souk_server/mcp_docent.py\<close>: the pure descriptions of agents, stalls and the market, the search,
  and the tools and resources that answer from one read of the roster.
\<close>

section \<open>What a listing says\<close>

record agent_summary =
  ag_key :: string
  ag_name :: string
  ag_description :: string
  ag_skills :: "json list"
  ag_online :: bool
  ag_joined :: string
  ag_seen_micros :: int
  ag_provider_name :: "string option"

text \<open>
  \<open>ag_joined\<close> is the ISO text of the time it was listed; \<open>ag_seen_micros\<close> the microseconds
  since it was last seen, with a naive timestamp read as UTC. The methods of \<open>str\<close> that depend on
  the Unicode tables, and core's fingerprint and the well-known path, come from elsewhere.
\<close>

record docent_env =
  lower :: "string \<Rightarrow> string"
  split_ws :: "string \<Rightarrow> string list"
  strip_ws :: "string \<Rightarrow> string"
  fingerprint :: "string \<Rightarrow> string"
  card_path :: string
  base_url :: string

definition seen_ago :: "int \<Rightarrow> string" where
  "seen_ago micros =
     (let seconds = max 0 (if micros \<ge> 0 then micros div 1000000 else - ((- micros) div 1000000)) in
      if seconds < 90 then int_text seconds @ ''s ago''
      else if seconds < 5400 then int_text (seconds div 60) @ ''m ago''
      else if seconds < 172800 then int_text (seconds div 3600) @ ''h ago''
      else int_text (seconds div 86400) @ ''d ago'')"

definition opt_str :: "string option \<Rightarrow> json" where
  "opt_str s = (case s of None \<Rightarrow> JNull | Some t \<Rightarrow> JStr t)"

definition describe_agent :: "docent_env \<Rightarrow> agent_summary \<Rightarrow> obj" where
  "describe_agent D a =
     (let base = rstrip_slash (base_url D); fp = fingerprint D (ag_key a);
          address = base @ ''/a2a/'' @ fp @ ''/'' @ ag_name a
      in [(''provider_key'', JStr (ag_key a)),
          (''name'', JStr (ag_name a)),
          (''description'', JStr (ag_description a)),
          (''skills'', JList (ag_skills a)),
          (''online'', JBool (ag_online a)),
          (''last_seen'', JStr (seen_ago (ag_seen_micros a))),
          (''listed_since'', JStr (ag_joined a)),
          (''provider'', JObj [(''public_key'', JStr (ag_key a)), (''fingerprint'', JStr fp),
                              (''storefront_name'', opt_str (ag_provider_name a))]),
          (''a2a_endpoint'', JStr (address @ ''/rpc'')),
          (''agent_card_url'', JStr (address @ card_path D))])"

definition count_of :: "('a \<Rightarrow> bool) \<Rightarrow> 'a list \<Rightarrow> json" where
  "count_of P xs = JInt (int (length (filter P xs)))"

text \<open>\<open>next((a.provider_name for a in agents if a.provider_name), None)\<close>.\<close>

fun storefront :: "agent_summary list \<Rightarrow> json" where
  "storefront [] = JNull"
| "storefront (a # as) =
     (case ag_provider_name a of Some (c # cs) \<Rightarrow> JStr (c # cs) | _ \<Rightarrow> storefront as)"

definition describe_stall :: "docent_env \<Rightarrow> string \<Rightarrow> agent_summary list \<Rightarrow> obj" where
  "describe_stall D public_key agents =
     [(''provider_key'', JStr public_key),
      (''storefront_name'', storefront agents),
      (''agent_count'', JInt (int (length agents))),
      (''online_count'', count_of ag_online agents),
      (''offers'', JList (map (\<lambda>a. JStr (ag_name a)) agents)),
      (''agents'', JList (map (\<lambda>a. JObj (describe_agent D a)) agents))]"

text \<open>\<open>stalls.setdefault(key, []).append(agent)\<close> over the roster, the dict in insertion order.\<close>

definition shelve :: "agent_summary \<Rightarrow> (string \<times> agent_summary list) list \<Rightarrow> (string \<times> agent_summary list) list" where
  "shelve a stalls =
     AList.update (ag_key a) ((case map_of stalls (ag_key a) of None \<Rightarrow> [] | Some as \<Rightarrow> as) @ [a]) stalls"

definition stalls_of :: "agent_summary list \<Rightarrow> (string \<times> agent_summary list) list" where
  "stalls_of agents = fold shelve agents []"

definition describe_market :: "docent_env \<Rightarrow> agent_summary list \<Rightarrow> obj" where
  "describe_market D agents =
     [(''agent_count'', JInt (int (length agents))),
      (''online_count'', count_of ag_online agents),
      (''provider_count'', JInt (int (length (stalls_of agents)))),
      (''providers'', JList (map (\<lambda>(key, members). JObj (describe_stall D key members)) (stalls_of agents)))]"

section \<open>Search\<close>

text \<open>
  Code points of a UTF-8 text, as the texts of one code point each: a continuation byte belongs
  to the character before it.
\<close>

definition continuation :: "char \<Rightarrow> bool" where
  "continuation c \<longleftrightarrow> CHR 0x80 \<le> c \<and> c \<le> CHR 0xBF"

fun code_points :: "string \<Rightarrow> string list" where
  "code_points [] = []"
| "code_points (c # s) =
     (case s of
        d # t \<Rightarrow> if continuation d
          then (case code_points s of [] \<Rightarrow> [[c]] | p # ps \<Rightarrow> (c # p) # ps) else [c] # code_points s
      | [] \<Rightarrow> [[c]])"

definition text_length :: "string \<Rightarrow> nat" where
  "text_length s = length (filter (\<lambda>c. \<not> continuation c) s)"

text \<open>Iterating a JSON value: a list's items, a string's characters, an object's keys.\<close>

fun iterate :: "json \<Rightarrow> exn + json list" where
  "iterate (JList xs) = Inr xs"
| "iterate (JStr s) = Inr (map JStr (code_points s))"
| "iterate (JObj d) = Inr (map (JStr \<circ> fst) d)"
| "iterate _ = Inl (Exn TypeError ''object is not iterable'')"

fun skill_words :: "json \<Rightarrow> exn + string list" where
  "skill_words (JObj skill) =
     (case iterate (py_or (dget_or skill ''tags'' (JList [])) (JList [])) of
        Inl e \<Rightarrow> Inl e
      | Inr tags \<Rightarrow>
          Inr (py_str (dget_or skill ''name'' (JStr [])) # py_str (dget_or skill ''description'' (JStr []))
               # map py_str tags))"
| "skill_words _ = Inr []"

fun all_words :: "json list \<Rightarrow> exn + string list" where
  "all_words [] = Inr []"
| "all_words (skill # skills) =
     (case skill_words skill of
        Inl e \<Rightarrow> Inl e
      | Inr ws \<Rightarrow> (case all_words skills of Inl e \<Rightarrow> Inl e | Inr rest \<Rightarrow> Inr (ws @ rest)))"

definition haystack :: "docent_env \<Rightarrow> agent_summary \<Rightarrow> exn + string" where
  "haystack D a =
     (case all_words (ag_skills a) of
        Inl e \<Rightarrow> Inl e
      | Inr ws \<Rightarrow> Inr (lower D (join '' '' (ag_name a # ag_description a # ws))))"

definition matches :: "docent_env \<Rightarrow> agent_summary \<Rightarrow> string \<Rightarrow> exn + bool" where
  "matches D a needle =
     (case haystack D a of
        Inl e \<Rightarrow> Inl e
      | Inr text \<Rightarrow>
          Inr (sublist needle text \<or>
               list_ex (\<lambda>w. text_length w \<ge> 3 \<and> sublist w text) (split_ws D needle)))"

fun matching :: "docent_env \<Rightarrow> string \<Rightarrow> agent_summary list \<Rightarrow> exn + agent_summary list" where
  "matching D needle [] = Inr []"
| "matching D needle (a # as) =
     (case matches D a needle of
        Inl e \<Rightarrow> Inl e
      | Inr b \<Rightarrow> (case matching D needle as of
                    Inl e \<Rightarrow> Inl e | Inr found \<Rightarrow> Inr (if b then a # found else found)))"

definition search_agents :: "docent_env \<Rightarrow> agent_summary list \<Rightarrow> string \<Rightarrow> exn + obj" where
  "search_agents D agents query =
     (let needle = lower D (strip_ws D query) in
      case (if needle \<noteq> [] then matching D needle agents else Inr agents) of
        Inl e \<Rightarrow> Inl e
      | Inr found \<Rightarrow>
          Inr [(''query'', JStr query),
               (''match_count'', JInt (int (length found))),
               (''searched_count'', JInt (int (length agents))),
               (''agents'', JList (map (\<lambda>a. JObj (describe_agent D a)) found))])"

section \<open>The other tools\<close>

definition browse_souk :: "docent_env \<Rightarrow> agent_summary list \<Rightarrow> bool \<Rightarrow> obj" where
  "browse_souk D agents only_online =
     describe_market D (if only_online then filter ag_online agents else agents)"

definition at_provider :: "docent_env \<Rightarrow> string \<Rightarrow> agent_summary \<Rightarrow> bool" where
  "at_provider D provider a \<longleftrightarrow> provider = ag_key a \<or> provider = fingerprint D (ag_key a)"

definition describe_agent_tool :: "docent_env \<Rightarrow> agent_summary list \<Rightarrow> string \<Rightarrow> string \<Rightarrow> obj" where
  "describe_agent_tool D agents name provider =
     (if provider \<noteq> []
      then (case filter (\<lambda>a. ag_name a = name \<and> at_provider D provider a) agents of
              a # rest \<Rightarrow> describe_agent D a
            | [] \<Rightarrow>
                [(''found'', JBool False),
                 (''asked_for'', JObj [(''name'', JStr name), (''provider'', JStr provider)]),
                 (''hint'', JStr (''No stall with that key offers that name '' @ em_dash @
                                '' browse_souk lists who is here.''))])
      else (case filter (\<lambda>a. ag_name a = name) agents of
              [] \<Rightarrow>
                [(''found'', JBool False), (''asked_for'', JStr name),
                 (''hint'', JStr (''No listed agent by that name '' @ em_dash @
                                '' browse_souk shows who is here.''))]
            | [a] \<Rightarrow> describe_agent D a
            | by_name \<Rightarrow>
                [(''found'', JBool False), (''asked_for'', JStr name),
                 (''reason'', JStr ''ambiguous_name''),
                 (''hint'', JStr (''Several stalls offer this name. Ask again with the provider '' @
                                ''fingerprint of the one you meant.'')),
                 (''candidates'', JList (map (\<lambda>a. JObj (describe_agent D a)) by_name))]))"

definition describe_stall_tool :: "docent_env \<Rightarrow> agent_summary list \<Rightarrow> string \<Rightarrow> obj" where
  "describe_stall_tool D agents provider_key =
     (case filter (\<lambda>a. ag_key a = provider_key) agents of
        [] \<Rightarrow>
          [(''found'', JBool False), (''asked_for'', JStr provider_key),
           (''hint'', JStr (''No stall by that provider key '' @ em_dash @
                          '' browse_souk lists every stall here.''))]
      | members \<Rightarrow> describe_stall D provider_key members)"

definition stalls_resource :: "docent_env \<Rightarrow> agent_summary list \<Rightarrow> obj" where
  "stalls_resource D agents = describe_market D agents"

definition roster_resource :: "docent_env \<Rightarrow> agent_summary list \<Rightarrow> obj" where
  "roster_resource D agents =
     [(''agent_count'', JInt (int (length agents))),
      (''online_count'', count_of ag_online agents),
      (''agents'', JList (map (\<lambda>a. JObj (describe_agent D a)) agents))]"

fun agent_resource :: "docent_env \<Rightarrow> agent_summary list \<Rightarrow> string \<Rightarrow> string \<Rightarrow> obj" where
  "agent_resource D [] provider name =
     [(''found'', JBool False), (''provider'', JStr provider), (''name'', JStr name)]"
| "agent_resource D (a # as) provider name =
     (if ag_name a = name \<and> at_provider D provider a then describe_agent D a
      else agent_resource D as provider name)"

section \<open>Who the docent answers to\<close>

datatype transport_security =
    NoRebindingProtection
  | Protected "string list" "string list"

definition transport_security_for :: "string list \<Rightarrow> transport_security" where
  "transport_security_for allowed_hosts =
     (if ''*'' \<in> set allowed_hosts then NoRebindingProtection
      else Protected allowed_hosts
             (map (\<lambda>h. ''http://'' @ h) allowed_hosts @ map (\<lambda>h. ''https://'' @ h) allowed_hosts))"

section \<open>Facts\<close>

lemma stalls_snoc: "stalls_of (as @ [a]) = shelve a (stalls_of as)"
  by (simp add: stalls_of_def)

lemma stalls_lookup:
  "map_of (stalls_of as) k =
     (if k \<in> ag_key ` set as then Some (filter (\<lambda>a. ag_key a = k) as) else None)"
proof (induction as rule: rev_induct)
  case Nil
  then show ?case by (simp add: stalls_of_def)
next
  case (snoc a as)
  have "filter (\<lambda>b. ag_key b = ag_key a) as = []" if "ag_key a \<notin> ag_key ` set as"
    using that by (auto simp: filter_empty_conv image_iff)
  with snoc show ?case by (auto simp: stalls_snoc shelve_def update_conv')
qed

lemma stalls_distinct: "distinct (map fst (stalls_of as))"
  by (induction as rule: rev_induct)
     (simp_all add: stalls_of_def shelve_def distinct_update)

lemma stalls_keys: "set (map fst (stalls_of as)) = ag_key ` set as"
proof -
  have "k \<in> fst ` set (stalls_of as) \<longleftrightarrow> map_of (stalls_of as) k \<noteq> None" for k
    by (simp add: map_of_eq_None_iff)
  then have "k \<in> fst ` set (stalls_of as) \<longleftrightarrow> k \<in> ag_key ` set as" for k
    by (simp add: stalls_lookup)
  then show ?thesis by (simp add: set_eq_iff)
qed

lemma stalls_members:
  "(k, ms) \<in> set (stalls_of as) \<longleftrightarrow> k \<in> ag_key ` set as \<and> ms = filter (\<lambda>a. ag_key a = k) as"
  using map_of_eq_Some_iff [OF stalls_distinct, of as k ms]
  by (auto simp: stalls_lookup split: if_splits)

lemma matching_filter:
  "matching D needle as = Inr found \<Longrightarrow> found = filter (\<lambda>a. matches D a needle = Inr True) as"
  by (induction as arbitrary: found) (auto split: sum.splits if_splits)

section \<open>Properties\<close>

lemma mset_shelve:
  "distinct (map fst st) \<Longrightarrow> mset (concat (map snd (shelve a st))) = mset (concat (map snd st)) + {#a#}"
  unfolding shelve_def
proof (induction st)
  case Nil
  then show ?case by simp
next
  case (Cons x st)
  show ?case
  proof (cases "fst x = ag_key a")
    case True
    then show ?thesis by (cases x) simp
  next
    case False
    with Cons show ?thesis by (cases x) auto
  qed
qed

lemma mset_stalls: "mset (concat (map snd (stalls_of as))) = mset as"
proof (induction as rule: rev_induct)
  case Nil
  then show ?case by (simp add: stalls_of_def)
next
  case (snoc a as)
  with mset_shelve [OF stalls_distinct] show ?case by (simp add: stalls_snoc)
qed

text \<open>The market is the roster grouped by provider and nothing else: each provider has one
  stall, a stall holds exactly its provider's agents in roster order, the stalls together hold
  every agent exactly once, and the counts shown are those of the roster and of its distinct
  keys.\<close>

theorem docent_market_partition:
  "distinct (map fst (stalls_of as)) \<and>
   (\<forall>k ms. (k, ms) \<in> set (stalls_of as) \<longleftrightarrow> k \<in> ag_key ` set as \<and> ms = filter (\<lambda>a. ag_key a = k) as) \<and>
   mset (concat (map snd (stalls_of as))) = mset as \<and>
   dget (describe_market D as) ''provider_count'' = JInt (int (card (ag_key ` set as))) \<and>
   dget (describe_market D as) ''agent_count'' = JInt (int (\<Sum>m \<leftarrow> map snd (stalls_of as). length m))"
proof -
  have "card (ag_key ` set as) = length (stalls_of as)"
    using distinct_card [OF stalls_distinct [of as]] stalls_keys [of as] by simp
  moreover have "(\<Sum>m \<leftarrow> map snd (stalls_of as). length m) = length as"
    using arg_cong [OF mset_stalls [of as], of size] by (simp add: length_concat)
  ultimately show ?thesis
    using stalls_distinct mset_stalls stalls_members by (simp add: describe_market_def)
qed

lemma describe_agent_key: "dget (describe_agent D a) ''provider_key'' = JStr (ag_key a)"
  by (simp add: describe_agent_def Let_def)

text \<open>Asked for one agent, the docent never guesses: an answer that describes an agent describes
  a listed one of that name, at the given provider if one was given, and the only listed one of
  that name if none was.\<close>

theorem docent_never_guesses:
  assumes "dget (describe_agent_tool D agents name provider) ''provider_key'' \<noteq> JNull"
  shows "\<exists>a \<in> set agents. describe_agent_tool D agents name provider = describe_agent D a \<and> ag_name a = name \<and>
    (if provider = [] then filter (\<lambda>b. ag_name b = name) agents = [a] else at_provider D provider a)"
proof (cases "provider = []")
  case True
  obtain a where f: "filter (\<lambda>b. ag_name b = name) agents = [a]"
    using assms True by (auto simp: describe_agent_tool_def split: list.splits)
  then have "a \<in> set (filter (\<lambda>b. ag_name b = name) agents)" by simp
  then have "a \<in> set agents" "ag_name a = name" by simp_all
  with f True show ?thesis by (intro bexI [of _ a]) (simp_all add: describe_agent_tool_def)
next
  case False
  obtain a rest where f: "filter (\<lambda>a. ag_name a = name \<and> at_provider D provider a) agents = a # rest"
    using assms False by (auto simp: describe_agent_tool_def split: list.splits)
  then have "a \<in> set (filter (\<lambda>a. ag_name a = name \<and> at_provider D provider a) agents)" by simp
  then have "a \<in> set agents" "ag_name a = name" "at_provider D provider a" by simp_all
  with f False show ?thesis by (intro bexI [of _ a]) (simp_all add: describe_agent_tool_def)
qed

definition sample_docent :: docent_env where
  "sample_docent = \<lparr>lower = id, split_ws = (\<lambda>s. [s]), strip_ws = id, fingerprint = take 4,
     card_path = ''/.well-known/agent-card.json'', base_url = ''http://souk/''\<rparr>"

definition sample_listing :: "string \<Rightarrow> string \<Rightarrow> agent_summary" where
  "sample_listing key name = \<lparr>ag_key = key, ag_name = name, ag_description = ''poetry'', ag_skills = [],
     ag_online = True, ag_joined = ''2025-01-01'', ag_seen_micros = 5000000, ag_provider_name = None\<rparr>"

definition sample_roster :: "agent_summary list" where
  "sample_roster = [sample_listing ''key1'' ''bob'', sample_listing ''key2'' ''eve'']"

theorem docent_never_guesses_witness:
  "\<exists>a \<in> set sample_roster. describe_agent_tool sample_docent sample_roster ''bob'' [] = describe_agent sample_docent a \<and>
     ag_name a = ''bob'' \<and>
     (if ([]::string) = [] then filter (\<lambda>b. ag_name b = ''bob'') sample_roster = [a] else at_provider sample_docent [] a)"
  by (rule docent_never_guesses)
     (simp add: describe_agent_tool_def describe_agent_key sample_roster_def sample_listing_def)

end
