(* ===== verification/Settings.thy ===== *)
theory Settings
  imports Docent
begin

text \<open>
  \<open>souk_server/config.py\<close>: core's settings read from the \<open>FUNDUQ_*\<close> environment; and the remaining
  small routes: the rosters and tickets of \<open>api_registry.py\<close> and the probes of \<open>api_health.py\<close>.
\<close>

section \<open>The environment\<close>

datatype parser = ParseStr | ParseInt | ParseFloat

datatype setting = StrSetting string | IntSetting int | FloatSetting pyfloat

definition CORE_ENV :: "(string \<times> string \<times> parser) list" where
  "CORE_ENV =
     [(''database_url'', ''FUNDUQ_DATABASE_URL'', ParseStr),
      (''db_schema'', ''FUNDUQ_DB_SCHEMA'', ParseStr),
      (''token_signing_secret'', ''FUNDUQ_TOKEN_SIGNING_SECRET'', ParseStr),
      (''identity_private_key'', ''FUNDUQ_IDENTITY_PRIVATE_KEY'', ParseStr),
      (''stale_hidden_window_seconds'', ''FUNDUQ_STALE_HIDDEN_WINDOW_SECONDS'', ParseInt),
      (''thread_queue_limit'', ''FUNDUQ_THREAD_QUEUE_LIMIT'', ParseInt),
      (''provider_quality_tolerance'', ''FUNDUQ_PROVIDER_QUALITY_TOLERANCE'', ParseInt),
      (''unserved_timeout_seconds'', ''FUNDUQ_UNSERVED_TIMEOUT_SECONDS'', ParseFloat),
      (''deliver_timeout_seconds'', ''FUNDUQ_DELIVER_TIMEOUT_SECONDS'', ParseFloat),
      (''undelivered_window_seconds'', ''FUNDUQ_UNDELIVERED_WINDOW_SECONDS'', ParseFloat)]"

fun parser_name :: "parser \<Rightarrow> string" where
  "parser_name ParseStr = ''str''"
| "parser_name ParseInt = ''int''"
| "parser_name ParseFloat = ''float''"

text \<open>The text forms \<open>int\<close> and \<open>float\<close> accept are arguments.\<close>

record number_readers =
  read_int :: "string \<Rightarrow> int option"
  read_float :: "string \<Rightarrow> pyfloat option"

fun parse_setting :: "number_readers \<Rightarrow> parser \<Rightarrow> string \<Rightarrow> setting option" where
  "parse_setting R ParseStr raw = Some (StrSetting raw)"
| "parse_setting R ParseInt raw = map_option IntSetting (read_int R raw)"
| "parse_setting R ParseFloat raw = map_option FloatSetting (read_float R raw)"

definition bad_setting :: "string \<Rightarrow> parser \<Rightarrow> string \<Rightarrow> exn" where
  "bad_setting name p raw =
     Exn ValueError (name @ '' is not a valid '' @ parser_name p @ '': '' @ repr_str raw)"

fun read_settings :: "number_readers \<Rightarrow> (string \<rightharpoonup> string) \<Rightarrow> (string \<times> string \<times> parser) list \<Rightarrow>
    exn + (string \<times> setting) list" where
  "read_settings R environ [] = Inr []"
| "read_settings R environ ((field, name, p) # entries) =
     (let raw = (case environ name of None \<Rightarrow> [] | Some v \<Rightarrow> v) in
      if raw = [] then read_settings R environ entries
      else (case parse_setting R p raw of
              None \<Rightarrow> Inl (bad_setting name p raw)
            | Some v \<Rightarrow>
                (case read_settings R environ entries of
                   Inl e \<Rightarrow> Inl e
                 | Inr values \<Rightarrow> Inr ((field, v) # values))))"

text \<open>\<open>CoreSettings(**values)\<close> is the constructor's own.\<close>

definition core_settings_from_env ::
  "number_readers \<Rightarrow> ((string \<times> setting) list \<Rightarrow> exn + 's) \<Rightarrow> (string \<rightharpoonup> string) \<Rightarrow> exn + 's" where
  "core_settings_from_env R core_settings environ =
     (case read_settings R environ CORE_ENV of Inl e \<Rightarrow> Inl e | Inr values \<Rightarrow> core_settings values)"

section \<open>Rosters, tickets and probes\<close>

text \<open>\<open>AgentRosterEntry(**summary.model_dump(), fingerprint=...)\<close>, and its mirror for offerings.\<close>

definition roster_entry :: "(string \<Rightarrow> string) \<Rightarrow> (string \<times> obj) \<Rightarrow> obj" where
  "roster_entry fp = (\<lambda>(provider_key, dump). dump @ [(''fingerprint'', JStr (fp provider_key))])"

definition list_agents :: "(string \<Rightarrow> string) \<Rightarrow> ('c, exn, (string \<times> obj) list) call \<Rightarrow> ('c, exn, obj list) call" where
  "list_agents fp summaries = bind_io summaries (\<lambda>xs. ret_io (map (roster_entry fp) xs))"

definition issue_ticket :: "(string \<Rightarrow> ('c, exn, string) call) \<Rightarrow> string \<Rightarrow> string \<Rightarrow> ('c, exn, obj) call" where
  "issue_ticket issue identity_key public_key =
     bind_io (issue public_key) (\<lambda>ticket.
       ret_io [(''ticket'', JStr ticket), (''funduqPublicKey'', JStr identity_key)])"

record health =
  h_ready :: bool
  h_database :: bool
  h_database_error :: "string option"
  h_schema_revision :: "string option"
  h_expected_revision :: string
  h_dispatching :: bool

definition readiness :: "health \<Rightarrow> response" where
  "readiness h =
     \<lparr>r_status = (if h_ready h then 200 else 503), r_headers = [],
      r_body = JObj
        [(''ready'', JBool (h_ready h)), (''database'', JBool (h_database h)),
         (''database_error'', opt_str (h_database_error h)),
         (''schema_revision'', opt_str (h_schema_revision h)),
         (''expected_schema_revision'', JStr (h_expected_revision h)),
         (''dispatching'', JBool (h_dispatching h))]\<rparr>"

definition liveness :: response where
  "liveness = \<lparr>r_status = 200, r_headers = [], r_body = JObj [(''status'', JStr ''alive'')]\<rparr>"

section \<open>Properties\<close>

definition set_in :: "(string \<rightharpoonup> string) \<Rightarrow> string \<times> string \<times> parser \<Rightarrow> bool" where
  "set_in environ = (\<lambda>(field, name, p). \<exists>raw. environ name = Some raw \<and> raw \<noteq> [])"

definition readable :: "number_readers \<Rightarrow> (string \<rightharpoonup> string) \<Rightarrow> string \<times> string \<times> parser \<Rightarrow> bool" where
  "readable R environ = (\<lambda>(field, name, p).
     case environ name of None \<Rightarrow> True | Some raw \<Rightarrow> raw = [] \<or> parse_setting R p raw \<noteq> None)"

lemma read_settings_values:
  "\<forall>e \<in> set entries. readable R environ e \<Longrightarrow>
   read_settings R environ entries =
     Inr (map (\<lambda>(field, name, p). (field, the (parse_setting R p (the (environ name)))))
            (filter (set_in environ) entries))"
  by (induction entries)
     (auto simp: readable_def set_in_def Let_def split: option.splits prod.splits if_splits)

lemma read_settings_bad:
  "\<not> (\<forall>e \<in> set entries. readable R environ e) \<Longrightarrow>
   \<exists>field name p raw. (field, name, p) \<in> set entries \<and> environ name = Some raw \<and> raw \<noteq> [] \<and>
     parse_setting R p raw = None \<and> read_settings R environ entries = Inl (bad_setting name p raw)"
proof (induction entries)
  case Nil
  then show ?case by simp
next
  case (Cons e entries)
  obtain field name p where e: "e = (field, name, p)" by (cases e)
  show ?case
  proof (cases "readable R environ e")
    case False
    with e obtain raw where "environ name = Some raw" "raw \<noteq> []" "parse_setting R p raw = None"
      by (auto simp: readable_def split: option.splits)
    with e show ?thesis
      by (intro exI [of _ field] exI [of _ name] exI [of _ p] exI [of _ raw]) simp
  next
    case True
    with Cons obtain f n q raw where
      ih: "(f, n, q) \<in> set entries" "environ n = Some raw" "raw \<noteq> []" "parse_setting R q raw = None"
      "read_settings R environ entries = Inl (bad_setting n q raw)"
      by auto
    have "read_settings R environ (e # entries) = Inl (bad_setting n q raw)"
      using True ih(5) e by (auto simp: readable_def Let_def split: option.splits)
    with ih(1-4) show ?thesis by (auto simp del: read_settings.simps)
  qed
qed

text \<open>Core is given exactly the settings whose variable is present and not empty, each under its
  own field and parsed by its own reader, and no default of the gateway's; and if any such
  variable does not parse, core is not constructed and the error names a variable that does not.\<close>

theorem settings_exactly_those_set:
  "(if \<forall>e \<in> set CORE_ENV. readable R environ e
    then core_settings_from_env R mk environ =
      mk (map (\<lambda>(field, name, p). (field, the (parse_setting R p (the (environ name)))))
            (filter (set_in environ) CORE_ENV))
    else \<exists>field name p raw. (field, name, p) \<in> set CORE_ENV \<and> environ name = Some raw \<and> raw \<noteq> [] \<and>
      parse_setting R p raw = None \<and> core_settings_from_env R mk environ = Inl (bad_setting name p raw))"
proof (cases "\<forall>e \<in> set CORE_ENV. readable R environ e")
  case True
  then show ?thesis by (simp add: core_settings_from_env_def read_settings_values)
next
  case False
  from read_settings_bad [OF False] obtain field name p raw where
    "(field, name, p) \<in> set CORE_ENV" "environ name = Some raw" "raw \<noteq> []"
    "parse_setting R p raw = None" "read_settings R environ CORE_ENV = Inl (bad_setting name p raw)"
    by blast
  then have "\<exists>field name p raw. (field, name, p) \<in> set CORE_ENV \<and> environ name = Some raw \<and> raw \<noteq> [] \<and>
      parse_setting R p raw = None \<and> core_settings_from_env R mk environ = Inl (bad_setting name p raw)"
    unfolding core_settings_from_env_def by (intro exI conjI) simp_all
  with False show ?thesis by (simp only: if_False not_False_eq_True)
qed

definition sample_readers :: number_readers where
  "sample_readers = \<lparr>read_int = (\<lambda>s. if s = ''7'' then Some 7 else None), read_float = (\<lambda>s. None)\<rparr>"

theorem settings_exactly_those_set_witness:
  "core_settings_from_env sample_readers Inr [''FUNDUQ_THREAD_QUEUE_LIMIT'' \<mapsto> ''7'', ''FUNDUQ_DB_SCHEMA'' \<mapsto> []] =
     Inr [(''thread_queue_limit'', IntSetting 7)]"
  using settings_exactly_those_set [of sample_readers
      "[''FUNDUQ_THREAD_QUEUE_LIMIT'' \<mapsto> ''7'', ''FUNDUQ_DB_SCHEMA'' \<mapsto> []]" Inr]
  by (simp add: CORE_ENV_def readable_def set_in_def sample_readers_def)

end
