(* ===== verification/Openai_Agent.thy ===== *)
theory Openai_Agent
  imports Funduq_Core
begin

text \<open>
  The relaying providers: \<open>providers/openai-compat-agent/openai_compat_agent/main.py\<close>, which turns
  a chat-completions stream into a run's events, and the echo of \<open>agent-template\<close>. The HTTP call is
  an argument: the data of its server-sent events and how it ended.
\<close>

section \<open>The request\<close>

record agent_config =
  ac_name :: string
  ac_description :: string
  ac_api_base :: string
  ac_api_key :: string
  ac_model :: string
  ac_system_prompt :: string
  ac_timeout_seconds :: pyfloat
  ac_session_header :: string
  ac_memory_header :: string

definition chat_message :: "json \<Rightarrow> json \<Rightarrow> json" where
  "chat_message role content = JObj [(''role'', role), (''content'', content)]"

definition relayed_message :: "obj \<Rightarrow> json list" where
  "relayed_message message =
     (let role = dget message ''role''; content = py_or (dget message ''content'') (JStr []) in
      if role \<in> {JStr ''user'', JStr ''assistant'', JStr ''system''} \<and> truthy content
      then [chat_message role content] else [])"

definition build_messages :: "agent_config \<Rightarrow> obj list \<Rightarrow> json list" where
  "build_messages A messages =
     (if ac_system_prompt A = [] then []
      else [chat_message (JStr ''system'') (JStr (ac_system_prompt A))]) @
     concat (map relayed_message messages)"

definition request_headers :: "agent_config \<Rightarrow> string \<Rightarrow> (string \<times> string) list" where
  "request_headers A thread_id =
     (let h0 = (if ac_api_key A = [] then [] else [(''Authorization'', ''Bearer '' @ ac_api_key A)]);
          h1 = (if ac_session_header A = [] then h0 else AList.update (ac_session_header A) thread_id h0)
      in if ac_memory_header A = [] then h1 else AList.update (ac_memory_header A) thread_id h1)"

section \<open>The answer\<close>

definition run_started :: "string \<Rightarrow> string \<Rightarrow> obj" where
  "run_started thread_id run_id =
     [(''type'', JStr ''RUN_STARTED''), (''threadId'', JStr thread_id), (''runId'', JStr run_id)]"

definition run_finished :: "string \<Rightarrow> string \<Rightarrow> obj" where
  "run_finished thread_id run_id =
     [(''type'', JStr ''RUN_FINISHED''), (''threadId'', JStr thread_id), (''runId'', JStr run_id)]"

definition text_start :: "string \<Rightarrow> obj" where
  "text_start m = [(''type'', JStr ''TEXT_MESSAGE_START''), (''messageId'', JStr m), (''role'', JStr ''assistant'')]"

definition text_content :: "string \<Rightarrow> json \<Rightarrow> obj" where
  "text_content m delta = [(''type'', JStr ''TEXT_MESSAGE_CONTENT''), (''messageId'', JStr m), (''delta'', delta)]"

definition text_end :: "string \<Rightarrow> obj" where
  "text_end m = [(''type'', JStr ''TEXT_MESSAGE_END''), (''messageId'', JStr m)]"

definition run_error :: "exn \<Rightarrow> obj" where
  "run_error e = [(''type'', JStr ''RUN_ERROR''), (''message'', JStr (''upstream call failed: '' @ exn_text e))]"

text \<open>\<open>choice.get("delta", {}).get("content")\<close>.\<close>

definition delta_of :: "json \<Rightarrow> exn + json" where
  "delta_of choice =
     (case choice of
        JObj c \<Rightarrow> (case dget_or c ''delta'' (JObj []) of
                     JObj d \<Rightarrow> Inr (dget d ''content'') | _ \<Rightarrow> Inl (Exn AttributeError ''get''))
      | _ \<Rightarrow> Inl (Exn AttributeError ''get''))"

text \<open>The deltas of one chunk, up to a choice that raises; iterating a dict gives its keys, which have no \<open>get\<close>.\<close>

fun choice_deltas :: "json list \<Rightarrow> json list \<times> exn option" where
  "choice_deltas [] = ([], None)"
| "choice_deltas (c # cs) =
     (case delta_of c of
        Inl e \<Rightarrow> ([], Some e)
      | Inr d \<Rightarrow> (case choice_deltas cs of (ds, x) \<Rightarrow> (if truthy d then d # ds else ds, x)))"

definition chunk_deltas :: "json \<Rightarrow> json list \<times> exn option" where
  "chunk_deltas chunk =
     (case chunk of
        JObj d \<Rightarrow>
          (case dget_or d ''choices'' (JList []) of
             JList cs \<Rightarrow> choice_deltas cs
           | JObj ks \<Rightarrow> ([], if ks = [] then None else Some (Exn AttributeError ''get''))
           | JStr s \<Rightarrow> ([], if s = [] then None else Some (Exn AttributeError ''get''))
           | _ \<Rightarrow> ([], Some (Exn TypeError ''not iterable'')))
      | _ \<Rightarrow> ([], Some (Exn AttributeError ''get'')))"

text \<open>The event source: the data of each event, then how the connection ended.\<close>

fun stream_deltas :: "(string \<Rightarrow> exn + json) \<Rightarrow> string list \<Rightarrow> exn option \<Rightarrow> json list \<times> exn option" where
  "stream_deltas loads [] ended = ([], ended)"
| "stream_deltas loads (data # rest) ended =
     (if data = ''[DONE]'' then ([], None)
      else (case loads data of
              Inl e \<Rightarrow> ([], Some e)
            | Inr chunk \<Rightarrow>
                (case chunk_deltas chunk of
                   (ds, Some e) \<Rightarrow> (ds, Some e)
                 | (ds, None) \<Rightarrow> (case stream_deltas loads rest ended of (ds', x) \<Rightarrow> (ds @ ds', x)))))"

text \<open>What is yielded for the deltas: a start before the first of them.\<close>

definition text_events :: "string \<Rightarrow> json list \<Rightarrow> obj list" where
  "text_events m ds = (if ds = [] then [] else text_start m # map (text_content m) ds)"

definition run_stream ::
  "(string \<Rightarrow> exn + json) \<Rightarrow> string \<Rightarrow> string \<Rightarrow> string list \<Rightarrow> exn option \<Rightarrow> obj list" where
  "run_stream loads thread_id run_id events ended =
     (let m = run_id @ ''-reply'' in
      case stream_deltas loads events ended of
        (ds, Some e) \<Rightarrow> run_started thread_id run_id # text_events m ds @ [run_error e]
      | (ds, None) \<Rightarrow>
          run_started thread_id run_id # text_events m ds @ (if ds = [] then [] else [text_end m]) @
          [run_finished thread_id run_id])"

text \<open>The call to the wrapped endpoint; what its event stream gives is the argument of the run.\<close>

record upstream_call =
  uc_url :: string
  uc_body :: obj
  uc_headers :: "(string \<times> string) list"
  uc_timeout :: pyfloat

definition upstream_call_of :: "agent_config \<Rightarrow> string \<Rightarrow> obj list \<Rightarrow> upstream_call" where
  "upstream_call_of A thread_id messages =
     \<lparr>uc_url = rstrip_slash (ac_api_base A) @ ''/chat/completions'',
      uc_body = [(''model'', JStr (ac_model A)), (''messages'', JList (build_messages A messages)),
                 (''stream'', JBool True)],
      uc_headers = request_headers A thread_id, uc_timeout = ac_timeout_seconds A\<rparr>"

definition make_run_stream ::
  "agent_config \<Rightarrow> (string \<Rightarrow> exn + json) \<Rightarrow> (upstream_call \<Rightarrow> string list \<times> exn option) \<Rightarrow>
   string \<Rightarrow> string \<Rightarrow> obj list \<Rightarrow> obj list" where
  "make_run_stream A loads upstream thread_id run_id messages =
     (case upstream (upstream_call_of A thread_id messages) of
        (events, ended) \<Rightarrow> run_stream loads thread_id run_id events ended)"

section \<open>The echo\<close>

fun last_user_text :: "obj list \<Rightarrow> json" where
  "last_user_text [] = JStr []"
| "last_user_text (m # rest) =
     (if dget m ''role'' = JStr ''user'' then dget_or m ''content'' (JStr []) else last_user_text rest)"

definition echo_stream :: "string \<Rightarrow> string \<Rightarrow> obj list \<Rightarrow> obj list" where
  "echo_stream thread_id run_id messages =
     (let m = run_id @ ''-reply'' in
      [run_started thread_id run_id, text_start m,
       text_content m (JStr (''echo: '' @ py_str (last_user_text (rev messages)))),
       text_end m, run_finished thread_id run_id])"

section \<open>What the relay says\<close>

definition event_type :: "obj \<Rightarrow> json" where
  "event_type e = dget e ''type''"

lemma event_types [simp]:
  "event_type (run_started t r) = JStr ''RUN_STARTED''" "event_type (run_finished t r) = JStr ''RUN_FINISHED''"
  "event_type (text_start m) = JStr ''TEXT_MESSAGE_START''"
  "event_type (text_content m d) = JStr ''TEXT_MESSAGE_CONTENT''"
  "event_type (text_end m) = JStr ''TEXT_MESSAGE_END''" "event_type (run_error e) = JStr ''RUN_ERROR''"
  by (simp_all add: event_type_def run_started_def run_finished_def text_start_def text_content_def
      text_end_def run_error_def)

text \<open>The order every consumer of a run relies on: opened once, text within its brackets, closed once.\<close>

definition well_bracketed :: "json list \<Rightarrow> bool" where
  "well_bracketed ts \<longleftrightarrow>
     (\<exists>n. ts \<in> {[JStr ''RUN_STARTED'', JStr ''RUN_FINISHED''], [JStr ''RUN_STARTED'', JStr ''RUN_ERROR''],
        JStr ''RUN_STARTED'' # JStr ''TEXT_MESSAGE_START'' # replicate (Suc n) (JStr ''TEXT_MESSAGE_CONTENT'') @
          [JStr ''TEXT_MESSAGE_END'', JStr ''RUN_FINISHED''],
        JStr ''RUN_STARTED'' # JStr ''TEXT_MESSAGE_START'' # replicate (Suc n) (JStr ''TEXT_MESSAGE_CONTENT'') @
          [JStr ''RUN_ERROR'']})"

lemma text_events_types:
  "ds \<noteq> [] \<Longrightarrow> map event_type (text_events m ds) =
     JStr ''TEXT_MESSAGE_START'' # replicate (Suc (length ds - 1)) (JStr ''TEXT_MESSAGE_CONTENT'')"
proof -
  assume ds: "ds \<noteq> []"
  have "map (event_type \<circ> text_content m) ds = replicate (length ds) (JStr ''TEXT_MESSAGE_CONTENT'')"
    by (induction ds) simp_all
  with ds show ?thesis by (cases ds) (simp_all add: text_events_def)
qed

lemma run_stream_bracketed: "well_bracketed (map event_type (run_stream loads t r es ended))"
proof -
  obtain ds x where d: "stream_deltas loads es ended = (ds, x)" by fastforce
  show ?thesis
  proof (cases "ds = []")
    case True
    with d show ?thesis
      by (cases x) (simp_all add: run_stream_def Let_def text_events_def well_bracketed_def)
  next
    case False
    note ts = text_events_types [OF False]
    show ?thesis
    proof (cases x)
      case None
      with d False ts show ?thesis
        unfolding well_bracketed_def by (intro exI [of _ "length ds - 1"]) (simp add: run_stream_def Let_def)
    next
      case (Some e)
      with d False ts show ?thesis
        unfolding well_bracketed_def by (intro exI [of _ "length ds - 1"]) (simp add: run_stream_def Let_def)
    qed
  qed
qed

lemma stream_deltas_done:
  "stream_deltas loads (es @ [''[DONE]'']) None = stream_deltas loads es None"
  by (induction es) (auto split: sum.splits prod.splits option.splits)

definition relayed_text :: "obj list \<Rightarrow> json list" where
  "relayed_text events = map (\<lambda>e. dget e ''delta'') (filter (\<lambda>e. event_type e = JStr ''TEXT_MESSAGE_CONTENT'') events)"

lemma relayed_text_run_stream: "relayed_text (run_stream loads t r es ended) = fst (stream_deltas loads es ended)"
proof -
  have body: "relayed_text (map (text_content m) ds) = ds" for m ds
    by (induction ds) (simp_all add: relayed_text_def text_content_def event_type_def)
  have words: "relayed_text (text_events m ds) = ds" for m ds
    using body [of m ds] by (simp add: text_events_def) (simp add: relayed_text_def)
  have app: "relayed_text (xs @ ys) = relayed_text xs @ relayed_text ys" for xs ys by (simp add: relayed_text_def)
  have none: "relayed_text (run_started t r # xs) = relayed_text xs" "relayed_text [run_error e] = []"
    "relayed_text [text_end m] = []" "relayed_text [] = []" "relayed_text [run_finished t r] = []" for xs e m
    by (simp_all add: relayed_text_def)
  obtain ds x where d: "stream_deltas loads es ended = (ds, x)" by fastforce
  show ?thesis
    by (cases x) (simp_all add: d run_stream_def Let_def app none words)
qed

text \<open>The relay's event stream is always well formed: the run opens once, text comes only
  between a message's start and end, and the run closes once, as an error exactly when the call or
  the reading of it raised; what it says is, in order, the non-empty deltas read before that. But
  it takes an upstream stream that simply stops for a finished one: one without the closing
  \<open>[DONE]\<close> is told exactly like the same one with it.\<close>

theorem relay_well_formed:
  "well_bracketed (map event_type (run_stream loads t r es ended)) \<and>
   relayed_text (run_stream loads t r es ended) = fst (stream_deltas loads es ended) \<and>
   (last (run_stream loads t r es ended) = run_finished t r \<longleftrightarrow> snd (stream_deltas loads es ended) = None) \<and>
   run_stream loads t r (es @ [''[DONE]'']) None = run_stream loads t r es None"
proof -
  have "last (run_stream loads t r es ended) = run_finished t r \<longleftrightarrow> snd (stream_deltas loads es ended) = None"
    by (auto simp: run_stream_def Let_def run_error_def run_finished_def split: prod.splits option.splits)
  then show ?thesis
    using run_stream_bracketed relayed_text_run_stream stream_deltas_done by (simp add: run_stream_def)
qed

text \<open>The echo's own stream has that shape too.\<close>

lemma echo_bracketed: "well_bracketed (map event_type (echo_stream t r ms))"
  unfolding well_bracketed_def by (intro exI [of _ 0]) (simp add: echo_stream_def Let_def)

end
