(* ===== verification/Caller_Client.thy ===== *)
theory Caller_Client
  imports Funduq_Core
begin

text \<open>
  \<open>souk-client-sdk/souk_client_sdk/client.py\<close>: a caller's end of the AG-UI door. Turning a name into
  an address, the body of a run, and what the client keeps of the event stream: the thread, the
  run, the task its lineage began with and what the run is still waiting on.
\<close>

section \<open>Addresses\<close>

record listed_agent =
  la_provider :: json
  la_name :: json
  la_provider_key :: json
  la_description :: json
  la_online :: json
  la_provider_name :: json

fun roster_row :: "json \<Rightarrow> exn + listed_agent" where
  "roster_row (JObj row) =
     (case (map_of row ''fingerprint'', map_of row ''name'', map_of row ''provider_key'') of
        (None, _, _) \<Rightarrow> Inl (Exn KeyError ''fingerprint'')
      | (Some f, None, _) \<Rightarrow> Inl (Exn KeyError ''name'')
      | (Some f, Some n, None) \<Rightarrow> Inl (Exn KeyError ''provider_key'')
      | (Some f, Some n, Some k) \<Rightarrow>
          Inr \<lparr>la_provider = f, la_name = n, la_provider_key = k,
               la_description = dget_or row ''description'' (JStr []),
               la_online = dget_or row ''online'' (JBool False),
               la_provider_name = dget row ''provider_name''\<rparr>)"
| "roster_row _ = Inl (Exn TypeError ''row'')"

fun roster_rows :: "json list \<Rightarrow> exn + listed_agent list" where
  "roster_rows [] = Inr []"
| "roster_rows (r # rs) =
     (case roster_row r of
        Inl e \<Rightarrow> Inl e
      | Inr a \<Rightarrow> (case roster_rows rs of Inl e \<Rightarrow> Inl e | Inr as \<Rightarrow> Inr (a # as)))"

datatype resolve_error = NotListed string | AmbiguousAgentName string "listed_agent list"

definition wanted :: "string \<Rightarrow> string option \<Rightarrow> listed_agent \<Rightarrow> bool" where
  "wanted name provider a \<longleftrightarrow>
     la_name a = JStr name \<and>
     (case provider of None \<Rightarrow> True | Some p \<Rightarrow> JStr p \<in> {la_provider a, la_provider_key a})"

definition not_listed :: "string \<Rightarrow> string option \<Rightarrow> string" where
  "not_listed name provider =
     ''no listed agent named '' @ [CHR 0x27] @ name @ [CHR 0x27] @
     (case provider of
        None \<Rightarrow> []
      | Some p \<Rightarrow> if p = [] then [] else '' under provider '' @ [CHR 0x27] @ p @ [CHR 0x27])"

definition resolve :: "string \<Rightarrow> string option \<Rightarrow> listed_agent list \<Rightarrow> resolve_error + listed_agent" where
  "resolve name provider roster =
     (case filter (wanted name provider) roster of
        [] \<Rightarrow> Inl (NotListed (not_listed name provider))
      | [a] \<Rightarrow> Inr a
      | candidates \<Rightarrow> Inl (AmbiguousAgentName name candidates))"

definition agent_path :: "listed_agent \<Rightarrow> string" where
  "agent_path a = py_str (la_provider a) @ ''/'' @ py_str (la_name a)"

section \<open>The body of a run\<close>

definition resolution_proof :: "(string \<Rightarrow> string list \<Rightarrow> string) \<Rightarrow> string \<Rightarrow> string \<Rightarrow> string list \<Rightarrow> obj" where
  "resolution_proof sign_resolution key task_id ask_ids =
     [(''publicKey'', JStr key), (''signature'', JStr (sign_resolution task_id ask_ids))]"

text \<open>The caller's bag: the old spelling, the new one over it, and the proof beside them.\<close>

definition caller_bag :: "obj \<Rightarrow> obj \<Rightarrow> obj option \<Rightarrow> obj" where
  "caller_bag metadata forwarded_props resolution =
     (let bag = dict_merge (dict_merge [] metadata) forwarded_props in
      case resolution of None \<Rightarrow> bag | Some r \<Rightarrow> AList.update ''resolution'' (JObj r) bag)"

definition run_body ::
  "string \<Rightarrow> string \<Rightarrow> string \<Rightarrow> string \<Rightarrow> string \<Rightarrow> obj \<Rightarrow> json list option \<Rightarrow> obj" where
  "run_body thread_id run_id message_id role message bag resume =
     (let body = [(''threadId'', JStr thread_id), (''runId'', JStr run_id), (''state'', JNull),
                  (''messages'', JList (if message = [] then [] else
                     [JObj [(''id'', JStr message_id), (''role'', JStr role), (''content'', JStr message)]])),
                  (''tools'', JList []), (''context'', JList []),
                  (''forwardedProps'', if bag = [] then JNull else JObj bag)]
      in case resume of None \<Rightarrow> body | Some r \<Rightarrow> body @ [(''resume'', JList r)])"

section \<open>The event stream\<close>

text \<open>
  What the client remembers between runs, and what one run tracks: the tool calls announced and
  answered. Ids are JSON values; the ids souk mints are strings, on which HOL equality is Python's.
\<close>

record caller =
  c_thread :: json
  c_run :: json
  c_task :: json
  c_asks :: "json list"

record tracked =
  tr_announced :: "json list"
  tr_answered :: "json list"

definition open_calls :: "tracked \<Rightarrow> json list" where
  "open_calls t = filter (\<lambda>a. a \<notin> set (tr_answered t)) (tr_announced t)"

definition interrupts_of :: "obj \<Rightarrow> json" where
  "interrupts_of event =
     (case dget event ''outcome'' of
        JObj outcome \<Rightarrow>
          if dget outcome ''type'' = JStr ''interrupt''
          then py_or (dget outcome ''interrupts'') (JList []) else JList []
      | _ \<Rightarrow> JList [])"

text \<open>\<open>interrupt.get("toolCallId") or interrupt.get("id")\<close>.\<close>

definition ask_of :: "obj \<Rightarrow> json" where
  "ask_of interrupt = py_or (dget interrupt ''toolCallId'') (dget interrupt ''id'')"

fun add_interrupts :: "json list \<Rightarrow> json list \<Rightarrow> exn + json list" where
  "add_interrupts outstanding [] = Inr outstanding"
| "add_interrupts outstanding (JObj i # rest) =
     (let ask = ask_of i in
      add_interrupts (if truthy ask \<and> ask \<notin> set outstanding then outstanding @ [ask] else outstanding) rest)"
| "add_interrupts outstanding (_ # rest) = Inl (Exn AttributeError ''get'')"

definition finish_asks :: "tracked \<Rightarrow> obj \<Rightarrow> exn + json list" where
  "finish_asks t event =
     (if \<not> list_all hashable (tr_announced t) then Inl (Exn TypeError ''unhashable type'')
      else (case interrupts_of event of
              JList is \<Rightarrow> add_interrupts (open_calls t) is
            | JStr s \<Rightarrow> Inl (Exn AttributeError ''get'')
            | JObj d \<Rightarrow> Inl (Exn AttributeError ''get'')
            | _ \<Rightarrow> Inl (Exn TypeError ''not iterable'')))"

text \<open>One event; \<open>Inl\<close> is the exception that ends the stream.\<close>

definition on_caller_event ::
  "bool \<Rightarrow> json \<Rightarrow> obj \<Rightarrow> tracked \<times> caller \<Rightarrow> exn + tracked \<times> caller" where
  "on_caller_event continues thread_id event = (\<lambda>(t, c).
     let kind = dget event ''type'' in
     if kind = JStr ''RUN_STARTED''
     then (let c' = c\<lparr>c_thread := dget_or event ''threadId'' thread_id, c_run := dget event ''runId''\<rparr> in
           Inr (t, if continues then c' else c'\<lparr>c_task := c_run c'\<rparr>))
     else if kind = JStr ''TOOL_CALL_START''
     then (case map_of event ''toolCallId'' of
             None \<Rightarrow> Inl (Exn KeyError ''toolCallId'')
           | Some i \<Rightarrow> Inr (t\<lparr>tr_announced := tr_announced t @ [i]\<rparr>, c))
     else if kind = JStr ''TOOL_CALL_RESULT''
     then (case map_of event ''toolCallId'' of
             None \<Rightarrow> Inl (Exn KeyError ''toolCallId'')
           | Some i \<Rightarrow> if hashable i then Inr (t\<lparr>tr_answered := i # tr_answered t\<rparr>, c)
                       else Inl (Exn TypeError ''unhashable type''))
     else if kind = JStr ''RUN_FINISHED''
     then (case finish_asks t event of Inl e \<Rightarrow> Inl e | Inr asks \<Rightarrow> Inr (t, c\<lparr>c_asks := asks\<rparr>))
     else Inr (t, c))"

text \<open>The events taken in order, up to one that raises.\<close>

fun track_events :: "bool \<Rightarrow> json \<Rightarrow> obj list \<Rightarrow> tracked \<times> caller \<Rightarrow> tracked \<times> caller" where
  "track_events continues thread_id [] st = st"
| "track_events continues thread_id (e # es) st =
     (case on_caller_event continues thread_id e st of
        Inl x \<Rightarrow> st | Inr st' \<Rightarrow> track_events continues thread_id es st')"

definition continues_lineage :: "json \<Rightarrow> caller \<Rightarrow> bool" where
  "continues_lineage thread_id c \<longleftrightarrow> c_asks c \<noteq> [] \<and> thread_id = c_thread c"

definition start_tracking :: "json \<Rightarrow> caller \<Rightarrow> tracked \<times> caller" where
  "start_tracking thread_id c =
     (\<lparr>tr_announced = [], tr_answered = []\<rparr>, c\<lparr>c_thread := thread_id, c_asks := []\<rparr>)"

text \<open>\<open>run\<close>, from the thread on: the events are those the stream gives before it ends.\<close>

definition run_events :: "json \<Rightarrow> obj list \<Rightarrow> caller \<Rightarrow> caller" where
  "run_events thread_id events c =
     snd (track_events (continues_lineage thread_id c) thread_id events (start_tracking thread_id c))"

section \<open>An address is never guessed\<close>

lemma filter_one:
  "filter P xs = [a] \<longleftrightarrow> (\<exists>us vs. xs = us @ a # vs \<and> P a \<and> (\<forall>b \<in> set (us @ vs). \<not> P b))"
proof -
  have "[] = filter P vs \<longleftrightarrow> (\<forall>b \<in> set vs. \<not> P b)" for vs
    by (metis filter_empty_conv)
  then show ?thesis unfolding filter_eq_Cons_iff by auto
qed

text \<open>A name is turned into an address only when it identifies one: the result is a roster entry
  of that name, under the provider asked for by key or fingerprint, and no other entry qualifies;
  with none the caller is told so, and with several it is given all of them and none is chosen.\<close>

theorem resolve_never_guesses:
  "(resolve name provider roster = Inr a \<longleftrightarrow>
      (\<exists>us vs. roster = us @ a # vs \<and> wanted name provider a \<and> (\<forall>b \<in> set (us @ vs). \<not> wanted name provider b))) \<and>
   (\<forall>m. resolve name provider roster = Inl (NotListed m) \<longrightarrow> (\<forall>b \<in> set roster. \<not> wanted name provider b)) \<and>
   (\<forall>n cs. resolve name provider roster = Inl (AmbiguousAgentName n cs) \<longrightarrow>
      n = name \<and> length cs \<ge> 2 \<and> cs = filter (wanted name provider) roster)"
proof -
  have "resolve name provider roster = Inr a \<longleftrightarrow> filter (wanted name provider) roster = [a]"
    by (auto simp: resolve_def split: list.splits)
  then show ?thesis
    by (auto simp: filter_one resolve_def filter_empty_conv split: list.splits)
qed

text \<open>A roster of two stalls that keep an agent of one name.\<close>

definition two_stalls :: "listed_agent list" where
  "two_stalls = map (\<lambda>p. \<lparr>la_provider = JStr p, la_name = JStr ''translator'', la_provider_key = JStr (''key-'' @ p),
     la_description = JStr [], la_online = JBool True, la_provider_name = JNull\<rparr>) [''zahra'', ''yusuf'']"

theorem resolve_never_guesses_witness:
  "(\<exists>cs. resolve ''translator'' None two_stalls = Inl (AmbiguousAgentName ''translator'' cs) \<and> length cs \<ge> 2) \<and>
   resolve ''translator'' (Some ''key-yusuf'') two_stalls = Inr (two_stalls ! 1)"
proof
  have amb: "resolve ''translator'' None two_stalls = Inl (AmbiguousAgentName ''translator'' two_stalls)"
    by (simp add: resolve_def two_stalls_def wanted_def)
  show "\<exists>cs. resolve ''translator'' None two_stalls = Inl (AmbiguousAgentName ''translator'' cs) \<and> length cs \<ge> 2"
    using amb resolve_never_guesses [of "''translator''" None two_stalls] by blast
  show "resolve ''translator'' (Some ''key-yusuf'') two_stalls = Inr (two_stalls ! 1)"
    using resolve_never_guesses [of "''translator''" "Some ''key-yusuf''" two_stalls "two_stalls ! 1"]
    by (simp add: resolve_def two_stalls_def wanted_def)
qed

section \<open>What a run is waiting on\<close>

fun call_ids :: "string \<Rightarrow> obj list \<Rightarrow> json list" where
  "call_ids kind [] = []"
| "call_ids kind (e # es) =
     (if dget e ''type'' = JStr kind
      then (case map_of e ''toolCallId'' of None \<Rightarrow> [] | Some i \<Rightarrow> [i]) else []) @ call_ids kind es"

text \<open>An event the stream cannot stumble over.\<close>

definition plain_event :: "obj \<Rightarrow> bool" where
  "plain_event e \<longleftrightarrow>
     (dget e ''type'' \<in> {JStr ''TOOL_CALL_START'', JStr ''TOOL_CALL_RESULT''} \<longrightarrow>
        (\<exists>i. map_of e ''toolCallId'' = Some i \<and> hashable i)) \<and>
     (dget e ''type'' = JStr ''RUN_FINISHED'' \<longrightarrow> (\<exists>is. interrupts_of e = JList (map JObj is)))"

lemma add_interrupts_objs:
  "\<exists>out. add_interrupts asks (map JObj is) = Inr out \<and>
     set out = set asks \<union> {x \<in> ask_of ` set is. truthy x} \<and> (distinct asks \<longrightarrow> distinct out)"
proof (induction "is" arbitrary: asks)
  case Nil
  then show ?case by simp
next
  case (Cons i "is")
  let ?a = "if truthy (ask_of i) \<and> ask_of i \<notin> set asks then asks @ [ask_of i] else asks"
  from Cons [of ?a] show ?case by (auto simp: Let_def split: if_splits)
qed

lemma finish_asks_plain:
  assumes "list_all hashable (tr_announced t)" and "interrupts_of e = JList (map JObj is)"
  shows "\<exists>out. finish_asks t e = Inr out \<and>
    set out = set (open_calls t) \<union> {x \<in> ask_of ` set is. truthy x} \<and>
    (distinct (tr_announced t) \<longrightarrow> distinct out)"
  using assms add_interrupts_objs [of "open_calls t" "is"]
  by (auto simp: finish_asks_def open_calls_def)

text \<open>The state after plain events: what was announced and answered is what they said.\<close>

lemma plain_step:
  assumes "plain_event e" and "list_all hashable (tr_announced t)"
  shows "\<exists>t' c'. on_caller_event k th e (t, c) = Inr (t', c') \<and> list_all hashable (tr_announced t') \<and>
    tr_announced t' = tr_announced t @ call_ids ''TOOL_CALL_START'' [e] \<and>
    set (tr_answered t') = set (tr_answered t) \<union> set (call_ids ''TOOL_CALL_RESULT'' [e])"
proof -
  consider (started) "dget e ''type'' = JStr ''RUN_STARTED''" | (call) "dget e ''type'' = JStr ''TOOL_CALL_START''"
    | (result) "dget e ''type'' = JStr ''TOOL_CALL_RESULT''" | (finished) "dget e ''type'' = JStr ''RUN_FINISHED''"
    | (other) "dget e ''type'' \<notin> JStr ` {''RUN_STARTED'', ''TOOL_CALL_START'', ''TOOL_CALL_RESULT'', ''RUN_FINISHED''}"
    by blast
  then show ?thesis
  proof cases
    case finished
    with assms obtain "is" where "interrupts_of e = JList (map JObj is)" by (auto simp: plain_event_def)
    with finish_asks_plain assms(2) finished show ?thesis by (fastforce simp: on_caller_event_def)
  qed (use assms in \<open>auto simp: on_caller_event_def plain_event_def Let_def\<close>)
qed

lemma call_ids_append: "call_ids k (es @ fs) = call_ids k es @ call_ids k fs"
  by (induction es) auto

lemma call_ids_Cons: "call_ids k (e # es) = call_ids k [e] @ call_ids k es"
  by simp

lemma track_append:
  assumes "list_all plain_event es" and "list_all hashable (tr_announced (fst st))"
  shows "track_events k th (es @ fs) st = track_events k th fs (track_events k th es st) \<and>
    list_all hashable (tr_announced (fst (track_events k th es st))) \<and>
    tr_announced (fst (track_events k th es st)) = tr_announced (fst st) @ call_ids ''TOOL_CALL_START'' es \<and>
    set (tr_answered (fst (track_events k th es st))) = set (tr_answered (fst st)) \<union> set (call_ids ''TOOL_CALL_RESULT'' es)"
  using assms
proof (induction es arbitrary: st)
  case Nil
  then show ?case by simp
next
  case (Cons e es)
  obtain t c where st: "st = (t, c)" by (cases st)
  from Cons.prems st have "plain_event e" "list_all hashable (tr_announced t)" by simp_all
  from plain_step [OF this] obtain t' c' where s: "on_caller_event k th e (t, c) = Inr (t', c')"
    and h: "list_all hashable (tr_announced t')"
    and a: "tr_announced t' = tr_announced t @ call_ids ''TOOL_CALL_START'' [e]"
    and r: "set (tr_answered t') = set (tr_answered t) \<union> set (call_ids ''TOOL_CALL_RESULT'' [e])"
    by blast
  have pl: "list_all plain_event es" using Cons.prems(1) by simp
  have h0: "list_all hashable (tr_announced (fst (t', c')))" using h by simp
  note IH = Cons.IH [OF pl h0]
  have head: "track_events k th (e # xs) (t, c) = track_events k th xs (t', c')" for xs
    by (simp add: s)
  show ?case
    using IH unfolding append_Cons st head fst_conv a r call_ids_Cons [of _ e es] append_assoc set_append
      Un_assoc .
qed

lemma unfinished_asks:
  assumes "\<forall>e \<in> set es. dget e ''type'' \<noteq> JStr ''RUN_FINISHED''"
  shows "c_asks (snd (track_events k th es (t, c))) = c_asks c"
  using assms
proof (induction es arbitrary: t c)
  case Nil
  then show ?case by simp
next
  case (Cons e es)
  then have "c_asks (snd st) = c_asks c" if "on_caller_event k th e (t, c) = Inr st" for st
    using that by (auto simp: on_caller_event_def Let_def split: if_splits option.splits)
  with Cons show ?case by (auto split: sum.splits)
qed

text \<open>C33. What the caller is told it must answer is exactly what the finished run is waiting on: the
  tool calls it announced and nobody answered, and the interrupts its outcome names, each by its
  tool call id where it has one; each once, if no call was announced twice. A stream that was cut
  off before the run finished leaves nothing to answer.\<close>

theorem outstanding_asks_exact:
  "(list_all plain_event (es @ [fin]) \<and> dget fin ''type'' = JStr ''RUN_FINISHED'' \<and>
      interrupts_of fin = JList (map JObj is) \<longrightarrow>
      set (c_asks (run_events th (es @ [fin]) c)) =
        (set (call_ids ''TOOL_CALL_START'' es) - set (call_ids ''TOOL_CALL_RESULT'' es)) \<union>
        {x \<in> ask_of ` set is. truthy x} \<and>
      (distinct (call_ids ''TOOL_CALL_START'' es) \<longrightarrow> distinct (c_asks (run_events th (es @ [fin]) c)))) \<and>
   ((\<forall>e \<in> set es. dget e ''type'' \<noteq> JStr ''RUN_FINISHED'') \<longrightarrow> c_asks (run_events th es c) = [])"
proof (intro conjI impI)
  assume "\<forall>e \<in> set es. dget e ''type'' \<noteq> JStr ''RUN_FINISHED''"
  then show "c_asks (run_events th es c) = []"
    by (simp add: run_events_def start_tracking_def unfinished_asks)
next
  let ?k = "continues_lineage th c" and ?st = "start_tracking th c"
  assume a: "list_all plain_event (es @ [fin]) \<and> dget fin ''type'' = JStr ''RUN_FINISHED'' \<and>
    interrupts_of fin = JList (map JObj is)"
  obtain t u where tu: "track_events ?k th es ?st = (t, u)" by fastforce
  have pl: "list_all plain_event es" using a by simp
  have st0: "tr_announced (fst ?st) = []" "tr_answered (fst ?st) = []" by (simp_all add: start_tracking_def)
  have h0: "list_all hashable (tr_announced (fst ?st))" by (simp add: st0)
  have all: "track_events ?k th (es @ [fin]) ?st = track_events ?k th [fin] (t, u) \<and>
    list_all hashable (tr_announced t) \<and> tr_announced t = [] @ call_ids ''TOOL_CALL_START'' es \<and>
    set (tr_answered t) = set [] \<union> set (call_ids ''TOOL_CALL_RESULT'' es)"
    using track_append [OF pl h0, of ?k th "[fin]"] unfolding tu st0 fst_conv .
  then have tr: "track_events ?k th (es @ [fin]) ?st = track_events ?k th [fin] (t, u)"
    "list_all hashable (tr_announced t)" "tr_announced t = call_ids ''TOOL_CALL_START'' es"
    "set (tr_answered t) = set (call_ids ''TOOL_CALL_RESULT'' es)"
    by (blast, blast, simp only: append_Nil, simp only: list.set Un_empty_left)
  obtain out where out: "finish_asks t fin = Inr out"
    "set out = set (open_calls t) \<union> {x \<in> ask_of ` set is. truthy x}"
    "distinct (tr_announced t) \<longrightarrow> distinct out"
    using finish_asks_plain [OF tr(2)] a by blast
  have "c_asks (run_events th (es @ [fin]) c) = out"
    unfolding run_events_def tr(1) using a out(1) by (simp add: on_caller_event_def)
  moreover have "set (open_calls t) = set (call_ids ''TOOL_CALL_START'' es) - set (call_ids ''TOOL_CALL_RESULT'' es)"
    using tr(3,4) by (auto simp: open_calls_def)
  ultimately show "set (c_asks (run_events th (es @ [fin]) c)) =
        (set (call_ids ''TOOL_CALL_START'' es) - set (call_ids ''TOOL_CALL_RESULT'' es)) \<union>
        {x \<in> ask_of ` set is. truthy x}"
    and "distinct (call_ids ''TOOL_CALL_START'' es) \<Longrightarrow> distinct (c_asks (run_events th (es @ [fin]) c))"
    using out(2,3) tr(3) by simp_all
qed

definition new_caller :: caller where
  "new_caller = \<lparr>c_thread = JNull, c_run = JNull, c_task = JNull, c_asks = []\<rparr>"

definition asking_run :: "obj list" where
  "asking_run =
     [[(''type'', JStr ''RUN_STARTED''), (''threadId'', JStr ''t1''), (''runId'', JStr ''r1'')],
      [(''type'', JStr ''TOOL_CALL_START''), (''toolCallId'', JStr ''a'')],
      [(''type'', JStr ''TOOL_CALL_START''), (''toolCallId'', JStr ''b'')],
      [(''type'', JStr ''TOOL_CALL_RESULT''), (''toolCallId'', JStr ''a'')]]"

definition asking_end :: obj where
  "asking_end =
     [(''type'', JStr ''RUN_FINISHED''),
      (''outcome'', JObj [(''type'', JStr ''interrupt''),
         (''interrupts'', JList (map JObj [[(''id'', JStr ''i1'')], [(''id'', JStr ''i2''), (''toolCallId'', JStr ''b'')]]))])]"

theorem outstanding_asks_exact_witness:
  "set (c_asks (run_events (JStr ''t1'') (asking_run @ [asking_end]) new_caller)) = {JStr ''b'', JStr ''i1''}"
proof -
  let ?is = "[[(''id'', JStr ''i1'')], [(''id'', JStr ''i2''), (''toolCallId'', JStr ''b'')]]"
  have ints: "interrupts_of asking_end = JList (map JObj ?is)" by code_simp
  have "plain_event asking_end"
    unfolding plain_event_def
  proof (intro conjI impI)
    show "\<exists>is. interrupts_of asking_end = JList (map JObj is)" by (rule exI) (rule ints)
  qed (simp add: asking_end_def)
  moreover have "list_all plain_event asking_run" by (simp add: asking_run_def plain_event_def)
  ultimately have pre: "list_all plain_event (asking_run @ [asking_end]) \<and>
      dget asking_end ''type'' = JStr ''RUN_FINISHED'' \<and> interrupts_of asking_end = JList (map JObj ?is)"
    using ints by (simp add: asking_end_def)
  have ids: "set (call_ids ''TOOL_CALL_START'' asking_run) - set (call_ids ''TOOL_CALL_RESULT'' asking_run) = {JStr ''b''}"
    by (simp add: asking_run_def insert_Diff_if)
  have asks: "{x \<in> ask_of ` set ?is. truthy x} = {JStr ''i1'', JStr ''b''}"
    by (auto simp: ask_of_def py_or_def)
  show ?thesis
    using conjunct1 [OF outstanding_asks_exact [of asking_run asking_end ?is "JStr ''t1''" new_caller]] pre
    unfolding ids asks by auto
qed

section \<open>The lineage\<close>

text \<open>Runs on the client's last thread, each made while the one before left asks open.\<close>

fun answering :: "obj list list \<Rightarrow> caller \<Rightarrow> bool" where
  "answering [] c = True"
| "answering (evs # rest) c = (c_asks c \<noteq> [] \<and> answering rest (run_events (c_thread c) evs c))"

fun answer_runs :: "obj list list \<Rightarrow> caller \<Rightarrow> caller" where
  "answer_runs [] c = c"
| "answer_runs (evs # rest) c = answer_runs rest (run_events (c_thread c) evs c)"

lemma track_task: "c_task (snd (track_events True th evs (t, c))) = c_task c"
proof (induction evs arbitrary: t c)
  case Nil
  then show ?case by simp
next
  case (Cons e es)
  have "c_task (snd st) = c_task c" if "on_caller_event True th e (t, c) = Inr st" for st
    using that by (auto simp: on_caller_event_def Let_def split: if_splits option.splits sum.splits)
  with Cons show ?case by (auto split: sum.splits)
qed

text \<open>The task id a resolution is signed over stays the lineage's root: a run that starts a
  lineage sets it to the run it opened, and however many runs then answer open asks on the same
  thread, each leaving asks open for the next, it is still the first one's id.\<close>

theorem lineage_root_kept:
  assumes "\<not> continues_lineage th c" and "dget start ''type'' = JStr ''RUN_STARTED''"
    and "\<forall>e \<in> set evs. dget e ''type'' \<noteq> JStr ''RUN_STARTED''"
    and "answering runs (run_events th (start # evs) c)"
  shows "c_task (answer_runs runs (run_events th (start # evs) c)) = dget start ''runId''"
proof -
  have keep: "c_task (snd (track_events False th es (t, u))) = c_task u"
    if "\<forall>e \<in> set es. dget e ''type'' \<noteq> JStr ''RUN_STARTED''" for es t u
    using that
  proof (induction es arbitrary: t u)
    case Nil
    then show ?case by simp
  next
    case (Cons e es)
    then have "c_task (snd st) = c_task u" if "on_caller_event False th e (t, u) = Inr st" for st
      using that by (auto simp: on_caller_event_def Let_def split: if_splits option.splits sum.splits)
    with Cons show ?case by (auto split: sum.splits)
  qed
  have root: "c_task (run_events th (start # evs) c) = dget start ''runId''"
    using assms(1,2) keep [OF assms(3)]
    by (simp add: run_events_def start_tracking_def on_caller_event_def Let_def)
  have "answering runs u \<Longrightarrow> c_task (answer_runs runs u) = c_task u" for u
  proof (induction runs arbitrary: u)
    case Nil
    then show ?case by simp
  next
    case (Cons evs runs)
    from Cons.prems have "continues_lineage (c_thread u) u" by (simp add: continues_lineage_def)
    then have "c_task (run_events (c_thread u) evs u) = c_task u"
      by (simp add: run_events_def start_tracking_def track_task)
    with Cons show ?case by simp
  qed
  with assms(4) root show ?thesis by simp
qed

theorem lineage_root_kept_witness:
  "c_task (answer_runs
     [[[(''type'', JStr ''RUN_STARTED''), (''threadId'', JStr ''t1''), (''runId'', JStr ''r2'')]]]
     (run_events (JStr ''t1'') (hd asking_run # tl asking_run @ [asking_end]) new_caller)) = JStr ''r1''"
proof -
  have s: "dget (hd asking_run) ''runId'' = JStr ''r1''" "dget (hd asking_run) ''type'' = JStr ''RUN_STARTED''"
    "\<forall>e \<in> set (tl asking_run @ [asking_end]). dget e ''type'' \<noteq> JStr ''RUN_STARTED''"
    by (simp_all add: asking_run_def asking_end_def)
  have c: "\<not> continues_lineage (JStr ''t1'') new_caller" by (simp add: continues_lineage_def new_caller_def)
  have a: "answering [[[(''type'', JStr ''RUN_STARTED''), (''threadId'', JStr ''t1''), (''runId'', JStr ''r2'')]]]
     (run_events (JStr ''t1'') (hd asking_run # tl asking_run @ [asking_end]) new_caller)"
    by code_simp
  show ?thesis using lineage_root_kept [OF c s(2,3) a] s(1) by simp
qed

end
