(* ===== verification/Pydantic_Agent.thy ===== *)
theory Pydantic_Agent
  imports Caller_Client
begin

text \<open>
  \<open>providers/pydantic-ai-agent/pydantic_ai_agent/\<close>: the thread history merged into a run's input
  (\<open>history.py\<close>), and a sub-agent's name turned into its address (\<open>resolve.py\<close>).
\<close>

section \<open>The thread's history\<close>

text \<open>The ids souk's messages carry, and the caller's messages souk's answer does not hold.\<close>

definition seen_ids :: "obj list \<Rightarrow> json set" where
  "seen_ids history = {i \<in> set (map (\<lambda>m. dget m ''id'') history). truthy i}"

definition unstored :: "obj list \<Rightarrow> obj list \<Rightarrow> obj list" where
  "unstored history messages = filter (\<lambda>m. dget m ''id'' \<notin> seen_ids history) messages"

text \<open>
  \<open>with_thread_history\<close>: the answer is \<open>None\<close> for a failed query. The input's messages are given
  beside the rest of it, and are the new ones in the result.
\<close>

definition with_thread_history ::
  "json \<Rightarrow> bool \<Rightarrow> int option \<Rightarrow> obj list option \<Rightarrow> obj list \<Rightarrow> obj list" where
  "with_thread_history thread_id linked limit answer messages =
     (if limit \<in> {None, Some 0} \<or> \<not> truthy thread_id \<or> \<not> linked then messages
      else (case answer of
              None \<Rightarrow> messages
            | Some history \<Rightarrow> if history = [] then messages else history @ unstored history messages))"

lemma unstored_all_new:
  "\<forall>m \<in> set messages. dget m ''id'' \<notin> seen_ids history \<Longrightarrow> unstored history messages = messages"
  by (simp add: unstored_def filter_id_conv)

lemma unstored_none:
  "\<forall>m \<in> set messages. dget m ''id'' \<in> seen_ids history \<Longrightarrow> unstored history messages = []"
  by (simp add: unstored_def filter_empty_conv)

text \<open>The ids of a list of messages souk minted them for.\<close>

definition minted :: "obj list \<Rightarrow> bool" where
  "minted ms \<longleftrightarrow> distinct (map (\<lambda>m. dget m ''id'') ms) \<and> (\<forall>m \<in> set ms. truthy (dget m ''id''))"

text \<open>The merge keeps every message, each once.\<close>

lemma merge_once:
  assumes "minted history" and "minted messages"
  shows "minted (history @ unstored history messages) \<and>
    (\<lambda>m. dget m ''id'') ` set (history @ unstored history messages) =
      (\<lambda>m. dget m ''id'') ` set history \<union> (\<lambda>m. dget m ''id'') ` set messages"
proof -
  have seen: "seen_ids history = (\<lambda>m. dget m ''id'') ` set history"
    using assms(1) by (auto simp: minted_def seen_ids_def)
  have "distinct (map (\<lambda>m. dget m ''id'') (unstored history messages))"
    using assms(2) by (simp add: minted_def unstored_def distinct_map_filter)
  then show ?thesis
    using assms by (auto simp: minted_def seen unstored_def) (metis imageI)
qed

text \<open>C38. The history merge shows the agent every message, of the thread's answer and of the caller's
  input, exactly once, and without an answer it leaves the caller's own input alone. Its order,
  though, is the conversation's only when the answer reaches back as far as the caller's input:
  when the caller resent its whole history and the limit cut souk's answer to the recent part, the
  older messages come after the newer ones.\<close>

theorem history_merge:
  assumes "minted (older @ recent)" and "recent \<noteq> []" and "truthy thread_id" and "limit \<notin> {None, Some 0}"
    and "minted h" and "minted ms"
  shows "minted (with_thread_history thread_id True limit (Some h) ms) \<and>
    (\<lambda>m. dget m ''id'') ` set (with_thread_history thread_id True limit (Some h) ms) =
      (\<lambda>m. dget m ''id'') ` set h \<union> (\<lambda>m. dget m ''id'') ` set ms \<and>
    with_thread_history thread_id True limit (Some (older @ recent)) recent = older @ recent \<and>
    with_thread_history thread_id True limit (Some older) (older @ recent) = older @ recent \<and>
    with_thread_history thread_id True limit None recent = recent \<and>
    with_thread_history thread_id True limit (Some recent) (older @ recent) = recent @ older"
proof -
  have sep: "dget m ''id'' \<notin> seen_ids older" if "m \<in> set recent" for m
    using assms(1) that by (auto simp: minted_def seen_ids_def)
  have sep': "dget m ''id'' \<notin> seen_ids recent" if "m \<in> set older" for m
    using assms(1) that by (auto simp: minted_def seen_ids_def)
  have own: "dget m ''id'' \<in> seen_ids ms" if "m \<in> set ms" "set ms \<subseteq> set (older @ recent)" for m ms
    using assms(1) that by (auto simp: minted_def seen_ids_def)
  have active: "with_thread_history thread_id True limit (Some h) ms = (if h = [] then ms else h @ unstored h ms)"
    "with_thread_history thread_id True limit None ms = ms" for h ms
    using assms(3,4) by (auto simp: with_thread_history_def)
  have unstored_nil: "unstored [] ms = ms" for ms by (simp add: unstored_def seen_ids_def)
  have app: "unstored h (xs @ ys) = unstored h xs @ unstored h ys" for h xs ys
    by (simp add: unstored_def)
  have "unstored (older @ recent) recent = []" by (rule unstored_none) (auto intro: own)
  moreover have "unstored older (older @ recent) = recent"
    using unstored_none [of older older] unstored_all_new [of recent older] own [of _ older] sep
    by (simp add: app)
  moreover have "unstored recent (older @ recent) = older"
    using unstored_none [of recent recent] unstored_all_new [of older recent] own [of _ recent] sep'
    by (simp add: app)
  ultimately show ?thesis
    using assms(2,6) merge_once [OF assms(5,6)]
    by (cases "older = []"; cases "h = []") (simp_all add: active unstored_nil)
qed

definition sample_turns :: "obj list" where
  "sample_turns = map (\<lambda>i. [(''id'', JStr i), (''content'', JStr (''turn '' @ i))]) [''m1'', ''m2'', ''m3'']"

theorem history_merge_witness:
  "with_thread_history (JStr ''t'') True (Some 1) (Some (drop 2 sample_turns)) sample_turns =
     drop 2 sample_turns @ take 2 sample_turns"
proof -
  have "minted (take 2 sample_turns @ drop 2 sample_turns)" by (simp add: minted_def sample_turns_def)
  moreover have "drop 2 sample_turns \<noteq> []" by (simp add: sample_turns_def)
  ultimately show ?thesis
    using history_merge [of "take 2 sample_turns" "drop 2 sample_turns" "JStr ''t''" "Some 1" "[]" "[]"]
    by (simp add: minted_def)
qed

section \<open>A sub-agent's address\<close>

record sub_agent =
  sb_name :: string
  sb_agent :: string
  sb_provider :: string
  sb_url :: string

record address =
  ad_url :: string
  ad_provider :: "json option"
  ad_provider_key :: "json option"
  ad_agent_name :: "json option"

text \<open>\<open>s.split("/")\<close>.\<close>

fun split_slash :: "string \<Rightarrow> string \<Rightarrow> string list" where
  "split_slash acc [] = [rev acc]"
| "split_slash acc (c # s) = (if c = CHR ''/'' then rev acc # split_slash [] s else split_slash (c # acc) s)"

definition address_from_url :: "string \<Rightarrow> address" where
  "address_from_url url =
     (case rev (split_slash [] (rstrip_slash url)) of
        tail # name # provider # marker # rest \<Rightarrow>
          if tail = ''rpc'' \<and> marker = ''a2a''
          then \<lparr>ad_url = url, ad_provider = Some (JStr provider), ad_provider_key = None,
                ad_agent_name = Some (JStr name)\<rparr>
          else \<lparr>ad_url = url, ad_provider = None, ad_provider_key = None, ad_agent_name = None\<rparr>
      | _ \<Rightarrow> \<lparr>ad_url = url, ad_provider = None, ad_provider_key = None, ad_agent_name = None\<rparr>)"

definition wanted_row :: "string \<Rightarrow> string \<Rightarrow> listed_agent \<Rightarrow> bool" where
  "wanted_row name provider row \<longleftrightarrow>
     la_name row = JStr name \<and> (provider = [] \<or> JStr provider \<in> {la_provider_key row, la_provider row})"

definition row_address :: "string \<Rightarrow> listed_agent \<Rightarrow> address" where
  "row_address base row =
     \<lparr>ad_url = base @ ''/a2a/'' @ py_str (la_provider row) @ ''/'' @ py_str (la_name row) @ ''/rpc'',
      ad_provider = Some (la_provider row), ad_provider_key = Some (la_provider_key row),
      ad_agent_name = Some (la_name row)\<rparr>"

datatype unresolvable = NobodyListed string | SeveralOffer string "listed_agent list"

definition resolve_address :: "sub_agent \<Rightarrow> string \<Rightarrow> listed_agent list \<Rightarrow> unresolvable + address" where
  "resolve_address sub souk_http_url roster =
     (if sb_url sub \<noteq> [] then Inr (address_from_url (sb_url sub))
      else (let name = (if sb_agent sub \<noteq> [] then sb_agent sub else sb_name sub);
                base = rstrip_slash souk_http_url in
            case filter (wanted_row name (sb_provider sub)) roster of
              [] \<Rightarrow> Inl (NobodyListed name)
            | [row] \<Rightarrow> Inr (row_address base row)
            | candidates \<Rightarrow> Inl (SeveralOffer name candidates)))"

text \<open>\<open>ResolvedAddress.get\<close>: an address is kept, a failure is not.\<close>

definition resolved_get ::
  "sub_agent \<Rightarrow> string \<Rightarrow> listed_agent list \<Rightarrow> address option \<Rightarrow> (unresolvable + address) \<times> address option" where
  "resolved_get sub souk_http_url roster cached =
     (case cached of
        Some a \<Rightarrow> (Inr a, cached)
      | None \<Rightarrow> (case resolve_address sub souk_http_url roster of
                   Inl e \<Rightarrow> (Inl e, None) | Inr a \<Rightarrow> (Inr a, Some a)))"

definition chosen_provider :: "string \<Rightarrow> string option" where
  "chosen_provider p = (if p = [] then None else Some p)"

lemma wanted_row_wanted: "wanted_row name p = wanted name (chosen_provider p)"
  by (rule ext) (auto simp: wanted_row_def wanted_def chosen_provider_def)

text \<open>The provider's own resolver and the caller SDK's agree: a configured sub-agent without an
  explicit URL gets the address of exactly the roster entry the SDK would resolve its name to, it
  is unresolvable exactly when the SDK finds no entry or several, over the same candidates, and
  once found the address is kept whatever the roster becomes.\<close>

theorem resolvers_agree:
  assumes "sb_url sub = []" and "name = (if sb_agent sub \<noteq> [] then sb_agent sub else sb_name sub)"
  shows "resolve_address sub base roster =
      (case resolve name (chosen_provider (sb_provider sub)) roster of
         Inr a \<Rightarrow> Inr (row_address (rstrip_slash base) a)
       | Inl (NotListed m) \<Rightarrow> Inl (NobodyListed name)
       | Inl (AmbiguousAgentName n cs) \<Rightarrow> Inl (SeveralOffer n cs)) \<and>
    (\<forall>a c. resolved_get sub base roster None = (Inr a, c) \<longrightarrow>
       (\<forall>roster'. resolved_get sub base roster' c = (Inr a, c)))"
proof
  let ?f = "filter (wanted name (chosen_provider (sb_provider sub))) roster"
  have addr: "resolve_address sub base roster =
      (case ?f of [] \<Rightarrow> Inl (NobodyListed name) | [row] \<Rightarrow> Inr (row_address (rstrip_slash base) row)
       | candidates \<Rightarrow> Inl (SeveralOffer name candidates))"
    unfolding resolve_address_def Let_def wanted_row_wanted assms(2) [symmetric] using assms(1) by simp
  consider "?f = []" | (one) a where "?f = [a]" | (two) a b cs where "?f = a # b # cs"
    by (cases ?f rule: remdups_adj.cases) auto
  then show "resolve_address sub base roster =
      (case resolve name (chosen_provider (sb_provider sub)) roster of
         Inr a \<Rightarrow> Inr (row_address (rstrip_slash base) a)
       | Inl (NotListed m) \<Rightarrow> Inl (NobodyListed name)
       | Inl (AmbiguousAgentName n cs) \<Rightarrow> Inl (SeveralOffer n cs))"
    by cases (simp_all only: addr resolve_def list.case sum.case resolve_error.case)
  show "\<forall>a c. resolved_get sub base roster None = (Inr a, c) \<longrightarrow>
      (\<forall>roster'. resolved_get sub base roster' c = (Inr a, c))"
    by (auto simp: resolved_get_def split: sum.splits)
qed

definition sample_sub :: sub_agent where
  "sample_sub = \<lparr>sb_name = ''translator'', sb_agent = [], sb_provider = ''yusuf'', sb_url = []\<rparr>"

theorem resolvers_agree_witness:
  "\<exists>a. resolve_address sample_sub ''https://souk/'' two_stalls = Inr a \<and>
     ad_url a = ''https://souk/a2a/yusuf/translator/rpc''"
proof -
  have r: "resolve ''translator'' (chosen_provider (sb_provider sample_sub)) two_stalls = Inr (two_stalls ! 1)"
    by (simp add: resolve_def two_stalls_def wanted_def sample_sub_def chosen_provider_def)
  have u: "ad_url (row_address (rstrip_slash ''https://souk/'') (two_stalls ! 1)) = ''https://souk/a2a/yusuf/translator/rpc''"
    by (simp add: row_address_def rstrip_slash_def two_stalls_def py_str_def)
  have url: "sb_url sample_sub = []"
    and name: "''translator'' = (if sb_agent sample_sub \<noteq> [] then sb_agent sample_sub else sb_name sample_sub)"
    by (simp_all add: sample_sub_def)
  have "resolve_address sample_sub ''https://souk/'' two_stalls =
      Inr (row_address (rstrip_slash ''https://souk/'') (two_stalls ! 1))"
    using conjunct1 [OF resolvers_agree [OF url name, of "''https://souk/''" two_stalls]]
    unfolding r by (simp only: sum.case)
  with u show ?thesis by blast
qed

end
