(* ===== verification/Delegation.thy ===== *)
theory Delegation
  imports Pydantic_Agent
begin

text \<open>
  \<open>providers/pydantic-ai-agent/pydantic_ai_agent/\<close>, the tools and the model of a run: what the
  delegation tool makes of a sub-agent's stream (\<open>sub_agent_tool.py\<close>), the list of the
  market (\<open>souk_tools.py\<close>), and which model a run is given (\<open>main.py\<close>).
\<close>

section \<open>A delegated call\<close>

text \<open>What one call accumulates: the text, the two flags, the context ids and the progress events.\<close>

record delegation =
  dl_text :: string
  dl_failed :: bool
  dl_pending :: bool
  dl_contexts :: "string \<rightharpoonup> json"
  dl_progress :: "obj list"

definition maybe :: "json option \<Rightarrow> json" where
  "maybe x = (case x of None \<Rightarrow> JNull | Some j \<Rightarrow> j)"

definition progress_event :: "string \<Rightarrow> address \<Rightarrow> obj \<Rightarrow> obj" where
  "progress_event tool_name a update =
     [(''type'', JStr ''CUSTOM''), (''name'', JStr ''sub_agent_progress''),
      (''value'', JObj (dict_merge
         [(''sub_agent'', JStr tool_name), (''provider'', maybe (ad_provider a)),
          (''provider_key'', maybe (ad_provider_key a)), (''agent_name'', maybe (ad_agent_name a))] update))]"

text \<open>\<open>x.get(...)\<close> needs an object.\<close>

definition as_obj :: "json \<Rightarrow> exn + obj" where
  "as_obj j = (case j of JObj d \<Rightarrow> Inr d | _ \<Rightarrow> Inl (Exn AttributeError ''get''))"

fun parts_text :: "json list \<Rightarrow> exn + string" where
  "parts_text [] = Inr []"
| "parts_text (p # ps) =
     (case as_obj p of
        Inl e \<Rightarrow> Inl e
      | Inr d \<Rightarrow> (case parts_text ps of
                    Inl e \<Rightarrow> Inl e
                  | Inr t \<Rightarrow> Inr ((case dget d ''text'' of JStr s \<Rightarrow> s | _ \<Rightarrow> []) @ t)))"

text \<open>
  One update, in the order the loop reads it: the context id, of the status or else of the artifact,
  is kept before the state and the text are looked at, so it stays when those raise.
\<close>

definition update_context :: "obj \<Rightarrow> exn + json" where
  "update_context update =
     (case as_obj (py_or (dget update ''statusUpdate'') (JObj [])) of
        Inl e \<Rightarrow> Inl e
      | Inr su \<Rightarrow>
          if truthy (dget su ''contextId'') then Inr (dget su ''contextId'')
          else (case as_obj (py_or (dget update ''artifactUpdate'') (JObj [])) of
                  Inl e \<Rightarrow> Inl e | Inr au \<Rightarrow> Inr (dget au ''contextId'')))"

definition update_parts :: "obj \<Rightarrow> exn + string" where
  "update_parts update =
     (case as_obj (py_or (dget update ''artifactUpdate'') (JObj [])) of
        Inl e \<Rightarrow> Inl e
      | Inr au \<Rightarrow>
          (case as_obj (py_or (dget au ''artifact'') (JObj [])) of
             Inl e \<Rightarrow> Inl e
           | Inr art \<Rightarrow> (case dget_or art ''parts'' (JList []) of
                          JList ps \<Rightarrow> parts_text ps
                        | JStr t \<Rightarrow> if t = [] then Inr [] else Inl (Exn AttributeError ''get'')
                        | JObj d \<Rightarrow> if d = [] then Inr [] else Inl (Exn AttributeError ''get'')
                        | _ \<Rightarrow> Inl (Exn TypeError ''not iterable''))))"

definition update_state :: "obj \<Rightarrow> exn + json" where
  "update_state update =
     (case as_obj (py_or (dget update ''statusUpdate'') (JObj [])) of
        Inl e \<Rightarrow> Inl e
      | Inr su \<Rightarrow> (case as_obj (dget_or su ''status'' (JObj [])) of
                     Inl e \<Rightarrow> Inl e | Inr st \<Rightarrow> Inr (dget st ''state'')))"

definition report :: "string \<Rightarrow> address \<Rightarrow> obj \<Rightarrow> delegation \<Rightarrow> delegation" where
  "report tool_name a update s = s\<lparr>dl_progress := dl_progress s @ [progress_event tool_name a update]\<rparr>"

definition keep_context :: "string \<Rightarrow> json \<Rightarrow> delegation \<Rightarrow> delegation" where
  "keep_context tool_name context_id s =
     (if truthy context_id then s\<lparr>dl_contexts := (dl_contexts s)(tool_name \<mapsto> context_id)\<rparr> else s)"

definition on_update :: "string \<Rightarrow> address \<Rightarrow> obj \<Rightarrow> delegation \<Rightarrow> exn option \<times> delegation" where
  "on_update tool_name a update s =
     (let s1 = report tool_name a update s in
      case update_context update of
        Inl e \<Rightarrow> (Some e, s1)
      | Inr context_id \<Rightarrow>
          (let s2 = keep_context tool_name context_id s1 in
           case update_state update of
             Inl e \<Rightarrow> (Some e, s2)
           | Inr state \<Rightarrow>
               (case update_parts update of
                  Inl e \<Rightarrow> (Some e, s2)
                | Inr t \<Rightarrow>
                    (None, s2\<lparr>dl_failed := (dl_failed s2 \<or> state = JStr ''TASK_STATE_FAILED''),
                              dl_pending := (dl_pending s2 \<or> state = JStr ''TASK_STATE_INPUT_REQUIRED''),
                              dl_text := dl_text s2 @ t\<rparr>))))"

fun on_updates :: "string \<Rightarrow> address \<Rightarrow> obj list \<Rightarrow> delegation \<Rightarrow> exn option \<times> delegation" where
  "on_updates tool_name a [] s = (None, s)"
| "on_updates tool_name a (u # us) s =
     (case on_update tool_name a u s of (Some e, t) \<Rightarrow> (Some e, t) | (None, t) \<Rightarrow> on_updates tool_name a us t)"

text \<open>
  The stream of a call: the updates it gives and the exception it raises after the last of them, if it
  raises one, such as an error status or a connection that broke.
\<close>

type_synonym update_stream = "obj list \<times> exn option"

definition read_updates :: "string \<Rightarrow> address \<Rightarrow> update_stream \<Rightarrow> delegation \<Rightarrow> exn option \<times> delegation" where
  "read_updates tool_name a stream s =
     (case on_updates tool_name a (fst stream) s of
        (Some e, t) \<Rightarrow> (Some e, t)
      | (None, t) \<Rightarrow> (snd stream, t))"

definition unavailable :: "string \<Rightarrow> string" where
  "unavailable tool_name =
     ''('' @ tool_name @ '' is currently unavailable '' @ em_dash @ '' the call failed or timed out)''"

definition needs_time :: "string \<Rightarrow> string" where
  "needs_time tool_name =
     ''('' @ tool_name @ '' needs more time to respond '' @ em_dash @ '' e.g. it's waiting on human approval '' @
     em_dash @ '' and hasn't resolved yet; you'll be notified once it does, no need to call it again for this)''"

definition delegation_answer :: "string \<Rightarrow> delegation \<Rightarrow> string" where
  "delegation_answer tool_name s =
     (if dl_failed s then unavailable tool_name
      else if dl_pending s then needs_time tool_name
      else if dl_text s = [] then ''(no response from '' @ tool_name @ '')'' else dl_text s)"

text \<open>
  \<open>call_sub_agent\<close>: an address that cannot be resolved is an answer; the stream of the call is an
  argument, of the address and of the context id kept for this sub-agent.
\<close>

definition call_sub_agent ::
  "string \<Rightarrow> (unresolvable + address) \<Rightarrow> (unresolvable \<Rightarrow> string) \<Rightarrow> (address \<Rightarrow> json option \<Rightarrow> update_stream) \<Rightarrow>
   (string \<rightharpoonup> json) \<Rightarrow> (exn + string) \<times> (string \<rightharpoonup> json) \<times> obj list" where
  "call_sub_agent tool_name resolved explain stream contexts =
     (case resolved of
        Inl e \<Rightarrow> (Inr (''('' @ tool_name @ '' could not be reached: '' @ explain e @ '')''), contexts, [])
      | Inr a \<Rightarrow>
          (case read_updates tool_name a (stream a (contexts tool_name))
                  \<lparr>dl_text = [], dl_failed = False, dl_pending = False, dl_contexts = contexts, dl_progress = []\<rparr> of
             (Some e, s) \<Rightarrow> (Inl e, dl_contexts s, dl_progress s)
           | (None, s) \<Rightarrow> (Inr (delegation_answer tool_name s), dl_contexts s, dl_progress s)))"

section \<open>The market tools\<close>

definition row_field :: "obj \<Rightarrow> string \<Rightarrow> exn + json" where
  "row_field row k = (case map_of row k of None \<Rightarrow> Inl (Exn KeyError (repr_str k)) | Some v \<Rightarrow> Inr v)"

fun fields :: "obj \<Rightarrow> string list \<Rightarrow> exn + json list" where
  "fields row [] = Inr []"
| "fields row (k # ks) =
     (case row_field row k of
        Inl e \<Rightarrow> Inl e
      | Inr v \<Rightarrow> (case fields row ks of Inl e \<Rightarrow> Inl e | Inr vs \<Rightarrow> Inr (v # vs)))"

fun kept_rows :: "obj list \<Rightarrow> exn + obj list" where
  "kept_rows [] = Inr []"
| "kept_rows (r # rs) =
     (case row_field r ''online'' of
        Inl e \<Rightarrow> Inl e
      | Inr online \<Rightarrow> (case kept_rows rs of
                         Inl e \<Rightarrow> Inl e | Inr ks \<Rightarrow> Inr (if truthy online then r # ks else ks)))"

text \<open>One line; the storefront's own name is preferred, and only without one the fingerprint is subscripted.\<close>

definition agent_line :: "obj \<Rightarrow> exn + string" where
  "agent_line row =
     (case fields row [''online'', ''description''] of
        Inl e \<Rightarrow> Inl e
      | Inr vs \<Rightarrow>
          (case fields row (if truthy (dget row ''provider_name'') then [''name'', ''fingerprint'']
                            else [''fingerprint'', ''name'', ''fingerprint'']) of
             Inl e \<Rightarrow> Inl e
           | Inr ws \<Rightarrow>
               Inr (''- '' @ py_str (dget row ''name'') @ '' @ '' @
                    py_str (py_or (dget row ''provider_name'') (dget row ''fingerprint'')) @ '' ('' @
                    (if truthy (hd vs) then ''online'' else ''offline'') @ '', provider='' @
                    py_str (dget row ''fingerprint'') @ ''): '' @
                    py_str (py_or (vs ! 1) (JStr ''(no description)'')))))"

fun agent_lines :: "obj list \<Rightarrow> exn + string list" where
  "agent_lines [] = Inr []"
| "agent_lines (r # rs) =
     (case agent_line r of
        Inl e \<Rightarrow> Inl e | Inr l \<Rightarrow> (case agent_lines rs of Inl e \<Rightarrow> Inl e | Inr ls \<Rightarrow> Inr (l # ls)))"

definition list_souk_agents :: "bool \<Rightarrow> (exn + obj list) \<Rightarrow> string" where
  "list_souk_agents include_offline roster =
     (case (case roster of
              Inl e \<Rightarrow> Inl e
            | Inr rows \<Rightarrow>
                (case (if include_offline then Inr rows else kept_rows rows) of
                   Inl e \<Rightarrow> Inl e
                 | Inr [] \<Rightarrow> Inr ''No agents are currently registered on this souk.''
                 | Inr agents \<Rightarrow> (case agent_lines agents of
                                    Inl e \<Rightarrow> Inl e | Inr ls \<Rightarrow> Inr (join [CHR 0x0A] ls)))) of
        Inl e \<Rightarrow> ''Error listing souk agents: '' @ exn_text e
      | Inr t \<Rightarrow> t)"

text \<open>\<open>get_agent_card\<close>, up to the card it asks for: the url, or the words it answers with.\<close>

definition stall_words :: "listed_agent \<Rightarrow> string" where
  "stall_words a =
     py_str (py_or (la_provider_name a) (JStr ''unnamed'')) @ '' (provider='' @ py_str (la_provider a) @ '')''"

definition card_request :: "string \<Rightarrow> string \<Rightarrow> string \<Rightarrow> listed_agent list \<Rightarrow> string + string" where
  "card_request souk_http_url agent_name provider roster =
     (case filter (wanted_row agent_name provider) roster of
        [] \<Rightarrow> Inl (''Agent '' @ [CHR 0x27] @ agent_name @ [CHR 0x27] @ '' was not found on this souk.'')
      | [found] \<Rightarrow>
          Inr (souk_http_url @ ''/a2a/'' @ py_str (la_provider found) @ ''/'' @ py_str (la_name found) @
               ''/.well-known/agent-card.json'')
      | found \<Rightarrow>
          Inl (''Several stalls offer '' @ [CHR 0x27] @ agent_name @ [CHR 0x27] @ '': '' @
               join '', '' (map stall_words found) @
               ''. Ask again with the provider of the one you meant.''))"

section \<open>The model of a run\<close>

definition remove_prefix :: "string \<Rightarrow> string \<Rightarrow> string" where
  "remove_prefix p s = (if prefix p s then drop (length p) s else s)"

text \<open>\<open>resolve_model\<close>: a string for the library to resolve, or a model at the configured endpoint.\<close>

datatype chosen_model = Named string | AtEndpoint string string string

definition env_get :: "(string \<rightharpoonup> string) \<Rightarrow> string \<Rightarrow> exn + string" where
  "env_get env k = (case env k of None \<Rightarrow> Inl (Exn KeyError (repr_str k)) | Some v \<Rightarrow> Inr v)"

definition model_name_of :: "string \<Rightarrow> string" where
  "model_name_of model = remove_prefix ''custom-openai'' (remove_prefix ''custom-openai:'' model)"

definition resolve_model :: "(string \<rightharpoonup> string) \<Rightarrow> string \<Rightarrow> exn + chosen_model" where
  "resolve_model env model =
     (if model = ''custom-openai'' \<or> prefix ''custom-openai:'' model
      then (case (if model_name_of model \<noteq> [] then Inr (model_name_of model) else env_get env ''LLM_MODEL_NAME'') of
              Inl e \<Rightarrow> Inl e
            | Inr name \<Rightarrow>
                (case env_get env ''LLM_BASE_URL'' of
                   Inl e \<Rightarrow> Inl e
                 | Inr url \<Rightarrow> (case env_get env ''LLM_API_KEY'' of
                                Inl e \<Rightarrow> Inl e | Inr key \<Rightarrow> Inr (AtEndpoint name url key))))
      else Inr (Named model))"

text \<open>\<open>resolve_kyok_model\<close>: the relay's address and the run's token, if the run carries a valid offer.\<close>

definition resolve_kyok_model :: "(json \<Rightarrow> string option) \<Rightarrow> string \<Rightarrow> obj \<Rightarrow> chosen_model option" where
  "resolve_kyok_model token_of souk_http_url run_input =
     (case (case dget run_input ''forwardedProps'' of JObj f \<Rightarrow> dget f ''kyok'' | _ \<Rightarrow> JNull) of
        JNull \<Rightarrow> None
      | raw \<Rightarrow> (case token_of raw of
                  None \<Rightarrow> None
                | Some token \<Rightarrow> Some (AtEndpoint ''kyok'' (rstrip_slash souk_http_url @ ''/kyok/v1'') token)))"

section \<open>What a delegation reports\<close>

definition in_state :: "string \<Rightarrow> obj \<Rightarrow> bool" where
  "in_state name u \<longleftrightarrow> update_state u = Inr (JStr name)"

definition update_text :: "obj \<Rightarrow> string" where
  "update_text u = (case update_parts u of Inl e \<Rightarrow> [] | Inr t \<Rightarrow> t)"

lemma delegation_simps [simp]:
  "dl_progress (report n a u s) = dl_progress s @ [progress_event n a u]"
  "dl_contexts (report n a u s) = dl_contexts s" "dl_failed (report n a u s) = dl_failed s"
  "dl_pending (report n a u s) = dl_pending s" "dl_text (report n a u s) = dl_text s"
  "dl_progress (keep_context n c s) = dl_progress s" "dl_failed (keep_context n c s) = dl_failed s"
  "dl_pending (keep_context n c s) = dl_pending s" "dl_text (keep_context n c s) = dl_text s"
  "dl_contexts (keep_context n c s) = (if truthy c then (dl_contexts s)(n \<mapsto> c) else dl_contexts s)"
  by (simp_all add: report_def keep_context_def)

lemma on_update_reads:
  "on_update n a u s = (None, t) \<Longrightarrow>
     dl_failed t = (dl_failed s \<or> in_state ''TASK_STATE_FAILED'' u) \<and>
     dl_pending t = (dl_pending s \<or> in_state ''TASK_STATE_INPUT_REQUIRED'' u) \<and>
     dl_text t = dl_text s @ update_text u"
  by (auto simp: on_update_def Let_def in_state_def update_text_def split: sum.splits)

lemma on_updates_reads:
  "on_updates n a us s = (None, t) \<Longrightarrow>
     dl_failed t = (dl_failed s \<or> (\<exists>u \<in> set us. in_state ''TASK_STATE_FAILED'' u)) \<and>
     dl_pending t = (dl_pending s \<or> (\<exists>u \<in> set us. in_state ''TASK_STATE_INPUT_REQUIRED'' u)) \<and>
     dl_text t = dl_text s @ concat (map update_text us)"
proof (induction us arbitrary: s)
  case Nil
  then show ?case by simp
next
  case (Cons u us)
  then obtain v where v: "on_update n a u s = (None, v)" "on_updates n a us v = (None, t)"
    by (auto split: prod.splits option.splits)
  with Cons.IH [OF v(2)] on_update_reads [OF v(1)] show ?case by auto
qed

text \<open>What stays whether or not the reading raised: the reports, and this sub-agent's context alone.\<close>

lemma on_update_keeps:
  "on_update n a u s = (x, t) \<Longrightarrow> dl_progress t = dl_progress s @ [progress_event n a u] \<and>
     (\<forall>k. k \<noteq> n \<longrightarrow> dl_contexts t k = dl_contexts s k)"
  by (auto simp: on_update_def Let_def split: sum.splits if_splits)

lemma on_updates_keeps:
  "on_updates n a us s = (x, t) \<Longrightarrow>
     (\<exists>m. dl_progress t = dl_progress s @ map (progress_event n a) (take m us) \<and> (x = None \<longrightarrow> length us \<le> m)) \<and>
     (\<forall>k. k \<noteq> n \<longrightarrow> dl_contexts t k = dl_contexts s k)"
proof (induction us arbitrary: s)
  case Nil
  then show ?case by simp
next
  case (Cons u us)
  obtain y v where v: "on_update n a u s = (y, v)" by fastforce
  show ?case
  proof (cases y)
    case None
    with Cons.prems v have "on_updates n a us v = (x, t)" by simp
    from Cons.IH [OF this] obtain m where "dl_progress t = dl_progress v @ map (progress_event n a) (take m us)"
      "x = None \<longrightarrow> length us \<le> m" "\<forall>k. k \<noteq> n \<longrightarrow> dl_contexts t k = dl_contexts v k"
      by blast
    with on_update_keeps [OF v] show ?thesis by (intro conjI exI [of _ "Suc m"]) auto
  next
    case (Some e)
    with Cons.prems v on_update_keeps [OF v] show ?thesis by (intro conjI exI [of _ 1]) auto
  qed
qed

text \<open>A model whose own name begins with the marker loses that part too.\<close>

lemma marker_stripped_twice:
  "model_name_of (''custom-openai:'' @ ''custom-openai-mini'') = ''-mini''"
  by code_simp

text \<open>A delegation tells the model and the watcher what happened: every update of the sub-agent's
  stream is reported, in order, under the identity of the address that was called, up to the first
  that cannot be read, which ends the call with its exception, as a stream that raises does after its
  updates; otherwise the answer is the failure notice exactly when some update said failed, the waiting notice when none did and
  some said that input is required, and otherwise the sub-agent's own text, all of it in order, or
  the notice that there was none; and no other sub-agent's conversation is touched.\<close>

theorem delegation_honest:
  assumes "call_sub_agent n (Inr a) explain stream contexts = (result, contexts', progress)"
    and "(us, broken) = stream a (contexts n)"
  shows "prefix progress (map (progress_event n a) us) \<and>
    (\<forall>e. broken = Some e \<longrightarrow> (\<exists>e'. result = Inl e')) \<and>
    (\<forall>answer. result = Inr answer \<longrightarrow>
       progress = map (progress_event n a) us \<and>
       answer = (if \<exists>u \<in> set us. in_state ''TASK_STATE_FAILED'' u then unavailable n
                 else if \<exists>u \<in> set us. in_state ''TASK_STATE_INPUT_REQUIRED'' u then needs_time n
                 else if concat (map update_text us) = [] then ''(no response from '' @ n @ '')''
                 else concat (map update_text us))) \<and>
    (\<forall>k. k \<noteq> n \<longrightarrow> contexts' k = contexts k)"
proof -
  obtain x s where s: "on_updates n a us
      \<lparr>dl_text = [], dl_failed = False, dl_pending = False, dl_contexts = contexts, dl_progress = []\<rparr> = (x, s)"
    by fastforce
  have given: "stream a (contexts n) = (us, broken)" using assms(2) by simp
  with s assms(1) have out: "contexts' = dl_contexts s" "progress = dl_progress s"
    and res: "result = (case x of
      Some e \<Rightarrow> Inl e
    | None \<Rightarrow> (case broken of Some e \<Rightarrow> Inl e | None \<Rightarrow> Inr (delegation_answer n s)))"
    by (auto simp: call_sub_agent_def read_updates_def split: option.splits)
  from on_updates_keeps [OF s] obtain m where m: "progress = map (progress_event n a) (take m us)"
    "x = None \<longrightarrow> length us \<le> m" "\<forall>k. k \<noteq> n \<longrightarrow> contexts' k = contexts k"
    by (auto simp: out)
  have "prefix progress (map (progress_event n a) us)"
    unfolding m(1) take_map [symmetric] by (rule take_is_prefix)
  moreover have "x = None \<and> broken = None" if "result = Inr answer" for answer
    using res that by (cases x; cases broken) simp_all
  moreover have "\<exists>e'. result = Inl e'" if "broken = Some e" for e using res that by (cases x) simp_all
  ultimately show ?thesis
    using m res on_updates_reads [of n a us _ s] s by (auto simp: delegation_answer_def)
qed

definition sample_updates :: "obj list" where
  "sample_updates =
     [[(''artifactUpdate'', JObj [(''contextId'', JStr ''ctx1''),
         (''artifact'', JObj [(''parts'', JList [JObj [(''text'', JStr ''half an answer'')]])])])],
      [(''statusUpdate'', JObj [(''status'', JObj [(''state'', JStr ''TASK_STATE_FAILED'')])])]]"

theorem delegation_honest_witness:
  "\<exists>contexts' progress. call_sub_agent ''scribe'' (Inr (row_address ''https://souk'' (two_stalls ! 1))) (\<lambda>e. [])
     (\<lambda>a c. (sample_updates, None)) Map.empty = (Inr (unavailable ''scribe''), contexts', progress) \<and> length progress = 2"
proof -
  let ?a = "row_address ''https://souk'' (two_stalls ! 1)"
  have "\<exists>s. on_updates ''scribe'' ?a sample_updates
      \<lparr>dl_text = [], dl_failed = False, dl_pending = False, dl_contexts = Map.empty, dl_progress = []\<rparr> = (None, s)"
    by (simp add: sample_updates_def on_update_def update_context_def update_state_def update_parts_def as_obj_def
        py_or_def Let_def)
  then obtain answer contexts' progress where call: "call_sub_agent ''scribe'' (Inr ?a) (\<lambda>e. [])
      (\<lambda>a c. (sample_updates, None)) Map.empty = (Inr answer, contexts', progress)"
    by (auto simp: call_sub_agent_def read_updates_def)
  have "\<exists>u \<in> set sample_updates. in_state ''TASK_STATE_FAILED'' u"
    by (simp add: sample_updates_def in_state_def update_state_def as_obj_def py_or_def)
  moreover have "length sample_updates = 2" by (simp add: sample_updates_def)
  ultimately show ?thesis
    using delegation_honest [OF call, of sample_updates None] call by auto
qed

end
