(* ===== verification/Agent_Run.thy ===== *)
theory Agent_Run
  imports Delegation
begin

text \<open>
  \<open>providers/pydantic-ai-agent/pydantic_ai_agent/main.py\<close>: a run of a configured agent. The
  conversations it keeps with its sub-agents across runs, the model it is given, and the one stream
  in which its own events and the progress of its delegations reach the caller.
\<close>

section \<open>The conversations with sub-agents\<close>

text \<open>
  \<open>sub_threads\<close>: for each parent thread the dict of context ids, one per tool, that every run of that
  thread shares. The calls are taken one after the other here; \<open>Delegation_Tasks\<close> lets them run at once.
\<close>

type_synonym sub_threads = "json \<Rightarrow> (string \<Rightarrow> json option) option"

definition contexts_of :: "sub_threads \<Rightarrow> json \<Rightarrow> string \<Rightarrow> json option" where
  "contexts_of S thread_id = (case S thread_id of None \<Rightarrow> Map.empty | Some m \<Rightarrow> m)"

record delegated =
  dg_thread :: json
  dg_tool :: string
  dg_resolved :: "unresolvable + address"
  dg_stream :: "address \<Rightarrow> json option \<Rightarrow> update_stream"

definition delegate ::
  "(unresolvable \<Rightarrow> string) \<Rightarrow> delegated \<Rightarrow> sub_threads \<Rightarrow> (exn + string) \<times> sub_threads \<times> obj list" where
  "delegate explain d S =
     (case call_sub_agent (dg_tool d) (dg_resolved d) explain (dg_stream d) (contexts_of S (dg_thread d)) of
        (result, contexts, progress) \<Rightarrow> (result, S(dg_thread d \<mapsto> contexts), progress))"

fun delegations :: "(unresolvable \<Rightarrow> string) \<Rightarrow> delegated list \<Rightarrow> sub_threads \<Rightarrow> sub_threads" where
  "delegations explain [] S = S"
| "delegations explain (d # ds) S = delegations explain ds (fst (snd (delegate explain d S)))"

text \<open>The context ids a stream of updates hands out, as far as it can be read.\<close>

fun given_contexts :: "obj list \<Rightarrow> json list" where
  "given_contexts [] = []"
| "given_contexts (u # us) =
     (case update_context u of
        Inl e \<Rightarrow> []
      | Inr c \<Rightarrow> (if truthy c then [c] else []) @
                 (case (update_state u, update_parts u) of (Inr st, Inr t) \<Rightarrow> given_contexts us | _ \<Rightarrow> []))"

definition call_given :: "delegated \<Rightarrow> sub_threads \<Rightarrow> json list" where
  "call_given d S =
     (case dg_resolved d of
        Inl e \<Rightarrow> []
      | Inr a \<Rightarrow> given_contexts (fst (dg_stream d a (contexts_of S (dg_thread d) (dg_tool d)))))"

text \<open>What the calls for one thread and tool were given, in order.\<close>

fun all_given :: "(unresolvable \<Rightarrow> string) \<Rightarrow> json \<Rightarrow> string \<Rightarrow> delegated list \<Rightarrow> sub_threads \<Rightarrow> json list" where
  "all_given explain t n [] S = []"
| "all_given explain t n (d # ds) S =
     (if dg_thread d = t \<and> dg_tool d = n then call_given d S else []) @
     all_given explain t n ds (fst (snd (delegate explain d S)))"

definition last_given :: "json option \<Rightarrow> json list \<Rightarrow> json option" where
  "last_given before cs = (if cs = [] then before else Some (last cs))"

lemma last_given_append [simp]: "last_given b (xs @ ys) = last_given (last_given b xs) ys"
  by (simp add: last_given_def)

lemma last_given_Nil [simp]: "last_given b [] = b"
  by (simp add: last_given_def)

lemma on_updates_contexts:
  "on_updates n a us s = (x, t) \<Longrightarrow> dl_contexts t n = last_given (dl_contexts s n) (given_contexts us)"
proof (induction us arbitrary: s)
  case Nil
  then show ?case by simp
next
  case (Cons u us)
  show ?case
  proof (cases "on_update n a u s")
    case (Pair y v)
    have v: "dl_contexts v n = last_given (dl_contexts s n)
        (case update_context u of Inl e \<Rightarrow> [] | Inr c \<Rightarrow> if truthy c then [c] else [])"
      using Pair by (auto simp: on_update_def Let_def last_given_def split: sum.splits)
    have y: "y = None \<longleftrightarrow> (\<exists>c st t. update_context u = Inr c \<and> update_state u = Inr st \<and> update_parts u = Inr t)"
      using Pair by (auto simp: on_update_def Let_def split: sum.splits)
    show ?thesis
    proof (cases y)
      case None
      with Cons.prems Pair have "on_updates n a us v = (x, t)" by simp
      from Cons.IH [OF this] v y None show ?thesis by auto
    next
      case (Some e)
      with Cons.prems Pair have "t = v" by simp
      with v y Some show ?thesis by (auto split: sum.splits)
    qed
  qed
qed

lemma delegate_contexts:
  "contexts_of (fst (snd (delegate explain d S))) t n =
     last_given (contexts_of S t n) (if dg_thread d = t \<and> dg_tool d = n then call_given d S else [])"
proof (cases "dg_resolved d")
  case (Inl e)
  then show ?thesis by (simp add: delegate_def call_sub_agent_def contexts_of_def call_given_def)
next
  case (Inr a)
  let ?us = "fst (dg_stream d a (contexts_of S (dg_thread d) (dg_tool d)))"
  obtain x s where s: "on_updates (dg_tool d) a ?us
      \<lparr>dl_text = [], dl_failed = False, dl_pending = False, dl_contexts = contexts_of S (dg_thread d),
       dl_progress = []\<rparr> = (x, s)"
    by fastforce
  have "contexts_of (fst (snd (delegate explain d S))) t n =
      (if dg_thread d = t then dl_contexts s n else contexts_of S t n)"
    using Inr s
    by (auto simp: delegate_def call_sub_agent_def read_updates_def contexts_of_def split: option.splits)
  with on_updates_contexts [OF s] on_updates_keeps [OF s] Inr show ?thesis
    by (auto simp: call_given_def)
qed

text \<open>C40. One conversation with an agent is one conversation with each of its sub-agents: after any
  delegations, of any runs, the context id with which the next call of a tool from a thread
  continues is the last one that the calls of that very tool from that very thread were given, and
  none if they were given none, so neither another thread nor another sub-agent ever gets it.\<close>

theorem conversation_continues:
  "contexts_of (delegations explain ds S) t n =
     last_given (contexts_of S t n) (all_given explain t n ds S)"
proof (induction ds arbitrary: S)
  case Nil
  then show ?case by simp
next
  case (Cons d ds)
  then show ?case by (simp add: delegate_contexts)
qed

section \<open>The model and the card of an agent\<close>

text \<open>\<open>None\<close> is the agent's own model.\<close>

definition run_model :: "bool \<Rightarrow> (json \<Rightarrow> string option) \<Rightarrow> string \<Rightarrow> obj \<Rightarrow> chosen_model option" where
  "run_model use_kyok token_of souk_http_url run_input =
     (if use_kyok then resolve_kyok_model token_of souk_http_url run_input else None)"

definition card_extra :: "obj \<Rightarrow> json list \<Rightarrow> obj" where
  "card_extra extra skills = dict_merge extra (if skills = [] then [] else [(''skills'', JList skills)])"

definition pinned_souk :: "(string \<rightharpoonup> string) \<Rightarrow> string option" where
  "pinned_souk env = (case env ''SOUK_PUBLIC_KEY'' of Some (c # cs) \<Rightarrow> Some (c # cs) | _ \<Rightarrow> None)"

lemma card_extra_skills:
  "skills \<noteq> [] \<Longrightarrow> dget (card_extra extra skills) ''skills'' = JList skills"
  by (simp add: card_extra_def dict_merge_def dget_def update_conv)

section \<open>The merged stream of a run\<close>

text \<open>
  The queue of one run: everything ever put on it and how much the caller's loop has taken, the
  agent's events still to come, whether the agent's task runs, and how the loop ended.
\<close>

datatype queue_item = FromAgent json | FromTool obj | DoneMark

datatype run_end = Finished | Abandoned_run

record run_queue =
  rq_items :: "queue_item list"
  rq_taken :: nat
  rq_left :: "json list"
  rq_running :: bool
  rq_end :: "run_end option"

definition push_item :: "queue_item \<Rightarrow> run_queue \<Rightarrow> run_queue" where
  "push_item item s = s\<lparr>rq_items := rq_items s @ [item]\<rparr>"

text \<open>The agent's task puts its next event, or ends, exhausted, failed or cancelled: the mark is put last.\<close>

definition agent_emits :: "run_queue \<Rightarrow> run_queue" where
  "agent_emits s =
     (case rq_left s of [] \<Rightarrow> s | e # es \<Rightarrow> push_item (FromAgent e) (s\<lparr>rq_left := es\<rparr>))"

definition agent_ends :: "run_queue \<Rightarrow> run_queue" where
  "agent_ends s = push_item DoneMark (s\<lparr>rq_running := False\<rparr>)"

text \<open>The loop takes one item: it yields it, or is done.\<close>

definition take_next :: "run_queue \<Rightarrow> run_queue" where
  "take_next s =
     (let s' = s\<lparr>rq_taken := Suc (rq_taken s)\<rparr> in
      if rq_items s ! rq_taken s = DoneMark then s'\<lparr>rq_end := Some Finished\<rparr> else s')"

inductive run_step :: "run_queue \<Rightarrow> run_queue \<Rightarrow> bool" where
  r_emits: "rq_running s \<Longrightarrow> run_step s (agent_emits s)"
| r_ends: "rq_running s \<Longrightarrow> run_step s (agent_ends s)"
| r_tool: "run_step s (push_item (FromTool p) s)"
| r_takes: "rq_end s = None \<Longrightarrow> rq_taken s < length (rq_items s) \<Longrightarrow> run_step s (take_next s)"
| r_closed: "rq_end s = None \<Longrightarrow> run_step s (s\<lparr>rq_end := Some Abandoned_run\<rparr>)"

definition run_init :: "json list \<Rightarrow> run_queue \<Rightarrow> bool" where
  "run_init events s \<longleftrightarrow>
     s = \<lparr>rq_items = [], rq_taken = 0, rq_left = events, rq_running = True, rq_end = None\<rparr>"

text \<open>What the caller has been given, and the agent's own part of a list of items.\<close>

definition yielded :: "run_queue \<Rightarrow> queue_item list" where
  "yielded s = filter (\<lambda>i. i \<noteq> DoneMark) (take (rq_taken s) (rq_items s))"

fun agent_part :: "queue_item list \<Rightarrow> json list" where
  "agent_part [] = []"
| "agent_part (FromAgent e # is) = e # agent_part is"
| "agent_part (i # is) = agent_part is"

lemma agent_part_append [simp]: "agent_part (xs @ ys) = agent_part xs @ agent_part ys"
  by (induction xs rule: agent_part.induct) simp_all

lemma agent_part_filter [simp]: "agent_part (filter (\<lambda>i. i \<noteq> DoneMark) xs) = agent_part xs"
  by (induction xs rule: agent_part.induct) simp_all

text \<open>What was put before the mark.\<close>

abbreviation shown :: "run_queue \<Rightarrow> queue_item list" where
  "shown s \<equiv> takeWhile (\<lambda>i. i \<noteq> DoneMark) (rq_items s)"

definition run_inv :: "json list \<Rightarrow> run_queue \<Rightarrow> bool" where
  "run_inv events s \<longleftrightarrow>
     agent_part (shown s) @ rq_left s = events \<and> rq_taken s \<le> length (rq_items s) \<and>
     (rq_running s \<longleftrightarrow> DoneMark \<notin> set (rq_items s)) \<and>
     (rq_end s \<noteq> Some Finished \<longrightarrow> DoneMark \<notin> set (take (rq_taken s) (rq_items s))) \<and>
     (rq_end s = Some Finished \<longrightarrow>
        0 < rq_taken s \<and> rq_items s ! (rq_taken s - 1) = DoneMark \<and>
        DoneMark \<notin> set (take (rq_taken s - 1) (rq_items s)))"

lemma takeWhile_mark [simp]:
  "DoneMark \<notin> set xs \<Longrightarrow> takeWhile (\<lambda>i. i \<noteq> DoneMark) xs = xs"
  "DoneMark \<notin> set xs \<Longrightarrow> takeWhile (\<lambda>i. i \<noteq> DoneMark) (xs @ ys) = xs @ takeWhile (\<lambda>i. i \<noteq> DoneMark) ys"
  "DoneMark \<in> set xs \<Longrightarrow> takeWhile (\<lambda>i. i \<noteq> DoneMark) (xs @ ys) = takeWhile (\<lambda>i. i \<noteq> DoneMark) xs"
  by (auto intro: takeWhile_append2 takeWhile_append1)

lemma unmarked_open: "run_inv events s \<Longrightarrow> DoneMark \<notin> set (rq_items s) \<Longrightarrow> rq_end s \<noteq> Some Finished"
  using nth_mem [of "rq_taken s - 1" "rq_items s"] by (fastforce simp: run_inv_def)

lemma run_inv_push:
  assumes "run_inv events s" and "agent_part [item] = []"
  shows "run_inv events (push_item item (s\<lparr>rq_running := rq_running s \<and> item \<noteq> DoneMark\<rparr>))"
proof (cases "DoneMark \<in> set (rq_items s)")
  case True
  with assms show ?thesis by (auto simp: run_inv_def push_item_def nth_append)
next
  case False
  with unmarked_open [OF assms(1)] assms False show ?thesis by (cases item) (auto simp: run_inv_def push_item_def)
qed

lemma run_inv_emits:
  assumes "run_inv events s" and "rq_running s"
  shows "run_inv events (agent_emits s)"
proof (cases "rq_left s")
  case Nil
  with assms show ?thesis by (simp add: agent_emits_def)
next
  case (Cons e es)
  have clean: "DoneMark \<notin> set (rq_items s)" using assms by (simp add: run_inv_def)
  with unmarked_open [OF assms(1)] assms Cons show ?thesis
    by (simp add: run_inv_def agent_emits_def push_item_def)
qed

lemma run_inv_ends: "run_inv events s \<Longrightarrow> run_inv events (agent_ends s)"
  using run_inv_push [of events s DoneMark] by (simp add: agent_ends_def)

lemma run_inv_tool: "run_inv events s \<Longrightarrow> run_inv events (push_item (FromTool p) s)"
  using run_inv_push [of events s "FromTool p"] by simp

lemma run_inv_takes:
  assumes "run_inv events s" and "rq_end s = None" and "rq_taken s < length (rq_items s)"
  shows "run_inv events (take_next s)"
proof -
  have "take (Suc (rq_taken s)) (rq_items s) = take (rq_taken s) (rq_items s) @ [rq_items s ! rq_taken s]"
    using assms(3) by (rule take_Suc_conv_app_nth)
  with assms show ?thesis by (auto simp: run_inv_def take_next_def Let_def)
qed

lemma run_inv_closed: "run_inv events s \<Longrightarrow> rq_end s = None \<Longrightarrow> run_inv events (s\<lparr>rq_end := Some Abandoned_run\<rparr>)"
  by (simp add: run_inv_def)

lemma run_inv_step: "run_inv events s \<Longrightarrow> run_step s t \<Longrightarrow> run_inv events t"
  by (erule run_step.cases)
     (simp_all add: run_inv_emits run_inv_ends run_inv_tool run_inv_takes run_inv_closed)

lemma run_inv_init: "run_init events s \<Longrightarrow> run_inv events s"
  by (simp add: run_init_def run_inv_def)

interpretation mv: machine_invariant "run_init events" run_step "run_inv events" for events
  by unfold_locales (auto intro: run_inv_init run_inv_step)

lemma yielded_finished:
  assumes "run_inv events s" and "rq_end s = Some Finished"
  shows "yielded s = shown s"
proof -
  let ?n = "rq_taken s - 1"
  from assms have n: "?n < length (rq_items s)" "rq_taken s = Suc ?n" "rq_items s ! ?n = DoneMark"
    and b: "DoneMark \<notin> set (take ?n (rq_items s))"
    by (auto simp: run_inv_def)
  define xs rest where "xs = take ?n (rq_items s)" and "rest = drop (Suc ?n) (rq_items s)"
  have "rq_items s = xs @ DoneMark # rest" "DoneMark \<notin> set xs" "rq_taken s = Suc (length xs)"
    using n b id_take_nth_drop [OF n(1)] by (simp_all add: xs_def rest_def)
  then show ?thesis by (auto simp: yielded_def filter_id_conv)
qed

lemma yielded_prefix: "prefix (yielded s) (filter (\<lambda>i. i \<noteq> DoneMark) (rq_items s))"
  unfolding yielded_def by (metis append_take_drop_id filter_append prefixI)

lemma yielded_so_far:
  assumes "run_inv events q" and "rq_end q \<noteq> Some Finished"
  shows "prefix (yielded q) (shown q) \<and> prefix (agent_part (yielded q)) events"
proof -
  have clean: "DoneMark \<notin> set (take (rq_taken q) (rq_items q))" using assms by (simp add: run_inv_def)
  then have "yielded q = take (rq_taken q) (rq_items q)" by (auto simp: yielded_def filter_id_conv)
  moreover have "shown q = take (rq_taken q) (rq_items q) @ takeWhile (\<lambda>i. i \<noteq> DoneMark) (drop (rq_taken q) (rq_items q))"
    using takeWhile_mark(2) [OF clean, of "drop (rq_taken q) (rq_items q)"] by simp
  moreover have "agent_part (shown q) @ rq_left q = events" using assms(1) by (simp add: run_inv_def)
  ultimately show ?thesis by (metis agent_part_append append.assoc prefixI)
qed

lemma yielded_at_end:
  assumes "run_inv events q" and "rq_end q = Some Finished"
  shows "yielded q = shown q \<and> agent_part (yielded q) @ rq_left q = events"
  using yielded_finished [OF assms] assms(1) by (simp add: run_inv_def)

lemma yielded_in_order:
  assumes "run_inv events q"
  shows "prefix (yielded q) (shown q) \<and> prefix (agent_part (yielded q)) events \<and>
    (rq_end q = Some Finished \<longrightarrow> yielded q = shown q \<and> agent_part (yielded q) @ rq_left q = events)"
  using yielded_so_far [OF assms] yielded_at_end [OF assms] by (cases "rq_end q = Some Finished") auto

text \<open>A run's stream is its own events with the progress of its delegations woven in: at any time the
  caller has been given the first of the items put on the queue, in their order, and of the agent's
  own events a prefix; and a stream that ended by itself showed everything that was put before the
  agent's task ended, all the events it made included.\<close>

theorem run_stream_weaves:
  assumes "reach (run_init events) run_step s"
  shows "prefix (yielded s) (filter (\<lambda>i. i \<noteq> DoneMark) (rq_items s)) \<and>
    (rq_end s \<noteq> Some Finished \<longrightarrow> prefix (agent_part (yielded s)) events) \<and>
    (rq_end s = Some Finished \<longrightarrow> yielded s = shown s \<and> agent_part (yielded s) @ rq_left s = events)"
  using yielded_in_order [OF mv.reach_inv [OF assms]] yielded_prefix by blast

section \<open>The stream ends\<close>

text \<open>The caller's loop run on: at most \<open>n\<close> items, each one that is there.\<close>

fun drain :: "nat \<Rightarrow> run_queue \<Rightarrow> run_queue" where
  "drain 0 s = s"
| "drain (Suc n) s =
     (if rq_end s = None \<and> rq_taken s < length (rq_items s) then drain n (take_next s) else s)"

lemma take_next_simps [simp]:
  "rq_items (take_next s) = rq_items s" "rq_taken (take_next s) = Suc (rq_taken s)"
  "rq_running (take_next s) = rq_running s"
  by (simp_all add: take_next_def Let_def)

lemma drain_finishes:
  assumes "run_inv events s" and "\<not> rq_running s" and "rq_end s = None"
    and "length (rq_items s) - rq_taken s \<le> n"
  shows "rq_end (drain n s) = Some Finished \<and> yielded (drain n s) = shown s"
  using assms
proof (induction n arbitrary: s)
  case 0
  then have "take (rq_taken s) (rq_items s) = rq_items s" by simp
  with 0 have False by (simp add: run_inv_def)
  then show ?case ..
next
  case (Suc n)
  have "DoneMark \<in> set (rq_items s)" "DoneMark \<notin> set (take (rq_taken s) (rq_items s))"
    using Suc.prems by (simp_all add: run_inv_def)
  then have more: "rq_taken s < length (rq_items s)" by (metis not_le take_all)
  have inv: "run_inv events (take_next s)" using Suc.prems more by (simp add: run_inv_takes)
  show ?case
  proof (cases "rq_end (take_next s)")
    case None
    have "rq_end (drain n (take_next s)) = Some Finished \<and> yielded (drain n (take_next s)) = shown (take_next s)"
      using Suc.prems inv None by (intro Suc.IH) (simp_all del: take_next_def)
    then show ?thesis using Suc.prems(3) more by simp
  next
    case (Some e)
    then have f: "rq_end (take_next s) = Some Finished"
      using Suc.prems(3) by (auto simp: take_next_def Let_def split: if_splits)
    then have "drain n (take_next s) = take_next s" by (cases n) simp_all
    with f yielded_finished [OF inv f] Suc.prems(3) more show ?thesis by simp
  qed
qed

text \<open>C39. No caller is left hanging: however the agent's task ended, by running out, by an error or by
  being cancelled, the loop of a caller who keeps asking is done after as many items as the queue
  still holds, and has by then shown everything put before the end.\<close>

theorem run_stream_ends:
  assumes "reach (run_init events) run_step s" and "\<not> rq_running s" and "rq_end s = None"
  shows "rq_end (drain (length (rq_items s) - rq_taken s) s) = Some Finished \<and>
    yielded (drain (length (rq_items s) - rq_taken s) s) = shown s"
  using drain_finishes [OF mv.reach_inv [OF assms(1)] assms(2,3)] by simp

section \<open>A sample run\<close>

definition run_at :: "queue_item list \<Rightarrow> nat \<Rightarrow> json list \<Rightarrow> bool \<Rightarrow> run_end option \<Rightarrow> run_queue" where
  "run_at items n left running how =
     \<lparr>rq_items = items, rq_taken = n, rq_left = left, rq_running = running, rq_end = how\<rparr>"

abbreviation woven :: "queue_item list" where
  "woven \<equiv> [FromAgent (JStr ''started''), FromTool [], FromAgent (JStr ''finished''), DoneMark]"

lemma sample_run_reach:
  "reach (run_init [JStr ''started'', JStr ''finished'']) run_step (run_at woven 0 [] False None)"
proof -
  have "reach (run_init [JStr ''started'', JStr ''finished'']) run_step
      (run_at [] 0 [JStr ''started'', JStr ''finished''] True None)"
    by (rule reach_start) (simp add: run_init_def run_at_def)
  moreover have "run_step (run_at [] 0 [JStr ''started'', JStr ''finished''] True None)
      (run_at [FromAgent (JStr ''started'')] 0 [JStr ''finished''] True None)"
    using r_emits [of "run_at [] 0 [JStr ''started'', JStr ''finished''] True None"]
    by (simp add: run_at_def agent_emits_def push_item_def)
  moreover have "run_step (run_at [FromAgent (JStr ''started'')] 0 [JStr ''finished''] True None)
      (run_at [FromAgent (JStr ''started''), FromTool []] 0 [JStr ''finished''] True None)"
    using r_tool [of "run_at [FromAgent (JStr ''started'')] 0 [JStr ''finished''] True None" "[]"]
    by (simp add: run_at_def push_item_def)
  moreover have "run_step (run_at [FromAgent (JStr ''started''), FromTool []] 0 [JStr ''finished''] True None)
      (run_at [FromAgent (JStr ''started''), FromTool [], FromAgent (JStr ''finished'')] 0 [] True None)"
    using r_emits [of "run_at [FromAgent (JStr ''started''), FromTool []] 0 [JStr ''finished''] True None"]
    by (simp add: run_at_def agent_emits_def push_item_def)
  moreover have "run_step (run_at [FromAgent (JStr ''started''), FromTool [], FromAgent (JStr ''finished'')] 0 [] True None)
      (run_at woven 0 [] False None)"
    using r_ends [of "run_at [FromAgent (JStr ''started''), FromTool [], FromAgent (JStr ''finished'')] 0 [] True None"]
    by (simp add: run_at_def agent_ends_def push_item_def)
  ultimately show ?thesis by (meson reach_next)
qed

theorem run_stream_weaves_witness:
  "prefix (yielded (run_at woven 0 [] False None)) (filter (\<lambda>i. i \<noteq> DoneMark) woven)"
  using run_stream_weaves [OF sample_run_reach] by (simp add: run_at_def)

theorem run_stream_ends_witness:
  "rq_end (drain 4 (run_at woven 0 [] False None)) = Some Finished \<and>
   yielded (drain 4 (run_at woven 0 [] False None)) =
     [FromAgent (JStr ''started''), FromTool [], FromAgent (JStr ''finished'')]"
  using run_stream_ends [OF sample_run_reach] by (simp add: run_at_def eval_nat_numeral del: drain.simps)

end
