(* ===== verification/Market_Tools.thy ===== *)
theory Market_Tools
  imports Delegation
begin

text \<open>
  \<open>providers/pydantic-ai-agent/pydantic_ai_agent/souk_tools.py\<close>, the tools a guide agent answers with:
  the text of an agent's card, the counts of the market and the lookup of a guide. Their answers are
  texts in every case; an exception becomes the text of its message.
\<close>

section \<open>Python's own complaints\<close>

fun type_name :: "json \<Rightarrow> string" where
  "type_name JNull = ''NoneType''"
| "type_name (JBool b) = ''bool''"
| "type_name (JInt i) = ''int''"
| "type_name (JFloat f) = ''float''"
| "type_name (JStr s) = ''str''"
| "type_name (JList xs) = ''list''"
| "type_name (JObj d) = ''dict''"

definition quote :: "string \<Rightarrow> string" where
  "quote s = CHR 0x27 # s @ [CHR 0x27]"

definition need_dict :: "json \<Rightarrow> exn + obj" where
  "need_dict j =
     (case j of JObj d \<Rightarrow> Inr d
      | _ \<Rightarrow> Inl (Exn AttributeError (quote (type_name j) @ '' object has no attribute '' @ quote ''get'')))"

text \<open>\<open>", ".join(xs)\<close> names the first item that is no string.\<close>

fun join_texts :: "nat \<Rightarrow> json list \<Rightarrow> exn + string list" where
  "join_texts i [] = Inr []"
| "join_texts i (x # xs) =
     (case x of
        JStr s \<Rightarrow> (case join_texts (Suc i) xs of Inl e \<Rightarrow> Inl e | Inr ss \<Rightarrow> Inr (s # ss))
      | _ \<Rightarrow> Inl (Exn TypeError (''sequence item '' @ nat_text i @ '': expected str instance, '' @ type_name x @ '' found'')))"

definition join_json :: "string \<Rightarrow> json list \<Rightarrow> exn + string" where
  "join_json sep xs = (case join_texts 0 xs of Inl e \<Rightarrow> Inl e | Inr ss \<Rightarrow> Inr (join sep ss))"

section \<open>An agent's card\<close>

fun skill_fields :: "json list \<Rightarrow> exn + json list" where
  "skill_fields [] = Inr []"
| "skill_fields (s # ss) =
     (case need_dict s of
        Inl e \<Rightarrow> Inl e
      | Inr d \<Rightarrow> (case skill_fields ss of
                    Inl e \<Rightarrow> Inl e | Inr ns \<Rightarrow> Inr (dget_or d ''name'' (JStr ''unnamed'') # ns)))"

definition skills_text :: "json \<Rightarrow> exn + string" where
  "skills_text skills =
     (case skills of
        JList (s # ss) \<Rightarrow> (case skill_fields (s # ss) of Inl e \<Rightarrow> Inl e | Inr ns \<Rightarrow> join_json '', '' ns)
      | _ \<Rightarrow> Inr ''None listed'')"

text \<open>The two serializations of the card, flat and indented, are arguments.\<close>

definition card_text :: "(json \<Rightarrow> string) \<Rightarrow> (json \<Rightarrow> string) \<Rightarrow> string \<Rightarrow> json \<Rightarrow> exn + string" where
  "card_text dumps dumps_indented agent_name fetched =
     (case need_dict fetched of
        Inl e \<Rightarrow> Inl e
      | Inr d \<Rightarrow>
          (case skills_text (dget_or d ''skills'' (JList [])) of
             Inl e \<Rightarrow> Inl e
           | Inr skills \<Rightarrow>
               Inr (join [CHR 0x0A]
                 [''### Agent Card: '' @ py_str (dget_or d ''name'' (JStr agent_name)) @ '' (v'' @
                    py_str (dget_or d ''version'' (JStr ''1.0.0'')) @ '')'',
                  ''**Description**: '' @ py_str (dget_or d ''description'' (JStr ''No description provided.'')),
                  ''**Skills**: '' @ skills,
                  ''**Authentication**: '' @ dumps (dget_or d ''authentication'' (JObj [])),
                  ''**Full Card JSON**:'' @ [CHR 0x0A] @ ''```json'' @ [CHR 0x0A] @ dumps_indented fetched @
                    [CHR 0x0A] @ ''```''])))"

definition get_agent_card ::
  "(json \<Rightarrow> string) \<Rightarrow> (json \<Rightarrow> string) \<Rightarrow> string \<Rightarrow> string \<Rightarrow> string \<Rightarrow> (exn + listed_agent list) \<Rightarrow>
   (string \<Rightarrow> exn + json) \<Rightarrow> string" where
  "get_agent_card dumps dumps_indented souk_http_url agent_name provider roster fetch =
     (case (case roster of
              Inl e \<Rightarrow> Inl e
            | Inr rows \<Rightarrow>
                (case card_request souk_http_url agent_name provider rows of
                   Inl words \<Rightarrow> Inr words
                 | Inr url \<Rightarrow> (case fetch url of
                                Inl e \<Rightarrow> Inl e
                              | Inr fetched \<Rightarrow> card_text dumps dumps_indented agent_name fetched))) of
        Inl e \<Rightarrow> ''Error fetching agent card for '' @ quote agent_name @ '': '' @ exn_text e
      | Inr t \<Rightarrow> t)"

section \<open>The counts\<close>

fun online_rows :: "json list \<Rightarrow> exn + obj list" where
  "online_rows [] = Inr []"
| "online_rows (r # rs) =
     (case need_dict r of
        Inl e \<Rightarrow> Inl e
      | Inr d \<Rightarrow> (case online_rows rs of
                    Inl e \<Rightarrow> Inl e
                  | Inr ds \<Rightarrow> Inr (if truthy (dget d ''online'') then d # ds else ds)))"

fun row_names :: "obj list \<Rightarrow> exn + json list" where
  "row_names [] = Inr []"
| "row_names (d # ds) =
     (case row_field d ''name'' of
        Inl e \<Rightarrow> Inl e | Inr n \<Rightarrow> (case row_names ds of Inl e \<Rightarrow> Inl e | Inr ns \<Rightarrow> Inr (n # ns)))"

definition online_names :: "obj list \<Rightarrow> exn + string" where
  "online_names online = (case row_names online of Inl e \<Rightarrow> Inl e | Inr ns \<Rightarrow> join_json '', '' ns)"

definition stats_lines :: "string \<Rightarrow> nat \<Rightarrow> nat \<Rightarrow> string list" where
  "stats_lines souk_http_url listed online =
     [''### Souk Platform Real-time Status'',
      ''- **Gateway Connection**: Connected ('' @ souk_http_url @ '')'',
      ''- **Total Registered Agents**: '' @ nat_text listed,
      ''- **Online Agents**: '' @ nat_text online,
      ''- **Offline Agents**: '' @ nat_text (listed - online)]"

text \<open>The category is the tool's own literal, which is in lower case.\<close>

definition get_souk_stats :: "string \<Rightarrow> string \<Rightarrow> (exn + json list) \<Rightarrow> string" where
  "get_souk_stats souk_http_url category rows =
     (case (case rows of
              Inl e \<Rightarrow> Inl e
            | Inr agents \<Rightarrow>
                (case online_rows agents of
                   Inl e \<Rightarrow> Inl e
                 | Inr online \<Rightarrow>
                     (let lines = stats_lines souk_http_url (length agents) (length online) in
                      if online \<noteq> [] \<and> category \<in> {''all'', ''online''}
                      then (case online_names online of
                              Inl e \<Rightarrow> Inl e
                            | Inr ns \<Rightarrow> Inr (join [CHR 0x0A] (lines @ [''- **Currently Online**: '' @ ns])))
                      else Inr (join [CHR 0x0A] lines)))) of
        Inl e \<Rightarrow> ''Error fetching souk statistics: '' @ exn_text e
      | Inr t \<Rightarrow> t)"

section \<open>Facts\<close>

lemma online_rows_filter:
  "online_rows (map JObj ds) = Inr (filter (\<lambda>d. truthy (dget d ''online'')) ds)"
  by (induction ds) (simp_all add: need_dict_def)

lemma join_texts_strings: "join_texts i (map JStr ss) = Inr ss"
  by (induction ss arbitrary: i) simp_all

lemma row_names_listed:
  "\<forall>d \<in> set ds. map_of d ''name'' = Some (JStr (f d)) \<Longrightarrow> row_names ds = Inr (map JStr (map f ds))"
  by (induction ds) (simp_all add: row_field_def)

text \<open>For well-formed rows the counts are those of the roster and the names those of its online rows.\<close>

lemma stats_of_rows:
  assumes "\<forall>d \<in> set ds. map_of d ''name'' = Some (JStr (f d))"
    and "online = filter (\<lambda>d. truthy (dget d ''online'')) ds" and "online \<noteq> []"
  shows "get_souk_stats url ''all'' (Inr (map JObj ds)) =
    join [CHR 0x0A] (stats_lines url (length ds) (length online) @
      [''- **Currently Online**: '' @ join '', '' (map f online)])"
proof -
  have "row_names online = Inr (map JStr (map f online))"
    using assms(1,2) by (intro row_names_listed) simp
  then have "online_names online = Inr (join '', '' (map f online))"
    by (simp only: online_names_def join_json_def sum.case join_texts_strings)
  then show ?thesis
    using assms(2,3) by (simp add: get_souk_stats_def online_rows_filter Let_def)
qed

text \<open>An ambiguous or unknown name never fetches a card.\<close>

lemma card_of_one_agent:
  assumes "card_request url n p rows = Inl words"
  shows "get_agent_card dumps indented url n p (Inr rows) fetch = words"
  using assms by (simp add: get_agent_card_def)

end
