(* ===== verification/Link_Opening.thy ===== *)
theory Link_Opening
  imports Agent_Client Kyok_Bridge
begin

text \<open>
  How a provider opens its link, start to end: \<open>SoukProvider._run_connection\<close> and
  \<open>KyokBridge._serve_connection\<close> up to their frame loops, and the KYOK request signer of
  \<open>souk_agent_sdk/kyok_auth.py\<close>. The far side is an argument: what it answers to the frames sent so
  far, or the exception its silence or its text raises.
\<close>

section \<open>The provider client\<close>

definition client_opening ::
  "client_env \<Rightarrow> string option \<Rightarrow> string \<Rightarrow> json option \<Rightarrow> obj list \<Rightarrow> obj \<Rightarrow> (obj list \<Rightarrow> exn + obj) \<Rightarrow>
   obj list \<times> exn option" where
  "client_opening E pinned nonce provider_name registrations ticket_answer peer =
     (case read_ticket E pinned ticket_answer of
        Inl e \<Rightarrow> ([], Some e)
      | Inr (ticket, key) \<Rightarrow>
          (let hello = hello_frame E ticket key nonce; reg = register_frame provider_name registrations in
           case peer [hello] of
             Inl e \<Rightarrow> ([hello], Some e)
           | Inr welcome \<Rightarrow>
               (case check_welcome E ticket key nonce welcome of
                  Some e \<Rightarrow> ([hello], Some e)
                | None \<Rightarrow>
                    (case peer [hello, reg] of
                       Inl e \<Rightarrow> ([hello, reg], Some e)
                     | Inr answer \<Rightarrow> ([hello, reg], check_registered answer)))))"

section \<open>The bridge\<close>

definition bridge_opening ::
  "bridge_env \<Rightarrow> string \<Rightarrow> obj \<Rightarrow> (obj list \<Rightarrow> exn + obj) \<Rightarrow> obj list \<times> exn option" where
  "bridge_opening E nonce ticket_answer peer =
     (case bridge_ticket E ticket_answer of
        Inl e \<Rightarrow> ([], Some e)
      | Inr (ticket, key) \<Rightarrow>
          (let hello = bridge_hello E ticket key nonce; reg = register_models E in
           case peer [hello] of
             Inl e \<Rightarrow> ([hello], Some e)
           | Inr welcome \<Rightarrow>
               (case bridge_welcome E ticket key nonce welcome of
                  Some e \<Rightarrow> ([hello], Some e)
                | None \<Rightarrow>
                    (case peer [hello, reg] of
                       Inl e \<Rightarrow> ([hello, reg], Some e)
                     | Inr reply \<Rightarrow> ([hello, reg], bridge_registered E reply)))))"

section \<open>Signing a completion call\<close>

text \<open>
  \<open>auth_flow\<close>: the token is what follows \<open>Bearer\<close>; the payload is the contract package's, of token,
  time and body hash.
\<close>

definition kyok_headers ::
  "(string \<Rightarrow> int \<Rightarrow> string \<Rightarrow> string) \<Rightarrow> (string \<Rightarrow> string) \<Rightarrow> (string \<Rightarrow> string) \<Rightarrow> int \<Rightarrow>
   (string \<times> string) list \<Rightarrow> string \<Rightarrow> (string \<times> string) list" where
  "kyok_headers call_payload sha256hex sign now headers content =
     (let authorization = (case map_of headers ''authorization'' of None \<Rightarrow> [] | Some v \<Rightarrow> v);
          token = (if prefix ''Bearer '' authorization then drop 7 authorization else authorization)
      in [(''X-Souk-Kyok-Timestamp'', int_text now),
          (''X-Souk-Kyok-Signature'', sign (call_payload token now (sha256hex content)))])"

section \<open>Nobody unproven is served\<close>

text \<open>The contract of an attempt to open: what must hold before each frame goes out and before it succeeds.\<close>

locale guarded_opening =
  fixes attempt :: "obj list \<times> exn option" and hello :: "'t \<Rightarrow> 'k \<Rightarrow> obj" and reg :: obj
    and issued :: "'t \<Rightarrow> 'k \<Rightarrow> bool" and proved :: "'t \<Rightarrow> 'k \<Rightarrow> bool" and accepted :: "'t \<Rightarrow> 'k \<Rightarrow> bool"
  assumes stage_cases: "(fst attempt = [] \<and> snd attempt \<noteq> None) \<or>
    (\<exists>t k. issued t k \<and> fst attempt = [hello t k] \<and> snd attempt \<noteq> None) \<or>
    (\<exists>t k. issued t k \<and> proved t k \<and> fst attempt = [hello t k, reg] \<and> (snd attempt = None \<longrightarrow> accepted t k))"
begin

lemma stages:
  "fst attempt \<in> {[]} \<union> {[hello t k] |t k. issued t k} \<union> {[hello t k, reg] |t k. issued t k \<and> proved t k}"
  using stage_cases by blast

lemma opened: "snd attempt = None \<Longrightarrow> \<exists>t k. issued t k \<and> proved t k \<and> accepted t k \<and> fst attempt = [hello t k, reg]"
  using stage_cases by blast

end

definition ticket_issued :: "string option \<Rightarrow> obj \<Rightarrow> string \<Rightarrow> string \<Rightarrow> bool" where
  "ticket_issued pinned data ticket key \<longleftrightarrow>
     dget data ''ticket'' = JStr ticket \<and> ticket \<noteq> [] \<and> dget data ''funduqPublicKey'' = JStr key \<and> key \<noteq> [] \<and>
     (pinned = None \<or> pinned = Some key)"

definition welcome_proves :: "client_env \<Rightarrow> string \<Rightarrow> (obj list \<Rightarrow> exn + obj) \<Rightarrow> string \<Rightarrow> string \<Rightarrow> bool" where
  "welcome_proves E nonce peer ticket key \<longleftrightarrow>
     (\<exists>w answer. peer [hello_frame E ticket key nonce] = Inr w \<and> dget w ''type'' = JStr ''welcome'' \<and>
        dget w ''answer'' = JStr answer \<and> connect_answer_ok E key answer ticket nonce)"

definition registered_by :: "(obj list \<Rightarrow> exn + obj) \<Rightarrow> obj list \<Rightarrow> bool" where
  "registered_by peer sent \<longleftrightarrow> (\<exists>a. peer sent = Inr a \<and> dget a ''type'' = JStr ''registered'')"

lemma read_ticket_issued: "read_ticket E pinned data = Inr (t, k) \<Longrightarrow> ticket_issued pinned data t k"
  by (auto simp: read_ticket_def ticket_issued_def split: json.splits if_splits option.splits)

lemma check_welcome_proves:
  "peer [hello_frame E t k nonce] = Inr w \<Longrightarrow> check_welcome E t k nonce w = None \<Longrightarrow> welcome_proves E nonce peer t k"
  by (auto simp: check_welcome_def welcome_proves_def split: json.splits if_splits)

lemma check_registered_by: "peer sent = Inr a \<Longrightarrow> check_registered a = None \<Longrightarrow> registered_by peer sent"
  by (auto simp: check_registered_def registered_by_def split: if_splits)

interpretation co: guarded_opening "client_opening E pinned nonce provider_name regs data peer"
    "\<lambda>t k. hello_frame E t k nonce" "register_frame provider_name regs" "ticket_issued pinned data"
    "welcome_proves E nonce peer"
    "\<lambda>t k. registered_by peer [hello_frame E t k nonce, register_frame provider_name regs]"
  for E :: client_env and pinned nonce provider_name regs data peer
proof
  let ?o = "client_opening E pinned nonce provider_name regs data peer"
  let ?reg = "register_frame provider_name regs"
  show "(fst ?o = [] \<and> snd ?o \<noteq> None) \<or>
    (\<exists>t k. ticket_issued pinned data t k \<and> fst ?o = [hello_frame E t k nonce] \<and> snd ?o \<noteq> None) \<or>
    (\<exists>t k. ticket_issued pinned data t k \<and> welcome_proves E nonce peer t k \<and>
       fst ?o = [hello_frame E t k nonce, ?reg] \<and>
       (snd ?o = None \<longrightarrow> registered_by peer [hello_frame E t k nonce, ?reg]))"
  proof (cases "read_ticket E pinned data")
    case (Inl e)
    then show ?thesis by (simp add: client_opening_def)
  next
    case (Inr tk)
    obtain t k where tk: "tk = (t, k)" by (cases tk)
    have i: "ticket_issued pinned data t k" using Inr tk by (simp add: read_ticket_issued)
    let ?h = "hello_frame E t k nonce"
    show ?thesis
    proof (cases "\<exists>w. peer [?h] = Inr w \<and> check_welcome E t k nonce w = None")
      case False
      then have "fst ?o = [?h] \<and> snd ?o \<noteq> None"
        using Inr tk by (cases "peer [?h]") (auto simp: client_opening_def Let_def split: option.splits)
      with i show ?thesis by blast
    next
      case True
      then obtain w where w: "peer [?h] = Inr w" "check_welcome E t k nonce w = None" by blast
      have "fst ?o = [?h, ?reg] \<and> (snd ?o = None \<longrightarrow> registered_by peer [?h, ?reg])"
        using Inr tk w check_registered_by [of peer "[?h, ?reg]"]
        by (cases "peer [?h, ?reg]") (simp_all add: client_opening_def Let_def)
      moreover have "welcome_proves E nonce peer t k" using w by (rule check_welcome_proves)
      ultimately show ?thesis using i
        by (intro disjI2 exI [of _ t] exI [of _ k]) blast
    qed
  qed
qed

definition bridge_issued :: "bridge_env \<Rightarrow> obj \<Rightarrow> json \<Rightarrow> json \<Rightarrow> bool" where
  "bridge_issued E data ticket key \<longleftrightarrow>
     map_of data ''ticket'' = Some ticket \<and> map_of data ''funduqPublicKey'' = Some key \<and>
     (b_pinned E = None \<or> (\<exists>p. b_pinned E = Some p \<and> key = JStr p))"

definition bridge_proves :: "bridge_env \<Rightarrow> string \<Rightarrow> (obj list \<Rightarrow> exn + obj) \<Rightarrow> json \<Rightarrow> json \<Rightarrow> bool" where
  "bridge_proves E nonce peer ticket key \<longleftrightarrow>
     (\<exists>w answer. peer [bridge_hello E ticket key nonce] = Inr w \<and> dget w ''type'' = JStr ''welcome'' \<and>
        dget w ''answer'' = JStr answer \<and> b_answer_ok E key answer ticket nonce)"

lemma bridge_ticket_issued: "bridge_ticket E data = Inr (t, k) \<Longrightarrow> bridge_issued E data t k"
  by (auto simp: bridge_ticket_def bridge_issued_def split: option.splits if_splits)

lemma bridge_welcome_proves:
  "peer [bridge_hello E t k nonce] = Inr w \<Longrightarrow> bridge_welcome E t k nonce w = None \<Longrightarrow> bridge_proves E nonce peer t k"
  by (auto simp: bridge_welcome_def bridge_proves_def split: json.splits if_splits)

lemma bridge_registered_by:
  "peer sent = Inr a \<Longrightarrow> bridge_registered E a = None \<Longrightarrow> registered_by peer sent"
  by (auto simp: bridge_registered_def registered_by_def split: if_splits)

interpretation bo: guarded_opening "bridge_opening E nonce data peer" "\<lambda>t k. bridge_hello E t k nonce"
    "register_models E" "bridge_issued E data" "bridge_proves E nonce peer"
    "\<lambda>t k. registered_by peer [bridge_hello E t k nonce, register_models E]"
  for E :: bridge_env and nonce data peer
proof
  let ?o = "bridge_opening E nonce data peer" and ?reg = "register_models E"
  show "(fst ?o = [] \<and> snd ?o \<noteq> None) \<or>
    (\<exists>t k. bridge_issued E data t k \<and> fst ?o = [bridge_hello E t k nonce] \<and> snd ?o \<noteq> None) \<or>
    (\<exists>t k. bridge_issued E data t k \<and> bridge_proves E nonce peer t k \<and>
       fst ?o = [bridge_hello E t k nonce, ?reg] \<and>
       (snd ?o = None \<longrightarrow> registered_by peer [bridge_hello E t k nonce, ?reg]))"
  proof (cases "bridge_ticket E data")
    case (Inl e)
    then show ?thesis by (simp add: bridge_opening_def)
  next
    case (Inr tk)
    obtain t k where tk: "tk = (t, k)" by (cases tk)
    have i: "bridge_issued E data t k" using Inr tk by (simp add: bridge_ticket_issued)
    let ?h = "bridge_hello E t k nonce"
    show ?thesis
    proof (cases "\<exists>w. peer [?h] = Inr w \<and> bridge_welcome E t k nonce w = None")
      case False
      then have "fst ?o = [?h] \<and> snd ?o \<noteq> None"
        using Inr tk by (cases "peer [?h]") (auto simp: bridge_opening_def Let_def split: option.splits)
      with i show ?thesis by blast
    next
      case True
      then obtain w where w: "peer [?h] = Inr w" "bridge_welcome E t k nonce w = None" by blast
      have "fst ?o = [?h, ?reg] \<and> (snd ?o = None \<longrightarrow> registered_by peer [?h, ?reg])"
        using Inr tk w bridge_registered_by [of peer "[?h, ?reg]"]
        by (cases "peer [?h, ?reg]") (simp_all add: bridge_opening_def Let_def)
      moreover have "bridge_proves E nonce peer t k" using w by (rule bridge_welcome_proves)
      ultimately show ?thesis using i
        by (intro disjI2 exI [of _ t] exI [of _ k]) blast
    qed
  qed
qed

text \<open>C5. Neither kind of provider tells an impostor anything: it signs a proof only for a ticket and
  key it was issued, and for the pinned key where it pins one; it publishes its roster only after
  the peer's welcome verified under that same key for that ticket and its own nonce; and its link
  counts as open only when, besides, the peer answered that it registered the roster.\<close>

theorem nothing_for_impostors:
  "(fst (client_opening E pinned nonce name regs data peer) \<noteq> [] \<longrightarrow>
      (\<exists>t k. ticket_issued pinned data t k \<and>
         hd (fst (client_opening E pinned nonce name regs data peer)) = hello_frame E t k nonce \<and>
         (tl (fst (client_opening E pinned nonce name regs data peer)) = [] \<or>
          tl (fst (client_opening E pinned nonce name regs data peer)) = [register_frame name regs] \<and>
          welcome_proves E nonce peer t k))) \<and>
   (snd (client_opening E pinned nonce name regs data peer) = None \<longrightarrow>
      (\<exists>t k. ticket_issued pinned data t k \<and> welcome_proves E nonce peer t k \<and>
         registered_by peer [hello_frame E t k nonce, register_frame name regs])) \<and>
   (fst (bridge_opening B nonce data peer) \<noteq> [] \<longrightarrow>
      (\<exists>t k. bridge_issued B data t k \<and> hd (fst (bridge_opening B nonce data peer)) = bridge_hello B t k nonce \<and>
         (tl (fst (bridge_opening B nonce data peer)) = [] \<or>
          tl (fst (bridge_opening B nonce data peer)) = [register_models B] \<and> bridge_proves B nonce peer t k))) \<and>
   (snd (bridge_opening B nonce data peer) = None \<longrightarrow>
      (\<exists>t k. bridge_issued B data t k \<and> bridge_proves B nonce peer t k \<and>
         registered_by peer [bridge_hello B t k nonce, register_models B]))"
  using co.stages [of E pinned nonce name regs data peer] co.opened [of E pinned nonce name regs data peer]
    bo.stages [of B nonce data peer] bo.opened [of B nonce data peer]
  by fastforce

text \<open>A peer that answers both frames as a gateway would, and one that cannot prove its key.\<close>

definition sample_peer :: "string \<Rightarrow> obj list \<Rightarrow> exn + obj" where
  "sample_peer answer sent =
     (if length sent = 1 then Inr [(''type'', JStr ''welcome''), (''answer'', JStr answer)]
      else Inr [(''type'', JStr ''registered''), (''names'', JList [])])"

definition sample_ticket :: obj where
  "sample_ticket = [(''ticket'', JStr ''t1''), (''funduqPublicKey'', JStr ''f1'')]"

theorem nothing_for_impostors_witness:
  "tl (fst (client_opening sample_client_env (Some ''f1'') ''n'' None [] sample_ticket (sample_peer ''forged''))) = [] \<and>
   (\<exists>t k. ticket_issued (Some ''f1'') sample_ticket t k \<and>
      welcome_proves sample_client_env ''n'' (sample_peer ''ans:f1t1n'') t k \<and>
      registered_by (sample_peer ''ans:f1t1n'') [hello_frame sample_client_env t k ''n'', register_frame None []])"
proof
  show "tl (fst (client_opening sample_client_env (Some ''f1'') ''n'' None [] sample_ticket (sample_peer ''forged''))) = []"
    by (simp add: client_opening_def read_ticket_def sample_ticket_def sample_peer_def check_welcome_def
        sample_client_env_def Let_def)
  have "snd (client_opening sample_client_env (Some ''f1'') ''n'' None [] sample_ticket (sample_peer ''ans:f1t1n'')) = None"
    by (simp add: client_opening_def read_ticket_def sample_ticket_def sample_peer_def check_welcome_def
        check_registered_def sample_client_env_def Let_def)
  then show "\<exists>t k. ticket_issued (Some ''f1'') sample_ticket t k \<and>
      welcome_proves sample_client_env ''n'' (sample_peer ''ans:f1t1n'') t k \<and>
      registered_by (sample_peer ''ans:f1t1n'') [hello_frame sample_client_env t k ''n'', register_frame None []]"
    using nothing_for_impostors [of sample_client_env "Some ''f1''" "''n''" None "[]" sample_ticket
        "sample_peer ''ans:f1t1n''"] by blast
qed

end
