(* ===== verification/Lifecycle.thy ===== *)
theory Lifecycle
  imports Link_Opening
begin

text \<open>
  How the two clients stay connected: the address of the socket beside the one HTTP address
  (\<open>SoukProvider._derive_ws_url\<close>, \<open>KyokBridge._ws_url\<close>) and the loops that connect again
  (\<open>run_forever\<close>, \<open>serve_forever\<close>), with the bridge's \<open>serving()\<close> block. A round is what a
  connection came to, and whether the pause after it was cancelled.
\<close>

section \<open>The address of the socket\<close>

text \<open>What \<open>urlsplit\<close> gives and \<open>urlunsplit\<close> takes.\<close>

record url_parts =
  u_scheme :: string
  u_netloc :: string
  u_path :: string
  u_query :: string
  u_fragment :: string

definition ws_scheme :: "string \<Rightarrow> string" where
  "ws_scheme scheme = (if scheme = ''https'' then ''wss'' else ''ws'')"

definition derive_ws_url :: "url_parts \<Rightarrow> url_parts" where
  "derive_ws_url u = u\<lparr>u_scheme := ws_scheme (u_scheme u), u_path := rstrip_slash (u_path u) @ ''/ws/provider''\<rparr>"

definition bridge_ws_url :: "url_parts \<Rightarrow> url_parts" where
  "bridge_ws_url u =
     u\<lparr>u_scheme := ws_scheme (u_scheme u), u_path := rstrip_slash (u_path u) @ ''/ws/kyok'',
       u_query := [], u_fragment := []\<rparr>"

text \<open>A trailing slash of the address makes no difference, and TLS is never dropped.\<close>

lemma derive_ws_url_slash:
  "derive_ws_url (u\<lparr>u_path := u_path u @ ''/''\<rparr>) = derive_ws_url u"
  "bridge_ws_url (u\<lparr>u_path := u_path u @ ''/''\<rparr>) = bridge_ws_url u"
  by (simp_all add: derive_ws_url_def bridge_ws_url_def rstrip_slash_def)

section \<open>Connecting again\<close>

datatype attempt_end = LinkClosed | LinkFailed exn | LinkCancelled

datatype life = RuntimeStarted | Attempted | LossLogged exn | Paused | RuntimeClosed

fun keep_connected :: "(attempt_end \<times> bool) list \<Rightarrow> life list" where
  "keep_connected [] = []"
| "keep_connected ((how, pause_cancelled) # rounds) =
     Attempted #
     (case how of
        LinkCancelled \<Rightarrow> []
      | LinkClosed \<Rightarrow> Paused # (if pause_cancelled then [] else keep_connected rounds)
      | LinkFailed e \<Rightarrow> LossLogged e # Paused # (if pause_cancelled then [] else keep_connected rounds))"

definition cancels_round :: "attempt_end \<times> bool \<Rightarrow> bool" where
  "cancels_round r \<longleftrightarrow> fst r = LinkCancelled \<or> snd r"

definition run_forever :: "(attempt_end \<times> bool) list \<Rightarrow> life list" where
  "run_forever rounds =
     RuntimeStarted # keep_connected rounds @ (if \<exists>r \<in> set rounds. cancels_round r then [RuntimeClosed] else [])"

definition serve_forever :: "(attempt_end \<times> bool) list \<Rightarrow> life list" where
  "serve_forever rounds = keep_connected rounds"

text \<open>Only a cancellation stops the attempts, and no loss goes unreported.\<close>

lemma attempts_until_cancelled:
  "length (filter (\<lambda>a. a = Attempted) (keep_connected rounds)) =
     (if \<exists>r \<in> set rounds. cancels_round r then Suc (length (takeWhile (\<lambda>r. \<not> cancels_round r) rounds))
      else length rounds)"
  by (induction rounds rule: keep_connected.induct) (auto simp: cancels_round_def split: attempt_end.splits)

lemma losses_logged:
  "\<forall>r \<in> set rounds. \<not> cancels_round r \<Longrightarrow>
   (LossLogged e \<in> set (keep_connected rounds) \<longleftrightarrow> LinkFailed e \<in> fst ` set rounds)"
  by (induction rounds rule: keep_connected.induct)
     (auto simp: cancels_round_def image_iff split: attempt_end.splits)

lemma runtime_not_in_loop: "RuntimeClosed \<notin> set (keep_connected rounds)" "RuntimeStarted \<notin> set (keep_connected rounds)"
  by (induction rounds rule: keep_connected.induct) (auto split: attempt_end.splits)

text \<open>A provider stays connected for as long as it lives: every end of a connection but a
  cancellation, a refusal of its proof or its roster among them, is followed by another attempt, with
  every failure reported; and the runtime is started once, before the first of them, and closed once,
  last, exactly when the loop was cancelled.\<close>

theorem stays_connected:
  "length (filter (\<lambda>a. a = Attempted) (run_forever rounds)) =
     (if \<exists>r \<in> set rounds. cancels_round r then Suc (length (takeWhile (\<lambda>r. \<not> cancels_round r) rounds))
      else length rounds) \<and>
   hd (run_forever rounds) = RuntimeStarted \<and> RuntimeStarted \<notin> set (tl (run_forever rounds)) \<and>
   (RuntimeClosed \<in> set (run_forever rounds) \<longleftrightarrow> (\<exists>r \<in> set rounds. cancels_round r)) \<and>
   RuntimeClosed \<notin> set (butlast (run_forever rounds)) \<and>
   filter (\<lambda>a. a = Attempted) (serve_forever rounds) = filter (\<lambda>a. a = Attempted) (run_forever rounds)"
proof -
  let ?more = "if \<exists>r \<in> set rounds. cancels_round r then [RuntimeClosed] else []"
  have all: "run_forever rounds = RuntimeStarted # keep_connected rounds @ ?more" by (simp add: run_forever_def)
  have attempts: "filter (\<lambda>a. a = Attempted) (run_forever rounds) = filter (\<lambda>a. a = Attempted) (keep_connected rounds)"
    unfolding all by simp
  have once: "RuntimeStarted \<notin> set (tl (run_forever rounds))" unfolding all using runtime_not_in_loop [of rounds] by simp
  have closed: "RuntimeClosed \<in> set (run_forever rounds) \<longleftrightarrow> (\<exists>r \<in> set rounds. cancels_round r)"
    unfolding all using runtime_not_in_loop [of rounds] by simp
  have "butlast (run_forever rounds) = (if \<exists>r \<in> set rounds. cancels_round r then RuntimeStarted # keep_connected rounds
      else butlast (RuntimeStarted # keep_connected rounds))"
    unfolding all by (simp add: butlast_append)
  then have late: "RuntimeClosed \<notin> set (butlast (run_forever rounds))"
    using runtime_not_in_loop(1) [of rounds] by (auto dest: in_set_butlastD split: if_splits)
  show ?thesis
    using attempts_until_cancelled [of rounds] attempts once closed late by (simp add: all serve_forever_def)
qed

section \<open>The \<open>serving()\<close> block\<close>

text \<open>
  A round of the block's own loop also says whether its connection was attached. The block waits for
  the first attach or for the end of the loop, whichever comes first.
\<close>

record serving_round =
  sr_attaches :: bool
  sr_end :: attempt_end
  sr_pause_cancelled :: bool

datatype waited = StillWaiting | AttachedFirst | LoopEnded

definition as_round :: "serving_round \<Rightarrow> attempt_end \<times> bool" where
  "as_round r = (sr_end r, sr_pause_cancelled r)"

fun first_completed :: "serving_round list \<Rightarrow> waited" where
  "first_completed [] = StillWaiting"
| "first_completed (r # rounds) =
     (if sr_attaches r then AttachedFirst
      else if cancels_round (as_round r) then LoopEnded else first_completed rounds)"

text \<open>
  What the block comes to: nothing while it waits; otherwise what it raises, whether its body ran, and
  the bridge it leaves. Asking a cancelled task for its exception raises the cancellation.
\<close>

definition serving_block ::
  "bridge_env \<Rightarrow> serving_round list \<Rightarrow> exn option \<Rightarrow> bridge \<Rightarrow> (exn option \<times> bool \<times> bridge) option" where
  "serving_block E rounds body_raises s =
     (case first_completed rounds of
        StillWaiting \<Rightarrow> None
      | AttachedFirst \<Rightarrow> Some (body_raises, True, detach (serving_exit E s))
      | LoopEnded \<Rightarrow> Some (Some (Exn (OtherExc ''CancelledError'') []), False, detach (serving_exit E s)))"

lemma first_completed_cases:
  "(first_completed rounds = LoopEnded \<longrightarrow> (\<exists>r \<in> set rounds. cancels_round (as_round r))) \<and>
   (first_completed rounds = AttachedFirst \<longrightarrow> (\<exists>r \<in> set rounds. sr_attaches r)) \<and>
   (first_completed rounds = StillWaiting \<longleftrightarrow> (\<forall>r \<in> set rounds. \<not> sr_attaches r \<and> \<not> cancels_round (as_round r)))"
  by (induction rounds) auto

text \<open>
  Nothing but a cancellation ends the loop, so a bridge that can never attach, because it pinned
  another key or its offering is refused, makes the block wait for as long as it is left to, with one
  attempt after another; the error the block has for a bridge that failed before attaching is never
  raised.
\<close>

lemma hopeless_bridge_waits:
  assumes "\<forall>r \<in> set rounds. \<not> sr_attaches r \<and> \<not> cancels_round (as_round r)"
  shows "serving_block E rounds x s = None \<and>
    length (filter (\<lambda>a. a = Attempted) (serve_forever (map as_round rounds))) = length rounds"
  using assms first_completed_cases [of rounds] attempts_until_cancelled [of "map as_round rounds"]
  by (auto simp: serving_block_def serve_forever_def)

lemma block_withdraws:
  "serving_block E rounds x s = Some (e, entered, s') \<Longrightarrow>
   br_queue s' = br_queue s @ (if b_ephemeral E \<and> br_attached s then [delete_model_frame E] else []) \<and> \<not> br_attached s' \<and>
   (e = x \<and> entered \<or> e = Some (Exn (OtherExc ''CancelledError'') []) \<and> \<not> entered)"
  by (auto simp: serving_block_def serving_exit_def deregister_def detach_def split: waited.splits if_splits)

end
