(* ===== verification/Reconnect.thy ===== *)
theory Reconnect
  imports Provider_Flow
begin

text \<open>
  A provider over all its connections: the one queue of the client outlives them, the writer of each
  connection (\<open>SoukProvider._write_loop\<close>) takes a frame off it and then sends it, and the end of a
  connection (\<open>_run_connection\<close>) cancels the writer. The gateway reads each connection on its own, and
  may still be reading one after the client has left it.
\<close>

section \<open>The machine\<close>

text \<open>What was sent on a connection, how much of it the gateway has read, and whether it is the live one.\<close>

record link_use =
  lu_sent :: "obj list"
  lu_read :: nat
  lu_live :: bool

text \<open>
  The client with the acts it has done, how many frames the writers have taken off its queue, the
  frame a writer has taken and not yet sent, and the connections so far.
\<close>

record 'r duplex =
  dx_client :: "'r client"
  dx_acts :: "client_act list"
  dx_taken :: nat
  dx_hand :: "obj option"
  dx_links :: "link_use list"

definition live :: "'r duplex \<Rightarrow> bool" where
  "live x \<longleftrightarrow> dx_links x \<noteq> [] \<and> last (map lu_live (dx_links x))"

definition on_last :: "('a \<Rightarrow> 'a) \<Rightarrow> 'a list \<Rightarrow> 'a list" where
  "on_last f xs = butlast xs @ [f (last xs)]"

definition dx_act ::
  "client_env \<Rightarrow> 'r runtime \<Rightarrow> (json \<Rightarrow> 'r \<Rightarrow> 'r) \<Rightarrow> client_act \<Rightarrow> 'r duplex \<Rightarrow> 'r duplex" where
  "dx_act E d c a x = x\<lparr>dx_client := client_do E d c a (dx_client x), dx_acts := dx_acts x @ [a]\<rparr>"

definition writer_takes :: "'r duplex \<Rightarrow> 'r duplex" where
  "writer_takes x =
     x\<lparr>dx_hand := Some (cl_outbound (dx_client x) ! dx_taken x), dx_taken := Suc (dx_taken x)\<rparr>"

definition writer_sends :: "'r duplex \<Rightarrow> 'r duplex" where
  "writer_sends x =
     (case dx_hand x of
        None \<Rightarrow> x
      | Some f \<Rightarrow>
          x\<lparr>dx_hand := None, dx_links := on_last (\<lambda>l. l\<lparr>lu_sent := lu_sent l @ [f]\<rparr>) (dx_links x)\<rparr>)"

definition connects :: "'r duplex \<Rightarrow> 'r duplex" where
  "connects x = x\<lparr>dx_links := dx_links x @ [\<lparr>lu_sent = [], lu_read = 0, lu_live = True\<rparr>]\<rparr>"

text \<open>The \<open>finally\<close> block: the open questions fail and the writer is cancelled, with what it holds.\<close>

definition drops ::
  "client_env \<Rightarrow> 'r runtime \<Rightarrow> (json \<Rightarrow> 'r \<Rightarrow> 'r) \<Rightarrow> 'r duplex \<Rightarrow> 'r duplex" where
  "drops E d c x =
     (dx_act E d c ConnectionEnds x)\<lparr>dx_hand := None,
        dx_links := on_last (\<lambda>l. l\<lparr>lu_live := False\<rparr>) (dx_links x)\<rparr>"

definition gateway_reads :: "nat \<Rightarrow> 'r duplex \<Rightarrow> 'r duplex" where
  "gateway_reads i x =
     x\<lparr>dx_links := (dx_links x)[i := (dx_links x ! i)\<lparr>lu_read := Suc (lu_read (dx_links x ! i))\<rparr>]\<rparr>"

inductive duplex_step ::
  "client_env \<Rightarrow> 'r runtime \<Rightarrow> (json \<Rightarrow> 'r \<Rightarrow> 'r) \<Rightarrow> 'r duplex \<Rightarrow> 'r duplex \<Rightarrow> bool" for E d c where
  d_acts: "duplex_step E d c x (dx_act E d c a x)"
| d_connects: "\<not> live x \<Longrightarrow> duplex_step E d c x (connects x)"
| d_takes: "live x \<Longrightarrow> dx_hand x = None \<Longrightarrow> dx_taken x < length (cl_outbound (dx_client x)) \<Longrightarrow>
    duplex_step E d c x (writer_takes x)"
| d_sends: "live x \<Longrightarrow> dx_hand x \<noteq> None \<Longrightarrow> duplex_step E d c x (writer_sends x)"
| d_drops: "live x \<Longrightarrow> duplex_step E d c x (drops E d c x)"
| d_reads: "i < length (dx_links x) \<Longrightarrow> lu_read (dx_links x ! i) < length (lu_sent (dx_links x ! i)) \<Longrightarrow>
    duplex_step E d c x (gateway_reads i x)"

definition duplex_init :: "'r client \<Rightarrow> 'r duplex \<Rightarrow> bool" where
  "duplex_init s x \<longleftrightarrow>
     client_init s \<and> x = \<lparr>dx_client = s, dx_acts = [], dx_taken = 0, dx_hand = None, dx_links = []\<rparr>"

section \<open>Where every frame is\<close>

definition sent_all :: "'r duplex \<Rightarrow> obj list" where
  "sent_all x = concat (map lu_sent (dx_links x))"

definition held :: "'r duplex \<Rightarrow> obj list" where
  "held x = (case dx_hand x of None \<Rightarrow> [] | Some f \<Rightarrow> [f])"

definition dropped :: "'r duplex \<Rightarrow> nat" where
  "dropped x = length (filter Not (map lu_live (dx_links x)))"

text \<open>
  What was sent, on all connections in their order, and what a writer holds were taken off the queue
  in this order, and no more are missing than connections ended. Only the last can be live.
\<close>

definition duplex_inv :: "client_env \<Rightarrow> 'r runtime \<Rightarrow> (json \<Rightarrow> 'r \<Rightarrow> 'r) \<Rightarrow> 'r client \<Rightarrow> 'r duplex \<Rightarrow> bool" where
  "duplex_inv E d c s x \<longleftrightarrow>
     fold (client_do E d c) (dx_acts x) s = dx_client x \<and>
     dx_taken x \<le> length (cl_outbound (dx_client x)) \<and>
     subseq (sent_all x @ held x) (take (dx_taken x) (cl_outbound (dx_client x))) \<and>
     dx_taken x \<le> length (sent_all x) + length (held x) + dropped x \<and>
     (dx_hand x \<noteq> None \<longrightarrow> live x) \<and>
     True \<notin> set (butlast (map lu_live (dx_links x))) \<and>
     (\<forall>l \<in> set (dx_links x). lu_read l \<le> length (lu_sent l))"

lemma client_do_grows:
  "\<exists>fs. cl_outbound (client_do E d c a s) = cl_outbound s @ fs"
proof (cases a)
  case (Hears frame)
  then show ?thesis
    using heard_frames [of E d c frame s "fst (on_client_frame E d c frame s)" "snd (on_client_frame E d c frame s)"]
    by auto
qed (simp_all add: asked_frames send_event_def send_finish_def send_frame_def)

lemma links_last: "dx_links x \<noteq> [] \<Longrightarrow> dx_links x = butlast (dx_links x) @ [last (dx_links x)]"
  by simp

lemma inv_act: "duplex_inv E d c s x \<Longrightarrow> duplex_inv E d c s (dx_act E d c a x)"
proof -
  assume inv: "duplex_inv E d c s x"
  obtain fs where fs: "cl_outbound (client_do E d c a (dx_client x)) = cl_outbound (dx_client x) @ fs"
    using client_do_grows by blast
  have same: "sent_all (dx_act E d c a x) = sent_all x" "held (dx_act E d c a x) = held x"
    "dropped (dx_act E d c a x) = dropped x" "live (dx_act E d c a x) = live x"
    by (simp_all add: dx_act_def sent_all_def held_def dropped_def live_def)
  show ?thesis
    using inv unfolding duplex_inv_def same by (simp add: dx_act_def fs)
qed

lemma inv_connects:
  assumes "duplex_inv E d c s x" and "\<not> live x"
  shows "duplex_inv E d c s (connects x)"
proof -
  have dead: "True \<notin> set (map lu_live (dx_links x))"
    using assms by (cases "dx_links x" rule: rev_cases) (auto simp: duplex_inv_def live_def)
  have "held x = []" using assms by (auto simp: duplex_inv_def held_def split: option.splits)
  with assms dead show ?thesis
    by (simp add: duplex_inv_def connects_def sent_all_def held_def dropped_def live_def)
qed

lemma inv_takes:
  assumes "duplex_inv E d c s x" and "live x" and "dx_hand x = None"
    and "dx_taken x < length (cl_outbound (dx_client x))"
  shows "duplex_inv E d c s (writer_takes x)"
  using assms
  by (simp add: duplex_inv_def writer_takes_def sent_all_def held_def dropped_def live_def take_Suc_conv_app_nth)

lemma inv_sends:
  assumes "duplex_inv E d c s x" and "live x" and "dx_hand x = Some f"
  shows "duplex_inv E d c s (writer_sends x)"
proof -
  have ne: "dx_links x \<noteq> []" using assms(2) by (simp add: live_def)
  then obtain ls l where ls: "dx_links x = ls @ [l]" by (cases "dx_links x" rule: rev_cases) auto
  show ?thesis
    using assms by (auto simp: duplex_inv_def writer_sends_def sent_all_def held_def dropped_def live_def on_last_def ls)
qed

lemma subseq_appendD: "subseq (xs @ ys) zs \<Longrightarrow> subseq xs zs"
  using subseq_rev_drop_many [of xs xs ys] subseq_order.trans [of xs "xs @ ys" zs] by simp

lemma inv_drops:
  assumes "duplex_inv E d c s x" and "live x"
  shows "duplex_inv E d c s (drops E d c x)"
proof -
  obtain ls l where ls: "dx_links x = ls @ [l]"
    using assms(2) by (cases "dx_links x" rule: rev_cases) (auto simp: live_def)
  have inv: "duplex_inv E d c s (dx_act E d c ConnectionEnds x)" using assms(1) by (rule inv_act)
  have "subseq (sent_all x) (take (dx_taken x) (cl_outbound (dx_client x)))"
    using assms(1) subseq_appendD by (auto simp: duplex_inv_def)
  then show ?thesis
    using inv assms(2)
    by (auto simp: duplex_inv_def drops_def dx_act_def sent_all_def held_def dropped_def live_def on_last_def ls
        split: option.splits)
qed

lemma map_update_same: "i < length xs \<Longrightarrow> f v = f (xs ! i) \<Longrightarrow> map f (xs[i := v]) = map f xs"
  by (metis list_update_id map_update nth_map)

lemma inv_reads:
  assumes "duplex_inv E d c s x" and "i < length (dx_links x)"
    and "lu_read (dx_links x ! i) < length (lu_sent (dx_links x ! i))"
  shows "duplex_inv E d c s (gateway_reads i x)"
proof -
  let ?l = "(dx_links x ! i)\<lparr>lu_read := Suc (lu_read (dx_links x ! i))\<rparr>"
  have m: "map lu_sent ((dx_links x)[i := ?l]) = map lu_sent (dx_links x)"
    "map lu_live ((dx_links x)[i := ?l]) = map lu_live (dx_links x)"
    using assms(2) by (simp_all add: map_update_same)
  have "lu_read l \<le> length (lu_sent l)" if "l \<in> set ((dx_links x)[i := ?l])" for l
    using that assms set_update_subset_insert [of "dx_links x" i ?l] by (auto simp: duplex_inv_def)
  then show ?thesis
    using assms by (simp add: duplex_inv_def gateway_reads_def sent_all_def held_def dropped_def live_def m)
qed

lemma duplex_inv_step: "duplex_inv E d c s x \<Longrightarrow> duplex_step E d c x y \<Longrightarrow> duplex_inv E d c s y"
  by (erule duplex_step.cases) (auto simp: inv_act inv_connects inv_takes inv_sends inv_drops inv_reads)

lemma duplex_inv_init: "duplex_init s x \<Longrightarrow> duplex_inv E d c s x"
  by (simp add: duplex_init_def duplex_inv_def sent_all_def held_def dropped_def)

interpretation dv: machine_invariant "duplex_init s" "duplex_step E d c" "duplex_inv E d c s"
  for s :: "'r client" and E d c
  by unfold_locales (fact duplex_inv_init, fact duplex_inv_step)

section \<open>What core is told over all connections\<close>

text \<open>The calls about runs that reading one connection makes on core, by the session it was opened as.\<close>

definition told :: "'c core \<Rightarrow> (obj \<Rightarrow> string) \<Rightarrow> ('c \<times> core_call list) session \<Rightarrow> link_use \<Rightarrow> core_call list" where
  "told F dumps g l =
     filter is_run_call (calls_of (snd (read_loop (logged F) (over_the_wire dumps (take (lu_read l) (lu_sent l))) g)))"

definition fresh_session :: "string \<Rightarrow> ('c \<times> core_call list) session \<Rightarrow> bool" where
  "fresh_session key g \<longleftrightarrow> filter is_run_call (calls_of g) = [] \<and> conn_key (link_conn (s_link g)) = key"

lemma told_calls:
  assumes "fresh_session key g" and "core_answers F" and "list_all client_frame (lu_sent l)"
    and "\<forall>f \<in> set (lu_sent l). json_loads F (dumps f) = Inr (JObj f)"
  shows "told F dumps g l = concat (map (run_calls F key) (take (lu_read l) (lu_sent l)))"
proof -
  let ?fs = "take (lu_read l) (lu_sent l)"
  have frames: "list_all client_frame ?fs" and loads: "\<forall>f \<in> set ?fs. json_loads F (dumps f) = Inr (JObj f)"
    using assms(3,4) in_set_takeD unfolding list_all_iff by fast+
  then obtain g' where loop: "read_loop (logged F) (over_the_wire dumps ?fs) g = (None, g')"
    using loop_stays [OF _ core_answers_logged [OF assms(2)]] logged_simps(1) by metis
  show ?thesis
    using read_loop_calls [OF loop] assms(1) unfolding wire_calls [OF loads] told_def loop fresh_session_def by simp
qed

lemma run_calls_one: "length (run_calls K key f) \<le> 1"
  by (simp add: run_calls_def split: sum.split)

lemma subseq_concat_map: "subseq xs ys \<Longrightarrow> subseq (concat (map f xs)) (concat (map f ys))"
  by (induction rule: list_emb.induct) (auto intro: subseq_drop_many list_emb_append_mono)

lemma subseq_missing:
  "subseq xs ys \<Longrightarrow> \<forall>y. length (f y) \<le> 1 \<Longrightarrow>
   length (concat (map f ys)) + length xs \<le> length (concat (map f xs)) + length ys"
proof (induction rule: list_emb.induct)
  case (list_emb_Nil ys)
  then show ?case
  proof (induction ys)
    case (Cons y ys)
    then have "length (f y) \<le> 1" by blast
    then show ?case using Cons.IH [OF Cons.prems] by simp
  qed simp
next
  case (list_emb_Cons xs ys y)
  then have "length (f y) \<le> 1" by blast
  then show ?case using list_emb_Cons.IH [OF list_emb_Cons.prems] by simp
qed simp_all

lemma subseq_reads: "subseq (concat (map (\<lambda>l. take (lu_read l) (lu_sent l)) ls)) (concat (map lu_sent ls))"
  by (induction ls) (auto intro: list_emb_append_mono prefix_imp_subseq take_is_prefix)

lemma concat_tells:
  assumes "length gs = length ls" and "\<forall>g \<in> set gs. fresh_session key g" and "core_answers F"
    and "\<forall>l \<in> set ls. list_all client_frame (lu_sent l)"
    and "\<forall>l \<in> set ls. \<forall>f \<in> set (lu_sent l). json_loads F (dumps f) = Inr (JObj f)"
  shows "concat (map2 (told F dumps) gs ls) =
    concat (map (run_calls F key) (concat (map (\<lambda>l. take (lu_read l) (lu_sent l)) ls)))"
  using assms by (induction gs ls rule: list_induct2) (simp_all add: told_calls)

lemma subseq_set: "subseq xs ys \<Longrightarrow> set xs \<subseteq> set ys"
  by (induction rule: list_emb.induct) auto

text \<open>What has not been taken off the queue yet, and what was sent and not read where it was sent.\<close>

definition waiting :: "'r duplex \<Rightarrow> nat" where
  "waiting x = length (cl_outbound (dx_client x)) - dx_taken x"

definition unread :: "'r duplex \<Rightarrow> nat" where
  "unread x = sum_list (map (\<lambda>l. length (lu_sent l) - lu_read l) (dx_links x))"

lemma length_reads:
  "\<forall>l \<in> set ls. lu_read l \<le> length (lu_sent l) \<Longrightarrow>
   length (concat (map (\<lambda>l. take (lu_read l) (lu_sent l)) ls)) + sum_list (map (\<lambda>l. length (lu_sent l) - lu_read l) ls) =
     length (concat (map lu_sent ls))"
  by (induction ls) auto

text \<open>C4. Over all the connections a provider ever opens, what core is told about its runs is, in the order
  of the connections, a subsequence of what the client's acts mean: nothing is told twice, out of
  order or unmeant. And whatever is missing is accounted for: it is waiting on the client's queue
  or in its writer's hand, it is the one frame that the writer of an ended connection had taken and
  not sent, or it was written on a connection on which the gateway has not read it, which on a
  connection that died it never will, so that any number of reports may be lost there. What core makes
  of a report, once the run it is about was failed with its connection, is core's own affair.\<close>

theorem reports_across_reconnects:
  assumes "reach (duplex_init s) (duplex_step E d c) x" and "\<forall>a \<in> set (dx_acts x). answers_accepted F a"
    and "\<forall>f \<in> set (cl_outbound (dx_client x)). json_loads F (dumps f) = Inr (JObj f)" and "core_answers F"
    and "length gs = length (dx_links x)" and "\<forall>g \<in> set gs. fresh_session key g"
    and "core_told = concat (map2 (told F dumps) gs (dx_links x))"
  shows "subseq core_told (acts_meaning E d c key (dx_acts x) s) \<and>
    length (acts_meaning E d c key (dx_acts x) s) \<le>
      length core_told + waiting x + length (held x) + dropped x + unread x"
proof -
  let ?out = "cl_outbound (dx_client x)" and ?reads = "concat (map (\<lambda>l. take (lu_read l) (lu_sent l)) (dx_links x))"
  have inv: "duplex_inv E d c s x" using assms(1) by (rule dv.reach_inv)
  have "cl_outbound s = []" using assms(1) by (induction rule: reach.induct) (simp_all add: duplex_init_def client_init_def)
  then have frames: "list_all client_frame ?out"
    and means: "concat (map (run_calls F key) ?out) = acts_meaning E d c key (dx_acts x) s"
    using acts_frames [OF assms(2), of E d c s key] inv by (auto simp: duplex_inv_def)
  have sent: "subseq (sent_all x) (take (dx_taken x) ?out)"
    using inv subseq_appendD by (auto simp: duplex_inv_def)
  then have sub: "subseq (sent_all x) ?out"
    using subseq_order.trans prefix_imp_subseq take_is_prefix by blast
  have part: "set (lu_sent l) \<subseteq> set ?out" if "l \<in> set (dx_links x)" for l
    using subseq_set [OF sub] that by (auto simp: sent_all_def)
  have fs: "\<forall>l \<in> set (dx_links x). list_all client_frame (lu_sent l)"
    and ls: "\<forall>l \<in> set (dx_links x). \<forall>f \<in> set (lu_sent l). json_loads F (dumps f) = Inr (JObj f)"
    using part frames assms(3) unfolding list_all_iff by blast+
  have t: "core_told = concat (map (run_calls F key) ?reads)"
    unfolding assms(7) by (rule concat_tells [OF assms(5,6,4) fs ls])
  have reads: "subseq ?reads ?out"
    using subseq_reads [of "dx_links x"] sub unfolding sent_all_def by (rule subseq_order.trans)
  then have "subseq core_told (acts_meaning E d c key (dx_acts x) s)"
    using subseq_concat_map unfolding t means [symmetric] by blast
  moreover have "length ?reads + unread x = length (sent_all x)"
    unfolding unread_def sent_all_def by (rule length_reads) (use inv in \<open>simp add: duplex_inv_def\<close>)
  moreover have "length ?out \<le> waiting x + length (sent_all x) + length (held x) + dropped x"
    using inv unfolding duplex_inv_def waiting_def by (elim conjE) linarith
  moreover have "length (acts_meaning E d c key (dx_acts x) s) + length ?reads \<le> length core_told + length ?out"
    using subseq_missing [OF reads, of "run_calls F key"] run_calls_one unfolding t means [symmetric] by blast
  ultimately show ?thesis by simp
qed

text \<open>
  Two reports lost with one connection: the first was written on it and never read, the second its
  writer had just taken.
\<close>

abbreviation sample_act :: "client_act \<Rightarrow> unit duplex \<Rightarrow> unit duplex" where
  "sample_act \<equiv> dx_act wire_env sample_runtime (\<lambda>i r. r)"

definition sample_start :: "unit duplex" where
  "sample_start = \<lparr>dx_client = sample_client, dx_acts = [], dx_taken = 0, dx_hand = None, dx_links = []\<rparr>"

definition sample_asked :: "unit duplex" where
  "sample_asked = connects (sample_act (Finishes ''run1'') (sample_act (Reports ''run1'' (JStr ''e'')) sample_start))"

definition sample_loss :: "unit duplex" where
  "sample_loss =
     drops wire_env sample_runtime (\<lambda>i r. r) (writer_takes (writer_sends (writer_takes sample_asked)))"

lemmas sample_duplex_simps =
  sample_start_def sample_asked_def sample_loss_def dx_act_def connects_def writer_takes_def writer_sends_def drops_def
  on_last_def live_def sample_client_def send_finish_def send_event_def dump_event_def send_frame_def
  connection_closed_def fail_pending_queries_def

lemma sample_loss_reach:
  "reach (duplex_init sample_client) (duplex_step wire_env sample_runtime (\<lambda>i r. r)) sample_loss"
proof -
  let ?step = "duplex_step wire_env sample_runtime (\<lambda>i r. r)"
  let ?a = "sample_act (Reports ''run1'' (JStr ''e'')) sample_start" and ?t = "writer_takes sample_asked"
  have "reach (duplex_init sample_client) ?step sample_start"
    by (rule reach_start) (simp add: duplex_init_def client_init_def sample_duplex_simps)
  moreover have "?step sample_start ?a" by (rule d_acts)
  moreover have "?step ?a (sample_act (Finishes ''run1'') ?a)" by (rule d_acts)
  moreover have "?step (sample_act (Finishes ''run1'') ?a) sample_asked"
    unfolding sample_asked_def by (rule d_connects) (simp add: sample_duplex_simps)
  moreover have "?step sample_asked ?t" by (rule d_takes) (simp_all add: sample_duplex_simps)
  moreover have "?step ?t (writer_sends ?t)" by (rule d_sends) (simp_all add: sample_duplex_simps)
  moreover have "?step (writer_sends ?t) (writer_takes (writer_sends ?t))"
    by (rule d_takes) (simp_all add: sample_duplex_simps)
  moreover have "?step (writer_takes (writer_sends ?t)) sample_loss"
    unfolding sample_loss_def by (rule d_drops) (simp add: sample_duplex_simps)
  ultimately show ?thesis by (meson reach_next)
qed

theorem reports_across_reconnects_witness:
  "length (acts_meaning wire_env sample_runtime (\<lambda>i r. r) ''key1''
      [Reports ''run1'' (JStr ''e''), Finishes ''run1'', ConnectionEnds] sample_client) \<le>
    0 + dropped sample_loss + unread sample_loss \<and> dropped sample_loss = 1 \<and> unread sample_loss = 1"
proof -
  have acts: "dx_acts sample_loss = [Reports ''run1'' (JStr ''e''), Finishes ''run1'', ConnectionEnds]"
    and links: "dx_links sample_loss = [\<lparr>lu_sent = [report_event_frame ''run1'' (JStr ''e'')], lu_read = 0, lu_live = False\<rparr>]"
    and rest: "waiting sample_loss = 0" "held sample_loss = []"
      "cl_outbound (dx_client sample_loss) = [report_event_frame ''run1'' (JStr ''e''), finish_run_frame ''run1'']"
    by (simp_all add: sample_duplex_simps waiting_def held_def)
  have ok: "\<forall>a \<in> set (dx_acts sample_loss). answers_accepted (sample_core sample_texts) a"
    by (simp add: acts answers_accepted_def)
  have loads: "\<forall>f \<in> set (cl_outbound (dx_client sample_loss)).
      json_loads (sample_core sample_texts) (type_text f) = Inr (JObj f)"
    by (simp add: rest sample_core_def sample_texts_def type_text_def finish_run_frame_def report_event_frame_def)
  have one: "length [sample_session (sample_state, [])] = length (dx_links sample_loss)" by (simp add: links)
  have fresh: "\<forall>g \<in> set [sample_session (sample_state, [])]. fresh_session ''key1'' g"
    by (simp add: fresh_session_def sample_session_def)
  have none: "[] = concat (map2 (told (sample_core sample_texts) type_text) [sample_session (sample_state, [])]
      (dx_links sample_loss))"
    by (simp add: links told_def sample_session_def)
  have lost: "dropped sample_loss = 1" "unread sample_loss = 1" by (simp_all add: dropped_def unread_def links)
  show ?thesis
    using reports_across_reconnects [OF sample_loss_reach ok loads sample_core_answers one fresh none] lost rest(1,2) acts
    by simp
qed

end
