(* ===== verification/Roster_Wire.thy ===== *)
theory Roster_Wire
  imports Provider_Wire
begin

text \<open>
  The publication of a roster across the wire: the registrations the provider's client dumps, the
  handler of the gateway that reads them and asks core, and the answer the client waits for.
\<close>

section \<open>The roster a client sends\<close>

text \<open>
  \<open>{agent.name: agent for agent in agents}\<close>, each with its dumped registration, and the registrations
  with the capability its runtime declares in place of the one they carry.
\<close>

definition agents_dict :: "(string \<times> obj) list \<Rightarrow> (string \<times> obj) list" where
  "agents_dict agents = dict_merge [] agents"

definition declared_dump :: "(string \<Rightarrow> bool) \<Rightarrow> string \<times> obj \<Rightarrow> obj" where
  "declared_dump takes = (\<lambda>(name, dump). AList.update ''takesInterjections'' (JBool (takes name)) dump)"

definition roster_frame :: "(string \<Rightarrow> bool) \<Rightarrow> json option \<Rightarrow> (string \<times> obj) list \<Rightarrow> obj" where
  "roster_frame takes provider_name agents =
     register_frame provider_name (map (declared_dump takes) (agents_dict agents))"

text \<open>\<open>_register\<close>: the client takes the next frame of the gateway for the answer.\<close>

definition registration_outcome :: "obj list \<Rightarrow> obj list \<Rightarrow> exn option option" where
  "registration_outcome before after =
     (case drop (length before) after of [] \<Rightarrow> None | answer # later \<Rightarrow> Some (check_registered answer))"

section \<open>Facts\<close>

lemma dict_merge_keys: "set (map fst (dict_merge a b)) = set (map fst a) \<union> set (map fst b)"
proof (induction b arbitrary: a)
  case Nil
  then show ?case by simp
next
  case (Cons x b)
  then show ?case by (cases x) (auto simp: dom_update [unfolded dom_map_of_conv_image_fst])
qed

lemma agents_dict_distinct: "distinct (map fst (agents_dict agents))"
proof -
  have "distinct (map fst a) \<Longrightarrow> distinct (map fst (dict_merge a b))" for a b :: "(string \<times> obj) list"
    by (induction b arbitrary: a) (auto simp: distinct_update)
  then show ?thesis by (simp add: agents_dict_def)
qed

lemma agents_dict_empty [simp]: "agents_dict agents = [] \<longleftrightarrow> agents = []"
proof
  assume "agents_dict agents = []"
  with dict_merge_keys [of "[]" agents] have "set (map fst agents) = {}" by (simp add: agents_dict_def)
  then show "agents = []" by simp
qed (simp add: agents_dict_def)

text \<open>The contract reads each dump back as the registration it is the dump of.\<close>

definition reads_back :: "('c, 'z) core_scheme \<Rightarrow> (string \<Rightarrow> bool) \<Rightarrow> (string \<Rightarrow> obj) \<Rightarrow> string \<times> obj \<Rightarrow> bool" where
  "reads_back F takes carried entry \<longleftrightarrow>
     agent_name_match (fst entry) \<and>
     validate_registration F (declared_dump takes entry) =
       Inr \<lparr>reg_name = fst entry, reg_interjections = JBool (takes (fst entry)), reg_rest = carried (fst entry)\<rparr>"

definition declared_as :: "(string \<Rightarrow> bool) \<Rightarrow> (string \<Rightarrow> obj) \<Rightarrow> string \<Rightarrow> registration" where
  "declared_as takes carried n = \<lparr>reg_name = n, reg_interjections = JBool (takes n), reg_rest = carried n\<rparr>"

lemma parse_entries_meant:
  "\<forall>e \<in> set es. reads_back F takes carried e \<Longrightarrow>
   parse_entries F (map JObj (map (declared_dump takes) es)) = Inr (map (declared_as takes carried \<circ> fst) es)"
  by (induction es) (auto simp: reads_back_def declared_as_def)

lemma roster_parsed:
  assumes "agents \<noteq> []" and "\<forall>e \<in> set (agents_dict agents). reads_back F takes carried e"
  shows "parse_registration F (roster_frame takes provider_name agents) =
    Inr (map (declared_as takes carried \<circ> fst) (agents_dict agents))"
  using parse_entries_meant [OF assms(2)] assms(1)
  by (simp add: parse_registration_def roster_frame_def register_frame_def Let_def split: option.splits)

lemma declared_meant:
  "takes_interjections (declare_interjections (map (declared_as takes carried \<circ> fst) (agents_dict agents)) l) n \<longleftrightarrow>
   n \<in> fst ` set agents \<and> takes n"
proof -
  let ?regs = "map (declared_as takes carried \<circ> fst) (agents_dict agents)"
  have keys: "map reg_name ?regs = map fst (agents_dict agents)" by (simp add: declared_as_def)
  have "distinct (map reg_name ?regs)" unfolding keys by (rule agents_dict_distinct)
  note declared = takes_interjections_declared [OF this, of l n]
  have "fst ` set (agents_dict agents) = fst ` set agents"
    using dict_merge_keys [of "[]" agents] by (simp add: agents_dict_def)
  moreover have "(\<exists>r \<in> set ?regs. reg_name r = n \<and> truthy (reg_interjections r)) \<longleftrightarrow>
      n \<in> fst ` set (agents_dict agents) \<and> takes n"
    by (auto simp: declared_as_def)
  ultimately show ?thesis using declared by simp
qed

fun call_frame :: "link_call \<Rightarrow> obj" where
  "call_frame (CallDeliver run) = dict_merge [(''type'', JStr ''run'')] run"
| "call_frame (CallCancel r) = [(''type'', JStr ''cancel''), (''runId'', r)]"

lemma link_calls_out: "outbound (link_calls ks l) = outbound l @ map call_frame ks"
proof (induction ks arbitrary: l)
  case Nil
  then show ?case by (simp add: link_calls_def)
next
  case (Cons k ks)
  have "outbound (link_call k l) = outbound l @ [call_frame k]"
    by (cases k) (simp_all add: link_call_def deliver_def cancel_def put_def)
  with Cons [of "link_call k l"] show ?case by (simp add: link_calls_def)
qed

lemma check_registered_frame:
  "check_registered [(''type'', JStr ''registered''), (''names'', ns)] = None"
  "\<exists>m. check_registered (error_frame e) = Some (Exn RuntimeError m)"
  by (simp_all add: check_registered_def error_frame_def)

text \<open>A frame that core puts on the link before the answer is taken for the answer, and is none.\<close>

lemma check_call_frame:
  assumes "\<forall>run. k = CallDeliver run \<longrightarrow> ''type'' \<notin> fst ` set run"
  shows "\<exists>m. check_registered (call_frame k) = Some (Exn RuntimeError m)"
proof -
  have "dget (call_frame k) ''type'' \<in> {JStr ''run'', JStr ''cancel''}"
    using assms by (cases k) (auto simp: dget_merge_notin)
  then show ?thesis by (auto simp: check_registered_def)
qed

lemma on_register_parsed:
  assumes "parse_registration F parsed = Inr regs"
    and "register_agents F (link_conn (s_link s)) (takes_interjections (declare_interjections regs (s_link s))) regs
           (dget parsed ''providerName'') (s_core s) = (result, calls, c')"
  shows "on_register F parsed s =
    (let l = link_calls calls (declare_interjections regs (s_link s)); s' = s\<lparr>s_link := l, s_core := c'\<rparr> in
     case result of
       Inl e \<Rightarrow> if is_funduq_error F e \<or> is_value_error F e then (None, say (error_frame (exn_text e)) s') else (Some e, s')
     | Inr registered \<Rightarrow>
         (let names = sort (map fst registered) in
          (None, say [(''type'', JStr ''registered''), (''names'', JList (map JStr names))]
             (s'\<lparr>s_link := l\<lparr>registered_names := set names\<rparr>\<rparr>))))"
  using assms by (simp add: on_register_def Let_def link_frame_simps)

text \<open>What the client takes for the answer: the first of core's frames, or else what the handler said.\<close>

lemma outcome_said:
  assumes "\<forall>run. CallDeliver run \<in> set calls \<longrightarrow> ''type'' \<notin> fst ` set run"
  shows "\<exists>r. registration_outcome (outbound l) (outbound l @ map call_frame calls @ [f]) = Some r \<and>
    (if calls = [] then r = check_registered f else \<exists>m. r = Some (Exn RuntimeError m))"
proof (cases calls)
  case Nil
  then show ?thesis by (simp add: registration_outcome_def)
next
  case (Cons k ks)
  with assms check_call_frame [of k] show ?thesis by (simp add: registration_outcome_def)
qed

section \<open>What publication comes to\<close>

text \<open>C17. A roster is published as its client means it: of a non-empty list of agents whose dumps read
  back, core is handed one registration per name, in the order of the names, and for each agent core
  asks about the link answers what the client's own runtime declares, and no for every other name.
  The client takes its link as open exactly when core accepted the roster, and otherwise raises,
  provided core put nothing on the link before it answered; if it offered a run meanwhile, the client
  takes the offer for the answer and gives the connection up. An empty list is refused unasked.\<close>

theorem roster_published:
  assumes "\<forall>e \<in> set (agents_dict agents). reads_back F takes carried e"
    and "register_agents F (link_conn (s_link s)) (\<lambda>n. n \<in> fst ` set agents \<and> takes n)
           (map (declared_as takes carried \<circ> fst) (agents_dict agents))
           (case provider_name of None \<Rightarrow> JNull | Some n \<Rightarrow> n) (s_core s) = (result, calls, c')"
    and "\<forall>run. CallDeliver run \<in> set calls \<longrightarrow> ''type'' \<notin> fst ` set run"
    and "on_register F (roster_frame takes provider_name agents) s = (x, s')"
    and "outcome = registration_outcome (outbound (s_link s)) (outbound (s_link s'))"
  shows "if agents = [] then x = None \<and> s_core s' = s_core s \<and> (\<exists>m. outcome = Some (Some (Exn RuntimeError m)))
    else s_core s' = c' \<and>
      (case result of
         Inr registered \<Rightarrow> x = None \<and> registered_names (s_link s') = fst ` set registered \<and>
           (if calls = [] then outcome = Some None else \<exists>m. outcome = Some (Some (Exn RuntimeError m)))
       | Inl e \<Rightarrow>
           if is_funduq_error F e \<or> is_value_error F e
           then x = None \<and> (\<exists>m. outcome = Some (Some (Exn RuntimeError m))) else x = Some e)"
proof (cases "agents = []")
  case True
  have "parse_registration F (roster_frame takes provider_name []) =
      Inl ''register needs a non-empty 'agents' list''"
    by (simp add: parse_registration_def roster_frame_def register_frame_def agents_dict_def Let_def split: option.splits)
  with assms(4) True have "x = None \<and> s' = say (error_frame ''register needs a non-empty 'agents' list'') s"
    by (simp add: on_register_def)
  with True check_registered_frame(2) show ?thesis
    by (simp add: assms(5) registration_outcome_def say_def put_def)
next
  case False
  let ?regs = "map (declared_as takes carried \<circ> fst) (agents_dict agents)"
  let ?l = "declare_interjections ?regs (s_link s)"
  have answers: "takes_interjections ?l = (\<lambda>n. n \<in> fst ` set agents \<and> takes n)"
    by (rule ext) (rule declared_meant)
  have name: "dget (roster_frame takes provider_name agents) ''providerName'' =
      (case provider_name of None \<Rightarrow> JNull | Some n \<Rightarrow> n)"
    by (simp add: roster_frame_def register_frame_def Let_def split: option.splits)
  have "register_agents F (link_conn (s_link s)) (takes_interjections ?l) ?regs
      (dget (roster_frame takes provider_name agents) ''providerName'') (s_core s) = (result, calls, c')"
    unfolding answers name by (rule assms(2))
  note handled = on_register_parsed [OF roster_parsed [OF False assms(1)] this]
  have out: "outbound (link_calls calls ?l) = outbound (s_link s) @ map call_frame calls"
    by (simp add: link_calls_out link_frame_simps)
  show ?thesis
  proof (cases result)
    case (Inl e)
    with handled assms(4) False outcome_said [OF assms(3), of "s_link s" "error_frame (exn_text e)"]
      check_registered_frame(2) [of "exn_text e"] show ?thesis
      by (auto simp: assms(5) Let_def say_def put_def out split: if_splits)
  next
    case (Inr registered)
    with handled assms(4) False outcome_said [OF assms(3), of "s_link s"
        "[(''type'', JStr ''registered''), (''names'', JList (map JStr (sort (map fst registered))))]"]
      check_registered_frame(1) show ?thesis
      by (auto simp: assms(5) Let_def say_def put_def out split: if_splits)
  qed
qed

definition sample_roster :: "(string \<times> obj) list" where
  "sample_roster = [(''bob'', [(''name'', JStr ''bob'')])]"

theorem roster_published_witness:
  "\<exists>s'. on_register (sample_core []) (roster_frame (\<lambda>_. True) None sample_roster) (sample_session sample_state) = (None, s') \<and>
     registered_names (s_link s') = {''bob''} \<and>
     registration_outcome (outbound (s_link (sample_session sample_state))) (outbound (s_link s')) = Some None"
proof -
  let ?F = "sample_core []" and ?s = "sample_session sample_state"
  let ?carried = "\<lambda>n. declared_dump (\<lambda>_. True) (n, [(''name'', JStr n)])"
  let ?refs = "[(''bob'', \<lparr>ref_provider_key = ''key1'', ref_name = ''bob''\<rparr>)]"
  obtain x s' where r: "on_register ?F (roster_frame (\<lambda>_. True) None sample_roster) ?s = (x, s')" by fastforce
  have dict: "agents_dict sample_roster = sample_roster" by (simp add: agents_dict_def sample_roster_def)
  have reads: "\<forall>e \<in> set (agents_dict sample_roster). reads_back ?F (\<lambda>_. True) ?carried e"
    unfolding dict
    by (simp add: sample_roster_def reads_back_def declared_dump_def sample_core_def agent_name_match_def name_char_def
        less_eq_char_def)
  have asked: "register_agents ?F (link_conn (s_link ?s)) (\<lambda>n. n \<in> fst ` set sample_roster \<and> True)
      (map (declared_as (\<lambda>_. True) ?carried \<circ> fst) (agents_dict sample_roster))
      (case None of None \<Rightarrow> JNull | Some n \<Rightarrow> n) (s_core ?s) =
      (Inr ?refs, [], sample_state\<lparr>sm_agents := map snd ?refs\<rparr>)"
    unfolding dict
    by (simp add: sample_core_def sample_session_def sample_roster_def declared_as_def sample_state_def)
  have "sample_roster \<noteq> []" by (simp add: sample_roster_def)
  with roster_published [OF reads asked _ r refl] r show ?thesis by simp
qed

end
