(* ===== verification/Agui_Flow.thy ===== *)
theory Agui_Flow
  imports Agui_Door Caller_Client
begin

text \<open>
  A caller's run through the AG-UI door: \<open>SoukClient.run\<close> against the route that serves it. The client
  gets a thread, posts the run and reads the stream the gateway frames, one datum per event. What the
  library that reads server-sent events does with an answer that is no stream is an exception of its
  own.
\<close>

section \<open>The route\<close>

text \<open>\<open>None\<close> is the framework's refusal of a body that is no \<open>RunAgentInput\<close>.\<close>

definition run_agent_by_id ::
  "serializers \<Rightarrow> presenter_env \<Rightarrow> ('c, 'z) agui_core_scheme \<Rightarrow> (string \<Rightarrow> json option) \<Rightarrow> string \<Rightarrow> string \<Rightarrow>
   (string \<rightharpoonup> string) \<Rightarrow> string \<Rightarrow> ('c, exn, agui_reply option) call" where
  "run_agent_by_id S E F accept provider name headers raw =
     (case accept raw of
        None \<Rightarrow> ret_io None
      | Some body \<Rightarrow>
          bind_io (resolve_ref (resolve_agent F) provider name) (\<lambda>agent.
          bind_io (run_agent S E F agent body headers raw) (\<lambda>reply. ret_io (Some reply))))"

section \<open>The client\<close>

record run_request =
  rn_thread :: "string option"
  rn_message :: string
  rn_role :: string
  rn_forwarded :: obj
  rn_metadata :: obj
  rn_resume :: "json list option"
  rn_resolution :: "obj option"
  rn_run_id :: string
  rn_message_id :: string

definition not_a_stream :: exn where
  "not_a_stream = Exn (OtherExc ''SSEError'') []"

definition stream_broken :: exn where
  "stream_broken = Exn (OtherExc ''RemoteProtocolError'') []"

definition thread_for :: "('c, 'z) agui_core_scheme \<Rightarrow> string \<Rightarrow> string \<Rightarrow> run_request \<Rightarrow> ('c, exn, string) call" where
  "thread_for F provider name r =
     (case rn_thread r of
        Some t \<Rightarrow> ret_io t
      | None \<Rightarrow> catch_io (create_thread F provider name []) (\<lambda>e. raise_io http_refused))"

definition posted_run :: "string \<Rightarrow> run_request \<Rightarrow> json" where
  "posted_run thread_id r =
     JObj (run_body thread_id (rn_run_id r) (rn_message_id r) (rn_role r) (rn_message r)
       (caller_bag (rn_metadata r) (rn_forwarded r) (rn_resolution r)) (rn_resume r))"

text \<open>What the loop yields, the exception it ends with, and what the client remembers then.\<close>

fun read_stream ::
  "(string \<Rightarrow> exn + json) \<Rightarrow> bool \<Rightarrow> json \<Rightarrow> string list \<Rightarrow> exn option \<Rightarrow> tracked \<times> caller \<Rightarrow> obj list \<times> exn option \<times> caller" where
  "read_stream loads continues thread_id [] stop st = ([], map_option (\<lambda>_. stream_broken) stop, snd st)"
| "read_stream loads continues thread_id (datum # data) stop st =
     (case loads datum of
        Inl e \<Rightarrow> ([], Some e, snd st)
      | Inr (JObj event) \<Rightarrow>
          (case on_caller_event continues thread_id event st of
             Inl e \<Rightarrow> ([], Some e, snd st)
           | Inr st' \<Rightarrow>
               (case read_stream loads continues thread_id data stop st' of (events, e, c) \<Rightarrow> (event # events, e, c)))
      | Inr _ \<Rightarrow> ([], Some (Exn AttributeError ''get''), snd st))"

text \<open>
  The whole call. The address of the agent is written into the path as it is and the route is given its
  two parts; escaping of a path is the URL library's and not here, so a name is one whose characters
  a path carries unchanged, as the hex fingerprint before it is.
\<close>

definition client_run ::
  "(string \<Rightarrow> exn + json) \<Rightarrow> serializers \<Rightarrow> presenter_env \<Rightarrow> ('c, 'z) agui_core_scheme \<Rightarrow> (string \<Rightarrow> json option) \<Rightarrow>
   string \<Rightarrow> string \<Rightarrow> run_request \<Rightarrow> caller \<Rightarrow> 'c \<Rightarrow> (obj list \<times> exn option \<times> caller) \<times> 'c" where
  "client_run loads S E F accept provider name r c world =
     (case thread_for F provider name r world of
        (Inl e, world') \<Rightarrow> (([], Some e, c), world')
      | (Inr t, world') \<Rightarrow>
          (case run_agent_by_id S E F accept provider name (\<lambda>_. None) (dumps S (posted_run t r)) world' of
             (Inr (Some (EventReply events stop)), world'') \<Rightarrow>
               (read_stream loads (continues_lineage (JStr t) c) (JStr t) (map snd events) stop
                  (start_tracking (JStr t) c), world'')
           | (_, world'') \<Rightarrow> (([], Some not_a_stream, snd (start_tracking (JStr t) c)), world'')))"

section \<open>Facts\<close>

fun event_json :: "agui_event \<Rightarrow> json" where
  "event_json (TypedEvent j) = j"
| "event_json (MappingEvent j) = j"

lemma read_stream_tracks:
  assumes "list_all2 (\<lambda>datum event. loads datum = Inr (JObj event)) data events"
  shows "\<exists>seen x. read_stream loads k th data stop st = (seen, x, snd (track_events k th events st)) \<and>
    prefix seen events \<and> (x = None \<longrightarrow> seen = events \<and> stop = None)"
  using assms
proof (induction data events arbitrary: st rule: list_all2_induct)
  case Nil
  then show ?case by simp
next
  case (Cons datum data event events)
  show ?case
  proof (cases "on_caller_event k th event st")
    case (Inl e)
    with Cons.hyps show ?thesis by simp
  next
    case (Inr st')
    from Cons.IH [of st'] Cons.hyps Inr show ?thesis by auto
  qed
qed

lemma read_stream_plain:
  assumes "list_all2 (\<lambda>datum event. loads datum = Inr (JObj event)) data events"
    and "list_all plain_event events" and "list_all hashable (tr_announced (fst st))"
  shows "read_stream loads k th data stop st =
    (events, map_option (\<lambda>_. stream_broken) stop, snd (track_events k th events st))"
  using assms
proof (induction data events arbitrary: st rule: list_all2_induct)
  case Nil
  then show ?case by simp
next
  case (Cons datum data event events)
  obtain t c where st: "st = (t, c)" by (cases st)
  from Cons.prems have "plain_event event" "list_all hashable (tr_announced t)" and rest: "list_all plain_event events"
    by (simp_all add: st)
  from plain_step [OF this(1,2), of k th c] obtain t' c' where
    s: "on_caller_event k th event (t, c) = Inr (t', c')" and h: "list_all hashable (tr_announced t')" by blast
  from h have "list_all hashable (tr_announced (fst (t', c')))" by simp
  from Cons.IH [OF rest this] Cons.hyps s show ?case by (simp add: st)
qed

text \<open>What the route answers, from what core answers.\<close>

definition framed :: "serializers \<Rightarrow> agui_result \<Rightarrow> agui_reply" where
  "framed S result =
     (case result of
        ThreadSnapshot d \<Rightarrow> SnapshotReply d
      | EventStream events stop \<Rightarrow> EventReply (map (\<lambda>e. (''message'', encode_event S e)) events) stop)"

lemma route_answers:
  assumes "accept raw = Some input" and "resolve_agent F provider name w1 = (Inr (Some agent), w2)"
  shows "run_agent_by_id S E F accept provider name (\<lambda>_. None) raw w1 =
    (case agui_run F agent input None w2 of (Inl e, w3) \<Rightarrow> (Inl e, w3) | (Inr result, w3) \<Rightarrow> (Inr (Some (framed S result)), w3))"
  using assms
  by (cases agent) (simp add: run_agent_by_id_def run_agent_def resolve_ref_def ask_hook_def presenter_hook_def presenter_key_of_def
      framed_def io_simps split: prod.splits sum.splits)

section \<open>A run as its caller sees it\<close>

text \<open>C11. A caller sees core's own stream: whatever events core answers a run with, the client yields
  them, decoded, in their order, and all of them unless one is malformed or the stream broke, which
  it then says; and what it remembers is what those events say. A run that core refuses, or
  answers with a snapshot, yields nothing and raises, and the client has then forgotten what the
  thread waits on, so that a second attempt to answer it counts as a new task.\<close>

theorem caller_sees_the_stream:
  assumes "thread_for F provider name r world = (Inr t, w1)"
    and "accept (dumps S (posted_run t r)) = Some input"
    and "resolve_agent F provider name w1 = (Inr (Some agent), w2)"
    and "agui_run F agent input None w2 = (result, w3)"
    and "\<And>events stop event. result = Inr (EventStream events stop) \<Longrightarrow> event \<in> set events \<Longrightarrow>
           \<exists>ev. event_json event = JObj ev \<and> loads (encode_event S event) = Inr (JObj ev)"
  shows "case result of
      Inr (EventStream events stop) \<Rightarrow>
        (\<exists>evs seen x. map event_json events = map JObj evs \<and>
           client_run loads S E F accept provider name r c world =
             ((seen, x, Caller_Client.run_events (JStr t) evs c), w3) \<and>
           prefix seen evs \<and> (x = None \<longrightarrow> seen = evs \<and> stop = None) \<and>
           (list_all plain_event evs \<longrightarrow> seen = evs \<and> (x = None \<longleftrightarrow> stop = None)))
    | _ \<Rightarrow> (\<exists>c'. client_run loads S E F accept provider name r c world = (([], Some not_a_stream, c'), w3) \<and>
           c' = c\<lparr>c_thread := JStr t, c_asks := []\<rparr> \<and> \<not> continues_lineage (JStr t) c')"
proof -
  have run: "client_run loads S E F accept provider name r c world =
      (case result of
         Inr (EventStream events stop) \<Rightarrow>
           (read_stream loads (continues_lineage (JStr t) c) (JStr t) (map (encode_event S) events) stop
              (start_tracking (JStr t) c), w3)
       | _ \<Rightarrow> (([], Some not_a_stream, snd (start_tracking (JStr t) c)), w3))"
    using assms(4)
    by (simp add: client_run_def assms(1)
        route_answers [of accept "dumps S (posted_run t r)" input F provider name w1 agent w2, OF assms(2,3)] framed_def comp_def
        split: sum.splits agui_result.splits)
  show ?thesis
  proof (cases "\<exists>events stop. result = Inr (EventStream events stop)")
    case False
    then show ?thesis
      by (auto simp: run start_tracking_def continues_lineage_def split: sum.splits agui_result.splits)
  next
    case True
    then obtain events stop where result: "result = Inr (EventStream events stop)" by blast
    define evs where "evs = map (\<lambda>e. THE ev. event_json e = JObj ev) events"
    have each: "event_json e = JObj (THE ev. event_json e = JObj ev) \<and>
        loads (encode_event S e) = Inr (JObj (THE ev. event_json e = JObj ev))" if "e \<in> set events" for e
      using assms(5) [OF result that] by auto
    then have decoded: "list_all2 (\<lambda>datum event. loads datum = Inr (JObj event)) (map (encode_event S) events) evs"
      by (simp add: evs_def list_all2_map1 list_all2_map2) (rule list.rel_refl_strong, simp)
    have json: "map event_json events = map JObj evs" using each by (simp add: evs_def)
    have fresh: "list_all hashable (tr_announced (fst (start_tracking (JStr t) c)))" by (simp add: start_tracking_def)
    from read_stream_tracks [OF decoded, of "continues_lineage (JStr t) c" "JStr t" stop "start_tracking (JStr t) c"]
    obtain seen x where seen: "client_run loads S E F accept provider name r c world =
        ((seen, x, Caller_Client.run_events (JStr t) evs c), w3)" "prefix seen evs" "x = None \<longrightarrow> seen = evs \<and> stop = None"
      by (auto simp: run result run_events_def)
    have "seen = evs \<and> (x = None \<longleftrightarrow> stop = None)" if "list_all plain_event evs"
      using read_stream_plain [OF decoded that fresh, of "continues_lineage (JStr t) c" "JStr t" stop] seen(1)
      by (cases stop) (auto simp: run result)
    with seen json show ?thesis by (auto simp: result)
  qed
qed

definition stream_sample :: "sample agui_core" where
  "stream_sample = agui_sample
     \<lparr>agui_run := (\<lambda>a b k c. (Inr (EventStream [MappingEvent (JObj [(''type'', JStr ''RUN_STARTED''), (''runId'', JStr ''r1'')])] None), c)),
      resolve_agent := (\<lambda>p n c. (Inr (Some \<lparr>ref_provider_key = p, ref_name = n\<rparr>), c))\<rparr>"

definition plain_serializers :: serializers where
  "plain_serializers = \<lparr>dumps = (\<lambda>j. ''json''), dump_chunk = (\<lambda>j. ''json'')\<rparr>"

definition sample_request :: run_request where
  "sample_request =
     \<lparr>rn_thread = Some ''t1'', rn_message = ''hello'', rn_role = ''user'', rn_forwarded = [], rn_metadata = [],
      rn_resume = None, rn_resolution = None, rn_run_id = ''x'', rn_message_id = ''y''\<rparr>"

theorem caller_sees_the_stream_witness:
  "\<exists>c'. client_run (\<lambda>d. Inr (JObj [(''type'', JStr ''RUN_STARTED''), (''runId'', JStr ''r1'')])) plain_serializers sample_env
       stream_sample (\<lambda>raw. Some JNull) ''k1'' ''bob'' sample_request new_caller sample_state =
     (([[(''type'', JStr ''RUN_STARTED''), (''runId'', JStr ''r1'')]], None, c'), sample_state)"
proof -
  let ?ev = "[(''type'', JStr ''RUN_STARTED''), (''runId'', JStr ''r1'')]"
  let ?result = "Inr (EventStream [MappingEvent (JObj ?ev)] None) :: exn + agui_result"
  have t: "thread_for stream_sample ''k1'' ''bob'' sample_request sample_state = (Inr ''t1'', sample_state)"
    by (simp add: thread_for_def sample_request_def io_simps)
  have r: "resolve_agent stream_sample ''k1'' ''bob'' sample_state =
      (Inr (Some \<lparr>ref_provider_key = ''k1'', ref_name = ''bob''\<rparr>), sample_state)"
    by (simp add: stream_sample_def)
  have g: "agui_run stream_sample \<lparr>ref_provider_key = ''k1'', ref_name = ''bob''\<rparr> JNull None sample_state = (?result, sample_state)"
    by (simp add: stream_sample_def)
  have d: "\<exists>ev. event_json event = JObj ev \<and>
      (\<lambda>d. Inr (JObj ?ev)) (encode_event plain_serializers event) = (Inr (JObj ev) :: exn + json)"
    if "?result = Inr (EventStream events stop)" "event \<in> set events" for events stop event
    using that by auto
  have "list_all plain_event [?ev]" by (simp add: plain_event_def)
  with caller_sees_the_stream [where r = sample_request and accept = "\<lambda>raw. Some JNull" and S = plain_serializers
      and E = sample_env and c = new_caller, OF t refl r g d]
  show ?thesis by (auto simp: Cons_eq_map_conv map_eq_Cons_conv)
qed

end
