(* ===== verification/Delegation_Tasks.thy ===== *)
theory Delegation_Tasks
  imports Agent_Run
begin

text \<open>
  Delegations of one run at once. Every call of \<open>call_sub_agent\<close> reads its own stream with its own
  text and flags, while the dict of context ids and the progress queue are the run's, shared by all.
  Between two updates of a stream the other calls run; one pass of the loop does not wait, since
  putting on an unbounded queue never does.
\<close>

section \<open>The calls of a run\<close>

record call_task =
  ct_tool :: string
  ct_address :: address
  ct_stream :: "obj list"
  ct_broken :: "exn option"
  ct_seen :: nat
  ct_text :: string
  ct_failed :: bool
  ct_pending :: bool
  ct_result :: "(exn + string) option"

text \<open>The progress is kept with the number of the call that reported it.\<close>

record calls =
  ca_contexts :: "string \<rightharpoonup> json"
  ca_progress :: "(nat \<times> obj) list"
  ca_tasks :: "call_task list"

definition start_call :: "string \<Rightarrow> address \<Rightarrow> (address \<Rightarrow> json option \<Rightarrow> update_stream) \<Rightarrow> calls \<Rightarrow> calls" where
  "start_call n a stream s =
     s\<lparr>ca_tasks := ca_tasks s @
        [\<lparr>ct_tool = n, ct_address = a, ct_stream = fst (stream a (ca_contexts s n)),
          ct_broken = snd (stream a (ca_contexts s n)), ct_seen = 0, ct_text = [], ct_failed = False, ct_pending = False, ct_result = None\<rparr>]\<rparr>"

text \<open>What one call sees: its own text and flags, and the shared contexts.\<close>

definition view :: "call_task \<Rightarrow> (string \<rightharpoonup> json) \<Rightarrow> delegation" where
  "view t contexts =
     \<lparr>dl_text = ct_text t, dl_failed = ct_failed t, dl_pending = ct_pending t, dl_contexts = contexts,
      dl_progress = []\<rparr>"

definition next_update :: "nat \<Rightarrow> calls \<Rightarrow> calls" where
  "next_update i s =
     (let t = ca_tasks s ! i in
      case on_update (ct_tool t) (ct_address t) (ct_stream t ! ct_seen t) (view t (ca_contexts s)) of
        (x, v) \<Rightarrow>
          s\<lparr>ca_contexts := dl_contexts v,
            ca_progress := ca_progress s @ map (Pair i) (dl_progress v),
            ca_tasks := (ca_tasks s)[i := t\<lparr>ct_seen := Suc (ct_seen t), ct_text := dl_text v,
               ct_failed := dl_failed v, ct_pending := dl_pending v,
               ct_result := map_option Inl x\<rparr>]\<rparr>)"

text \<open>The stream has no more updates: it raises, or the loop is left and the call answers.\<close>

definition end_call :: "nat \<Rightarrow> calls \<Rightarrow> calls" where
  "end_call i s =
     (let t = ca_tasks s ! i in
      s\<lparr>ca_tasks := (ca_tasks s)[i := t\<lparr>ct_result :=
          Some (case ct_broken t of
                  Some e \<Rightarrow> Inl e
                | None \<Rightarrow> Inr (delegation_answer (ct_tool t) (view t (ca_contexts s))))\<rparr>]\<rparr>)"

inductive calls_step :: "calls \<Rightarrow> calls \<Rightarrow> bool" where
  t_starts: "calls_step s (start_call n a stream s)"
| t_update: "i < length (ca_tasks s) \<Longrightarrow> ct_result (ca_tasks s ! i) = None \<Longrightarrow>
    ct_seen (ca_tasks s ! i) < length (ct_stream (ca_tasks s ! i)) \<Longrightarrow> calls_step s (next_update i s)"
| t_ends: "i < length (ca_tasks s) \<Longrightarrow> ct_result (ca_tasks s ! i) = None \<Longrightarrow>
    ct_seen (ca_tasks s ! i) = length (ct_stream (ca_tasks s ! i)) \<Longrightarrow> calls_step s (end_call i s)"

definition calls_init :: "calls \<Rightarrow> bool" where
  "calls_init s \<longleftrightarrow> ca_progress s = [] \<and> ca_tasks s = []"

section \<open>Each call on its own\<close>

text \<open>The text and flags of a call do not depend on the contexts nor on the progress before it.\<close>

definition same_call :: "delegation \<Rightarrow> delegation \<Rightarrow> bool" where
  "same_call v w \<longleftrightarrow> dl_text v = dl_text w \<and> dl_failed v = dl_failed w \<and> dl_pending v = dl_pending w"

lemma same_call_answer: "same_call v w \<Longrightarrow> delegation_answer n v = delegation_answer n w"
  by (simp add: same_call_def delegation_answer_def)

lemma on_update_alike:
  assumes "same_call v w" and "on_update n a u v = (x, v')" and "on_update n a u w = (y, w')"
  shows "x = y \<and> same_call v' w'"
  using assms by (auto simp: on_update_def Let_def same_call_def split: sum.splits)

text \<open>The loop over a stream, one update more.\<close>

lemma on_updates_snoc:
  "on_updates n a (us @ [u]) v =
     (case on_updates n a us v of (None, w) \<Rightarrow> on_update n a u w | (Some e, w) \<Rightarrow> (Some e, w))"
  by (induction us arbitrary: v) (auto split: prod.splits option.splits)

definition fresh_view :: "(string \<rightharpoonup> json) \<Rightarrow> delegation" where
  "fresh_view contexts =
     \<lparr>dl_text = [], dl_failed = False, dl_pending = False, dl_contexts = contexts, dl_progress = []\<rparr>"

definition solo :: "call_task \<Rightarrow> (string \<rightharpoonup> json) \<Rightarrow> exn option \<times> delegation" where
  "solo t contexts = on_updates (ct_tool t) (ct_address t) (take (ct_seen t) (ct_stream t)) (fresh_view contexts)"

definition reports_of :: "nat \<Rightarrow> (nat \<times> obj) list \<Rightarrow> obj list" where
  "reports_of i ps = map snd (filter (\<lambda>p. fst p = i) ps)"

text \<open>
  A call has the text and flags it would have alone, has reported exactly the updates it read, and
  ended as it would have ended alone.
\<close>

definition as_alone :: "nat \<Rightarrow> (nat \<times> obj) list \<Rightarrow> call_task \<Rightarrow> bool" where
  "as_alone i ps t \<longleftrightarrow>
     ct_seen t \<le> length (ct_stream t) \<and>
     reports_of i ps = map (progress_event (ct_tool t) (ct_address t)) (take (ct_seen t) (ct_stream t)) \<and>
     (\<forall>contexts. same_call (view t contexts) (snd (solo t contexts)) \<and>
        (case ct_result t of
           None \<Rightarrow> fst (solo t contexts) = None
         | Some (Inl e) \<Rightarrow>
             fst (solo t contexts) = Some e \<or>
             fst (solo t contexts) = None \<and> ct_seen t = length (ct_stream t) \<and> ct_broken t = Some e
         | Some (Inr answer) \<Rightarrow>
             fst (solo t contexts) = None \<and> ct_broken t = None \<and> ct_seen t = length (ct_stream t) \<and>
             answer = delegation_answer (ct_tool t) (snd (solo t contexts))))"

definition calls_inv :: "calls \<Rightarrow> bool" where
  "calls_inv s \<longleftrightarrow>
     (\<forall>p \<in> set (ca_progress s). fst p < length (ca_tasks s)) \<and>
     (\<forall>i < length (ca_tasks s). as_alone i (ca_progress s) (ca_tasks s ! i))"

lemma reports_of_append [simp]: "reports_of i (ps @ qs) = reports_of i ps @ reports_of i qs"
  by (simp add: reports_of_def)

lemma reports_of_map [simp]: "reports_of i (map (Pair j) fs) = (if i = j then fs else [])"
  by (induction fs) (auto simp: reports_of_def)

lemma reports_of_single [simp]: "reports_of i [(j, f)] = (if i = j then [f] else [])"
  by (simp add: reports_of_def)

lemma reports_of_none: "\<forall>p \<in> set ps. fst p \<noteq> i \<Longrightarrow> reports_of i ps = []"
  by (induction ps) (auto simp: reports_of_def)

lemma calls_inv_start: "calls_inv s \<Longrightarrow> calls_inv (start_call n a stream s)"
proof -
  assume inv: "calls_inv s"
  then have "reports_of (length (ca_tasks s)) (ca_progress s) = []"
    by (intro reports_of_none) (auto simp: calls_inv_def)
  with inv show ?thesis
    by (auto simp: calls_inv_def start_call_def nth_append as_alone_def solo_def fresh_view_def view_def same_call_def
        less_Suc_eq)
qed

lemma calls_inv_update:
  assumes inv: "calls_inv s" and i: "i < length (ca_tasks s)" and run: "ct_result (ca_tasks s ! i) = None"
    and more: "ct_seen (ca_tasks s ! i) < length (ct_stream (ca_tasks s ! i))"
  shows "calls_inv (next_update i s)"
proof -
  let ?t = "ca_tasks s ! i" and ?u = "ct_stream (ca_tasks s ! i) ! ct_seen (ca_tasks s ! i)"
  obtain x v where step: "on_update (ct_tool ?t) (ct_address ?t) ?u (view ?t (ca_contexts s)) = (x, v)"
    by fastforce
  define t' where "t' = ?t\<lparr>ct_seen := Suc (ct_seen ?t), ct_text := dl_text v, ct_failed := dl_failed v,
      ct_pending := dl_pending v, ct_result := map_option Inl x\<rparr>"
  have next_eq: "next_update i s = s\<lparr>ca_contexts := dl_contexts v,
      ca_progress := ca_progress s @ map (Pair i) (dl_progress v), ca_tasks := (ca_tasks s)[i := t']\<rparr>"
    using step by (simp add: next_update_def Let_def t'_def)
  have prog: "dl_progress v = [progress_event (ct_tool ?t) (ct_address ?t) ?u]"
    using on_update_keeps [OF step] by (simp add: view_def)
  have alone: "as_alone i (ca_progress s) ?t" using inv i by (simp add: calls_inv_def)
  have tk: "take (Suc (ct_seen ?t)) (ct_stream ?t) = take (ct_seen ?t) (ct_stream ?t) @ [?u]"
    using more by (rule take_Suc_conv_app_nth)
  have solo': "same_call v (snd (solo t' contexts)) \<and> fst (solo t' contexts) = x" for contexts
  proof -
    have before: "fst (solo ?t contexts) = None" "same_call (view ?t contexts) (snd (solo ?t contexts))"
      using alone run by (auto simp: as_alone_def)
    obtain y w where w: "on_update (ct_tool ?t) (ct_address ?t) ?u (snd (solo ?t contexts)) = (y, w)" by fastforce
    have "solo t' contexts = (y, w)"
      using before(1) w by (cases "solo ?t contexts") (simp add: solo_def t'_def tk on_updates_snoc)
    moreover have "same_call (view ?t (ca_contexts s)) (snd (solo ?t contexts))"
      using before(2) by (simp add: same_call_def view_def)
    ultimately show ?thesis using on_update_alike [OF _ step w] by auto
  qed
  have "as_alone i (ca_progress (next_update i s)) t'"
    unfolding next_eq as_alone_def using alone more solo' tk
    by (auto simp: as_alone_def t'_def prog view_def same_call_def split: option.splits)
  moreover have "as_alone j (ca_progress (next_update i s)) (ca_tasks s ! j)" if "j < length (ca_tasks s)" "j \<noteq> i" for j
    using inv that by (auto simp: calls_inv_def as_alone_def next_eq)
  ultimately show ?thesis
    using inv i by (auto simp: calls_inv_def next_eq nth_list_update)
qed

lemma calls_inv_end:
  assumes inv: "calls_inv s" and i: "i < length (ca_tasks s)" and run: "ct_result (ca_tasks s ! i) = None"
    and fin: "ct_seen (ca_tasks s ! i) = length (ct_stream (ca_tasks s ! i))"
  shows "calls_inv (end_call i s)"
proof -
  let ?t = "ca_tasks s ! i"
  let ?t' = "?t\<lparr>ct_result := Some (case ct_broken ?t of
      Some e \<Rightarrow> Inl e | None \<Rightarrow> Inr (delegation_answer (ct_tool ?t) (view ?t (ca_contexts s))))\<rparr>"
  have alone: "as_alone i (ca_progress s) ?t" using inv i by (simp add: calls_inv_def)
  have "delegation_answer (ct_tool ?t) (view ?t (ca_contexts s)) =
      delegation_answer (ct_tool ?t) (snd (solo ?t contexts))" for contexts
    using alone by (intro same_call_answer) (simp add: as_alone_def same_call_def view_def)
  then have "as_alone i (ca_progress s) ?t'"
    using alone run fin by (cases "ct_broken ?t") (auto simp: as_alone_def solo_def view_def same_call_def)
  with inv i show ?thesis
    by (auto simp: calls_inv_def end_call_def Let_def nth_list_update)
qed

lemma calls_inv_step: "calls_inv s \<Longrightarrow> calls_step s t \<Longrightarrow> calls_inv t"
  by (erule calls_step.cases) (auto intro: calls_inv_start calls_inv_update calls_inv_end)

interpretation tv: machine_invariant calls_init calls_step calls_inv
  by unfold_locales (simp add: calls_init_def calls_inv_def, fact calls_inv_step)

section \<open>Delegations at once are delegations alone\<close>

lemma on_updates_stays:
  "on_updates n a us v = (Some e, w) \<Longrightarrow> on_updates n a (us @ vs) v = (Some e, w)"
  by (induction us arbitrary: v) (auto split: prod.splits option.splits)

text \<open>C6. Delegations a run makes at once do not disturb each other: however their streams interleave,
  each call reports its own updates in their order, and when it ends, with an answer or with an
  exception, its own or its stream's, it ends exactly as the same stream read by a call alone would have, whatever the other
  calls did to the conversations they share.\<close>

theorem delegations_independent:
  assumes "reach calls_init calls_step s" and "i < length (ca_tasks s)" and "t = ca_tasks s ! i"
  shows "prefix (reports_of i (ca_progress s)) (map (progress_event (ct_tool t) (ct_address t)) (ct_stream t)) \<and>
    (\<forall>r explain contexts. ct_result t = Some r \<longrightarrow>
       fst (call_sub_agent (ct_tool t) (Inr (ct_address t)) explain (\<lambda>a c. (ct_stream t, ct_broken t)) contexts) = r)"
proof -
  have alone: "as_alone i (ca_progress s) t"
    using tv.reach_inv [OF assms(1)] assms(2,3) by (simp add: calls_inv_def)
  have "fst (call_sub_agent (ct_tool t) (Inr (ct_address t)) explain (\<lambda>a c. (ct_stream t, ct_broken t)) contexts) = r"
    if r: "ct_result t = Some r" for r explain contexts
  proof (cases r)
    case (Inl e)
    then have "fst (solo t contexts) = Some e \<or>
        fst (solo t contexts) = None \<and> ct_seen t = length (ct_stream t) \<and> ct_broken t = Some e"
      using alone r unfolding as_alone_def by simp
    then show ?thesis
    proof (elim disjE conjE)
      assume "fst (solo t contexts) = Some e"
      then obtain w where "solo t contexts = (Some e, w)" by (metis prod.collapse)
      then have "on_updates (ct_tool t) (ct_address t) (ct_stream t) (fresh_view contexts) = (Some e, w)"
        unfolding solo_def by (metis append_take_drop_id on_updates_stays)
      with Inl show ?thesis by (simp add: call_sub_agent_def read_updates_def fresh_view_def)
    next
      assume "fst (solo t contexts) = None" "ct_seen t = length (ct_stream t)" "ct_broken t = Some e"
      with Inl show ?thesis
        by (cases "solo t contexts") (simp add: call_sub_agent_def read_updates_def solo_def fresh_view_def)
    qed
  next
    case (Inr answer)
    then have "fst (solo t contexts) = None" "ct_broken t = None" "ct_seen t = length (ct_stream t)"
      "answer = delegation_answer (ct_tool t) (snd (solo t contexts))"
      using alone r by (auto simp: as_alone_def)
    then show ?thesis
      using Inr by (cases "solo t contexts") (simp add: call_sub_agent_def read_updates_def solo_def fresh_view_def)
  qed
  moreover have "prefix (reports_of i (ca_progress s)) (map (progress_event (ct_tool t) (ct_address t)) (ct_stream t))"
    using alone by (simp add: as_alone_def take_map [symmetric] take_is_prefix)
  ultimately show ?thesis by blast
qed

text \<open>
  Two sub-agents asked at once, the second sending an update between those of the first and breaking
  after it.
\<close>

definition stream_raised :: exn where
  "stream_raised = Exn RuntimeError ''SendStreamingMessage failed''"

definition two_asked :: calls where
  "two_asked =
     start_call ''poet'' (row_address ''https://souk'' (two_stalls ! 0)) (\<lambda>a c. (take 1 sample_updates, Some stream_raised))
       (start_call ''scribe'' (row_address ''https://souk'' (two_stalls ! 1)) (\<lambda>a c. (sample_updates, None))
          \<lparr>ca_contexts = Map.empty, ca_progress = [], ca_tasks = []\<rparr>)"

definition two_answered :: calls where
  "two_answered = end_call 1 (end_call 0 (next_update 0 (next_update 1 (next_update 0 two_asked))))"

lemmas two_calls_simps =
  two_asked_def two_answered_def start_call_def next_update_def end_call_def on_update_def update_context_def
  update_state_def update_parts_def as_obj_def py_or_def Let_def view_def sample_updates_def

lemma two_answered_reach: "reach calls_init calls_step two_answered"
proof -
  let ?s = "\<lparr>ca_contexts = Map.empty, ca_progress = [], ca_tasks = []\<rparr>"
  have "reach calls_init calls_step ?s" by (rule reach_start) (simp add: calls_init_def)
  then have "reach calls_init calls_step two_asked"
    unfolding two_asked_def by (meson reach_next t_starts)
  moreover have "calls_step two_asked (next_update 0 two_asked)"
    by (rule t_update) (simp_all add: two_calls_simps)
  moreover have "calls_step (next_update 0 two_asked) (next_update 1 (next_update 0 two_asked))"
    by (rule t_update) (simp_all add: two_calls_simps)
  moreover have "calls_step (next_update 1 (next_update 0 two_asked)) (next_update 0 (next_update 1 (next_update 0 two_asked)))"
    by (rule t_update) (simp_all add: two_calls_simps)
  moreover have "calls_step (next_update 0 (next_update 1 (next_update 0 two_asked)))
      (end_call 0 (next_update 0 (next_update 1 (next_update 0 two_asked))))"
    by (rule t_ends) (simp_all add: two_calls_simps)
  moreover have "calls_step (end_call 0 (next_update 0 (next_update 1 (next_update 0 two_asked)))) two_answered"
    unfolding two_answered_def by (rule t_ends) (simp_all add: two_calls_simps)
  ultimately show ?thesis by (meson reach_next)
qed

theorem delegations_independent_witness:
  "fst (call_sub_agent ''scribe'' (Inr (row_address ''https://souk'' (two_stalls ! 1))) (\<lambda>e. [])
     (\<lambda>a c. (sample_updates, None)) Map.empty) = Inr (unavailable ''scribe'') \<and>
   fst (call_sub_agent ''poet'' (Inr (row_address ''https://souk'' (two_stalls ! 0))) (\<lambda>e. [])
     (\<lambda>a c. (take 1 sample_updates, Some stream_raised)) Map.empty) = Inl stream_raised"
proof -
  have len: "0 < length (ca_tasks two_answered)" "1 < length (ca_tasks two_answered)" by (simp_all add: two_calls_simps)
  have t: "ct_result (ca_tasks two_answered ! 0) = Some (Inr (unavailable ''scribe''))"
    "ct_tool (ca_tasks two_answered ! 0) = ''scribe''" "ct_stream (ca_tasks two_answered ! 0) = sample_updates"
    "ct_address (ca_tasks two_answered ! 0) = row_address ''https://souk'' (two_stalls ! 1)"
    "ct_broken (ca_tasks two_answered ! 0) = None"
    by (simp_all add: two_calls_simps delegation_answer_def)
  have u: "ct_result (ca_tasks two_answered ! 1) = Some (Inl stream_raised)"
    "ct_tool (ca_tasks two_answered ! 1) = ''poet''" "ct_stream (ca_tasks two_answered ! 1) = take 1 sample_updates"
    "ct_address (ca_tasks two_answered ! 1) = row_address ''https://souk'' (two_stalls ! 0)"
    "ct_broken (ca_tasks two_answered ! 1) = Some stream_raised"
    by (simp_all add: two_calls_simps delegation_answer_def)
  show ?thesis
    using delegations_independent [OF two_answered_reach len(1) refl]
      delegations_independent [OF two_answered_reach len(2) refl] unfolding t u by blast
qed

end
