(* ===== verification/Registry.thy ===== *)
theory Registry
  imports Settings Agent_Client Kyok_Bridge Pydantic_Agent
begin

text \<open>
  \<open>souk_server/models.py\<close> and \<open>api_registry.py\<close> against their readers: the ticket a client asks for and
  reads, and the rosters, row by row, as the gateway serves them and the callers' clients resolve
  names in them.
\<close>

section \<open>Tickets\<close>

text \<open>\<open>TicketRequest\<close>: the field under its alias or else its own name, a string of at least one character.\<close>

definition ticket_request :: "obj \<Rightarrow> string option" where
  "ticket_request body =
     (case (case map_of body ''publicKey'' of None \<Rightarrow> map_of body ''public_key'' | Some v \<Rightarrow> Some v) of
        Some (JStr key) \<Rightarrow> if key = [] then None else Some key
      | _ \<Rightarrow> None)"

text \<open>The route: \<open>None\<close> is the framework's own refusal of the body, 422.\<close>

definition post_tickets ::
  "(string \<Rightarrow> ('c, exn, string) call) \<Rightarrow> string \<Rightarrow> obj \<Rightarrow> ('c, exn, obj option) call" where
  "post_tickets issue identity_key body =
     (case ticket_request body of
        None \<Rightarrow> ret_io None
      | Some key \<Rightarrow> bind_io (issue_ticket issue identity_key key) (\<lambda>answer. ret_io (Some answer)))"

text \<open>What both clients post.\<close>

definition ticket_body :: "string \<Rightarrow> obj" where
  "ticket_body key = [(''publicKey'', JStr key)]"

section \<open>Rosters\<close>

text \<open>
  A response model built from keyword arguments: its own fields in their order, a default where one
  is declared and nothing was given, an error where none is, and nothing else. The values are the
  core's dumps, of the declared types.
\<close>

fun model_row :: "(string \<times> json option) list \<Rightarrow> obj \<Rightarrow> exn + obj" where
  "model_row [] kwargs = Inr []"
| "model_row ((k, dflt) # decls) kwargs =
     (case (case map_of kwargs k of None \<Rightarrow> dflt | Some v \<Rightarrow> Some v) of
        None \<Rightarrow> Inl (Exn ValueError k)
      | Some v \<Rightarrow> (case model_row decls kwargs of Inl e \<Rightarrow> Inl e | Inr row \<Rightarrow> Inr ((k, v) # row)))"

definition AgentRosterEntry :: "(string \<times> json option) list" where
  "AgentRosterEntry =
     [(''provider_key'', None), (''fingerprint'', None), (''name'', None), (''description'', Some (JStr [])),
      (''skills'', Some (JList [])), (''joined_at'', None), (''last_seen_at'', None), (''online'', None),
      (''provider_name'', Some JNull)]"

definition LlmOfferingEntry :: "(string \<times> json option) list" where
  "LlmOfferingEntry =
     [(''provider_key'', None), (''fingerprint'', None), (''name'', None), (''metadata'', Some (JObj [])),
      (''joined_at'', None), (''last_seen_at'', None), (''online'', None), (''provider_name'', Some JNull)]"

fun model_rows :: "(string \<times> json option) list \<Rightarrow> obj list \<Rightarrow> exn + json list" where
  "model_rows decls [] = Inr []"
| "model_rows decls (d # ds) =
     (case model_row decls d of
        Inl e \<Rightarrow> Inl e
      | Inr row \<Rightarrow> (case model_rows decls ds of Inl e \<Rightarrow> Inl e | Inr rows \<Rightarrow> Inr (JObj row # rows)))"

definition roster_answer ::
  "string \<Rightarrow> (string \<times> json option) list \<Rightarrow> ('c, exn, obj list) call \<Rightarrow> ('c, exn, obj) call" where
  "roster_answer key decls kwargs =
     bind_io kwargs (\<lambda>ds. case model_rows decls ds of
        Inl e \<Rightarrow> raise_io e | Inr rows \<Rightarrow> ret_io [(key, JList rows)])"

definition get_agents :: "(string \<Rightarrow> string) \<Rightarrow> ('c, exn, (string \<times> obj) list) call \<Rightarrow> ('c, exn, obj) call" where
  "get_agents fp summaries = roster_answer ''agents'' AgentRosterEntry (list_agents fp summaries)"

definition get_llm_providers :: "(string \<Rightarrow> string) \<Rightarrow> ('c, exn, (string \<times> obj) list) call \<Rightarrow> ('c, exn, obj) call" where
  "get_llm_providers fp summaries = roster_answer ''offerings'' LlmOfferingEntry (list_agents fp summaries)"

text \<open>A summary of core's, with the fields a roster row takes of it, and its dump.\<close>

record listing =
  ls_key :: string
  ls_name :: string
  ls_description :: string
  ls_skills :: "json list"
  ls_joined :: string
  ls_seen :: string
  ls_online :: bool
  ls_provider_name :: "string option"

definition listing_dump :: "listing \<Rightarrow> string \<times> obj" where
  "listing_dump l =
     (ls_key l,
      [(''provider_key'', JStr (ls_key l)), (''name'', JStr (ls_name l)),
       (''description'', JStr (ls_description l)), (''skills'', JList (ls_skills l)),
       (''joined_at'', JStr (ls_joined l)), (''last_seen_at'', JStr (ls_seen l)),
       (''online'', JBool (ls_online l)), (''provider_name'', opt_str (ls_provider_name l))])"

text \<open>The row a caller's client makes of it.\<close>

definition seen_as :: "(string \<Rightarrow> string) \<Rightarrow> listing \<Rightarrow> listed_agent" where
  "seen_as fp l =
     \<lparr>la_provider = JStr (fp (ls_key l)), la_name = JStr (ls_name l), la_provider_key = JStr (ls_key l),
      la_description = JStr (ls_description l), la_online = JBool (ls_online l),
      la_provider_name = opt_str (ls_provider_name l)\<rparr>"

lemma row_read:
  "\<exists>row. model_row AgentRosterEntry (roster_entry fp (listing_dump l)) = Inr row \<and> roster_row (JObj row) = Inr (seen_as fp l)"
  by (simp add: AgentRosterEntry_def roster_entry_def listing_dump_def seen_as_def)

lemma rows_read:
  "\<exists>rows. model_rows AgentRosterEntry (map (roster_entry fp) (map listing_dump ls)) = Inr rows \<and>
     roster_rows rows = Inr (map (seen_as fp) ls)"
proof (induction ls)
  case Nil
  then show ?case by simp
next
  case (Cons l ls)
  with row_read [of fp l] show ?case by (auto simp del: roster_row.simps)
qed

lemma get_agents_read:
  assumes "summaries c = (Inr (map listing_dump ls), c')"
  shows "\<exists>rows. get_agents fp summaries c = (Inr [(''agents'', JList rows)], c') \<and>
    roster_rows rows = Inr (map (seen_as fp) ls)"
  using rows_read [of fp ls] assms
  by (auto simp: get_agents_def roster_answer_def list_agents_def io_simps)

lemma wanted_seen: "wanted name provider (seen_as fp l) \<longleftrightarrow>
    ls_name l = name \<and> (case provider of None \<Rightarrow> True | Some p \<Rightarrow> p = fp (ls_key l) \<or> p = ls_key l)"
  by (auto simp: wanted_def seen_as_def split: option.splits)

lemma filter_wanted_seen:
  "filter (wanted name provider) (map (seen_as fp) ls) =
   map (seen_as fp) (filter (\<lambda>l. wanted name provider (seen_as fp l)) ls)"
  by (simp add: filter_map comp_def)

lemma resolve_seen:
  assumes "resolve name provider (map (seen_as fp) ls) = Inr a"
  shows "\<exists>l \<in> set ls. a = seen_as fp l \<and> ls_name l = name"
proof -
  from assms obtain l where "filter (\<lambda>l. wanted name provider (seen_as fp l)) ls = [l]" and a: "a = seen_as fp l"
    unfolding resolve_def filter_wanted_seen by (auto split: list.splits)
  then have "l \<in> set (filter (\<lambda>l. wanted name provider (seen_as fp l)) ls)" by simp
  with a show ?thesis by (auto simp: wanted_seen)
qed

section \<open>What the registry promises its readers\<close>

text \<open>A ticket asked for is a ticket read: for every non-empty key the body a client posts is
  admitted, core issues for exactly that key, and both clients read from the answer the ticket and
  the gateway's own key, unless they pinned another, and then they stop.\<close>

theorem ticket_roundtrip:
  assumes "issue key c = (Inr ticket, c')" and "key \<noteq> []" and "ticket \<noteq> []" and "identity \<noteq> []"
  shows "\<exists>data. post_tickets issue identity (ticket_body key) c = (Inr (Some data), c') \<and>
    (if pinned = None \<or> pinned = Some identity then read_ticket E pinned data = Inr (ticket, identity)
     else \<exists>e. read_ticket E pinned data = Inl e) \<and>
    (if b_pinned B = None \<or> b_pinned B = Some identity then bridge_ticket B data = Inr (JStr ticket, JStr identity)
     else \<exists>e. bridge_ticket B data = Inl e)"
  using assms
  by (auto simp: post_tickets_def ticket_body_def ticket_request_def issue_ticket_def io_simps read_ticket_def
      bridge_ticket_def split: option.splits)

definition registry_bridge :: bridge_env where
  "registry_bridge =
     \<lparr>b_sign = (\<lambda>k t n. ''proof''), b_answer_ok = (\<lambda>k a t n. True), b_validate = Inr, b_key = ''key1'',
      b_offering = ''kyok'', b_pinned = Some ''f2'', b_ephemeral = True\<rparr>"

theorem ticket_roundtrip_witness:
  "\<exists>data. post_tickets (\<lambda>key c. (Inr ''t1'', c)) ''f1'' (ticket_body ''key1'') () = (Inr (Some data), ()) \<and>
     read_ticket sample_client_env (Some ''f1'') data = Inr (''t1'', ''f1'') \<and>
     (\<exists>e. bridge_ticket registry_bridge data = Inl e)"
  using ticket_roundtrip [of "\<lambda>key c. (Inr ''t1'', c)" "''key1''" "()" "''t1''" "()" "''f1''" "Some ''f1''"
      sample_client_env registry_bridge]
  by (simp add: registry_bridge_def)

text \<open>C34. Whoever is listed can be called: the roster the gateway serves is read by the caller's client
  row by row; a name that resolves in it gives the address of a listed agent of that name, and a name
  one listing bears always resolves; and the address is the same wherever it is written, in the
  client's path, in the delegating provider's url, in the agent's card and by the docent.\<close>

theorem listed_agents_reachable:
  assumes "summaries c = (Inr (map listing_dump ls), c')"
  shows "\<exists>rows roster. get_agents fp summaries c = (Inr [(''agents'', JList rows)], c') \<and>
    roster_rows rows = Inr roster \<and>
    (\<forall>name provider a. resolve name provider roster = Inr a \<longrightarrow>
       (\<exists>l \<in> set ls. ls_name l = name \<and> la_provider_key a = JStr (ls_key l) \<and>
          agent_path a = fp (ls_key l) @ ''/'' @ name \<and>
          ad_url (row_address (rstrip_slash base) a) =
            interface_url fp base \<lparr>ref_provider_key = ls_key l, ref_name = name\<rparr>)) \<and>
    (\<forall>name l. filter (\<lambda>l. ls_name l = name) ls = [l] \<longrightarrow> resolve name None roster = Inr (seen_as fp l)) \<and>
    (fingerprint D = fp \<and> base_url D = base \<longrightarrow>
       (\<forall>s. dget (describe_agent D s) ''a2a_endpoint'' =
          JStr (interface_url fp base \<lparr>ref_provider_key = ag_key s, ref_name = ag_name s\<rparr>)))"
proof -
  obtain rows where rows: "get_agents fp summaries c = (Inr [(''agents'', JList rows)], c')"
    "roster_rows rows = Inr (map (seen_as fp) ls)"
    using get_agents_read [of summaries c, OF assms] by blast
  have "\<exists>l \<in> set ls. ls_name l = name \<and> la_provider_key a = JStr (ls_key l) \<and>
      agent_path a = fp (ls_key l) @ ''/'' @ name \<and>
      ad_url (row_address (rstrip_slash base) a) =
        interface_url fp base \<lparr>ref_provider_key = ls_key l, ref_name = name\<rparr>"
    if "resolve name provider (map (seen_as fp) ls) = Inr a" for name provider a
    using resolve_seen [OF that]
    by (auto simp: agent_path_def row_address_def interface_url_def seen_as_def py_str_def)
  moreover have "resolve name None (map (seen_as fp) ls) = Inr (seen_as fp l)"
    if "filter (\<lambda>l. ls_name l = name) ls = [l]" for name l
    using that by (simp add: resolve_def filter_wanted_seen wanted_seen)
  moreover have "dget (describe_agent D s) ''a2a_endpoint'' =
      JStr (interface_url fp base \<lparr>ref_provider_key = ag_key s, ref_name = ag_name s\<rparr>)"
    if "fingerprint D = fp" "base_url D = base" for s
    using that by (simp add: describe_agent_def interface_url_def Let_def)
  ultimately show ?thesis using rows by blast
qed

definition sample_listing1 :: listing where
  "sample_listing1 =
     \<lparr>ls_key = ''key1'', ls_name = ''bob'', ls_description = [], ls_skills = [], ls_joined = ''2025-01-01'',
      ls_seen = ''2025-01-02'', ls_online = True, ls_provider_name = None\<rparr>"

theorem listed_agents_reachable_witness:
  "\<exists>rows roster. get_agents (take 4) (\<lambda>c. (Inr [listing_dump sample_listing1], c)) () = (Inr [(''agents'', JList rows)], ()) \<and>
     roster_rows rows = Inr roster \<and> resolve ''bob'' None roster = Inr (seen_as (take 4) sample_listing1)"
proof -
  have s: "(\<lambda>c. (Inr [listing_dump sample_listing1], c)) () = (Inr (map listing_dump [sample_listing1]) :: exn + _, ())"
    by simp
  have "filter (\<lambda>l. ls_name l = ''bob'') [sample_listing1] = [sample_listing1]" by (simp add: sample_listing1_def)
  then show ?thesis
    using listed_agents_reachable [of "\<lambda>c. (Inr [listing_dump sample_listing1], c)" "()" "[sample_listing1]" "()"
        "take 4" "''http://souk''" sample_docent, OF s] by blast
qed

end
