(* ===== verification/Serving.thy ===== *)
theory Serving
  imports Settings
begin

text \<open>
  \<open>souk_server/server.py\<close> and \<open>ServingSettings\<close>: how the gateway is put together around a core, and the
  order in which it brings core up, serves, and closes it. The world of a call is the record of what
  has happened so far; what core, the docent and the HTTP server answer are arguments.
\<close>

section \<open>The settings of the serving layer\<close>

record serving_settings =
  http_host :: string
  http_port :: int
  cors_allow_origins :: "string list"
  mcp_allowed_hosts :: "string list"
  public_http_url :: string
  http_tls_cert_path :: "string option"
  http_tls_key_path :: "string option"

definition serving_defaults :: serving_settings where
  "serving_defaults =
     \<lparr>http_host = ''0.0.0.0'', http_port = 8000, cors_allow_origins = [''*''], mcp_allowed_hosts = [''*''],
      public_http_url = ''http://localhost:8000'', http_tls_cert_path = None, http_tls_key_path = None\<rparr>"

section \<open>The app\<close>

datatype surface = HealthRoutes | RegistryRoutes | AguiRoutes | A2aRoutes | LlmBridgeRoutes | ProviderSocket | KyokSocket

record gateway_app =
  app_title :: string
  app_settings :: serving_settings
  app_cors :: "string list \<times> string list \<times> string list"
  app_error_handlers :: bool
  app_routers :: "surface list"
  app_mounts :: "(string \<times> string \<times> transport_security) list"

text \<open>The docent answers under \<open>/mcp\<close>, knows the public address and keeps to the host policy.\<close>

definition create_app :: "serving_settings \<Rightarrow> gateway_app" where
  "create_app serving =
     \<lparr>app_title = ''souk'', app_settings = serving,
      app_cors = (cors_allow_origins serving, [''*''], [''*'']),
      app_error_handlers = True,
      app_routers = [HealthRoutes, RegistryRoutes, AguiRoutes, A2aRoutes, LlmBridgeRoutes, ProviderSocket, KyokSocket],
      app_mounts = [(''/mcp'', public_http_url serving, transport_security_for (mcp_allowed_hosts serving))]\<rparr>"

section \<open>The life of the process\<close>

datatype happening =
    CoreBuilt
  | PlaintextWarned string int
  | CoreStarted "string list"
  | OrphansWarned nat "string list"
  | DocentUp
  | Handled nat
  | DocentDown
  | CoreClosed

type_synonym 'a hosting = "(happening list, exn, 'a) call"

definition happens :: "happening \<Rightarrow> unit hosting" where
  "happens h = (\<lambda>past. (Inr (), past @ [h]))"

definition yields :: "exn + 'a \<Rightarrow> 'a hosting" where
  "yields r = (case r of Inl e \<Rightarrow> raise_io e | Inr x \<Rightarrow> ret_io x)"

text \<open>\<open>try: m finally: f\<close>.\<close>

definition finally_io :: "('c, 'e, 'a) call \<Rightarrow> ('c, 'e, 'b) call \<Rightarrow> ('c, 'e, 'a) call" where
  "finally_io m f = (\<lambda>c. case m c of (r, c') \<Rightarrow> (case f c' of (Inl e, c'') \<Rightarrow> (Inl e, c'') | (Inr _, c'') \<Rightarrow> (r, c'')))"

record server_config =
  sc_app :: gateway_app
  sc_host :: string
  sc_port :: int
  sc_ssl_certfile :: "string option"
  sc_ssl_keyfile :: "string option"

text \<open>
  What the surroundings answer: the readers and constructor of core's settings, core's constructor,
  the environment's serving settings, core's \<open>start\<close> (the runs it declared orphaned), the entry and
  exit of the docent's session manager, core's \<open>aclose\<close>, and the HTTP server, which is given the app
  with the two halves of its lifespan.
\<close>

record 's surroundings =
  su_readers :: number_readers
  su_core_settings :: "(string \<times> setting) list \<Rightarrow> exn + 's"
  su_core :: "'s \<Rightarrow> exn + unit"
  su_serving :: "exn + serving_settings"
  su_start :: "exn + string list"
  su_docent_up :: "exn + unit"
  su_docent_down :: "exn + unit"
  su_aclose :: "exn + unit"
  su_serve :: "server_config \<Rightarrow> unit hosting \<Rightarrow> unit hosting \<Rightarrow> unit hosting"

text \<open>\<open>lifespan\<close>, before its \<open>yield\<close> and after it.\<close>

definition lifespan_up :: "'s surroundings \<Rightarrow> unit hosting" where
  "lifespan_up E =
     bind_io (yields (su_start E)) (\<lambda>orphaned.
     bind_io (happens (CoreStarted orphaned)) (\<lambda>_.
     bind_io (if orphaned = [] then ret_io () else happens (OrphansWarned (length orphaned) orphaned)) (\<lambda>_.
     bind_io (yields (su_docent_up E)) (\<lambda>_.
     happens DocentUp))))"

definition lifespan_down :: "'s surroundings \<Rightarrow> unit hosting" where
  "lifespan_down E = bind_io (happens DocentDown) (\<lambda>_. yields (su_docent_down E))"

definition set_path :: "string option \<Rightarrow> bool" where
  "set_path p = (case p of None \<Rightarrow> False | Some s \<Rightarrow> s \<noteq> [])"

definition server_config_of :: "serving_settings \<Rightarrow> server_config" where
  "server_config_of serving =
     \<lparr>sc_app = create_app serving, sc_host = http_host serving, sc_port = http_port serving,
      sc_ssl_certfile = http_tls_cert_path serving, sc_ssl_keyfile = http_tls_key_path serving\<rparr>"

definition close_core :: "'s surroundings \<Rightarrow> unit hosting" where
  "close_core E = bind_io (happens CoreClosed) (\<lambda>_. yields (su_aclose E))"

text \<open>\<open>_serve\<close>.\<close>

definition serve :: "'s surroundings \<Rightarrow> (string \<rightharpoonup> string) \<Rightarrow> unit hosting" where
  "serve E environ =
     bind_io (yields (core_settings_from_env (su_readers E) (su_core_settings E) environ)) (\<lambda>settings.
     bind_io (yields (su_core E settings)) (\<lambda>_.
     bind_io (happens CoreBuilt) (\<lambda>_.
     bind_io (yields (su_serving E)) (\<lambda>serving.
     bind_io (if set_path (http_tls_cert_path serving) \<and> set_path (http_tls_key_path serving) then ret_io ()
              else happens (PlaintextWarned (http_host serving) (http_port serving))) (\<lambda>_.
     finally_io (su_serve E (server_config_of serving) (lifespan_up E) (lifespan_down E)) (close_core E))))))"

section \<open>Facts\<close>

text \<open>
  The documented behaviour of an ASGI server that runs the lifespan: startup first; if it raised,
  nothing is served; otherwise requests are handled, and then the shutdown is run, unless the server
  was forced to exit.
\<close>

definition asgi_server :: "(server_config \<Rightarrow> unit hosting \<Rightarrow> unit hosting \<Rightarrow> unit hosting) \<Rightarrow> bool" where
  "asgi_server srv \<longleftrightarrow> (\<forall>cfg up down past.
     case up past of
       (Inl e, past') \<Rightarrow> snd (srv cfg up down past) = past'
     | (Inr _, past') \<Rightarrow> \<exists>requests. snd (srv cfg up down past) \<in>
         {past' @ map Handled requests, snd (down (past' @ map Handled requests))})"

definition up_log :: "'s surroundings \<Rightarrow> happening list" where
  "up_log E = snd (lifespan_up E [])"

lemma happens_app [io_simps]: "happens h past = (Inr (), past @ [h])"
  by (simp add: happens_def)

lemma yields_app [io_simps]: "yields r past = (r, past)"
  by (simp add: yields_def io_simps split: sum.splits)

lemma finally_app [io_simps]:
  "snd (finally_io m f c) = snd (f (snd (m c)))"
  by (simp add: finally_io_def split: prod.splits sum.splits)

lemma lifespan_up_log:
  "lifespan_up E past = (fst (lifespan_up E []), past @ up_log E)"
  by (simp add: lifespan_up_def up_log_def io_simps split: sum.splits)

lemma lifespan_down_log: "snd (lifespan_down E past) = past @ [DocentDown]"
  by (simp add: lifespan_down_def io_simps split: sum.splits)

lemma close_core_log: "snd (close_core E past) = past @ [CoreClosed]"
  by (simp add: close_core_def io_simps split: sum.splits)

definition orphan_log :: "string list \<Rightarrow> happening list" where
  "orphan_log orphaned = (if orphaned = [] then [] else [OrphansWarned (length orphaned) orphaned])"

lemma up_log_cases:
  "up_log E = (case su_start E of Inl e \<Rightarrow> [] | Inr orphaned \<Rightarrow>
     CoreStarted orphaned # orphan_log orphaned @ (case su_docent_up E of Inl e \<Rightarrow> [] | Inr _ \<Rightarrow> [DocentUp]))"
  "(\<exists>x. fst (lifespan_up E []) = Inr x) \<longleftrightarrow> (\<exists>os. su_start E = Inr os) \<and> (\<exists>x. su_docent_up E = Inr x)"
  by (auto simp: lifespan_up_def up_log_def orphan_log_def io_simps split: sum.splits)

definition served_log :: "'s surroundings \<Rightarrow> happening list \<Rightarrow> bool" where
  "served_log E tail \<longleftrightarrow>
     (if (\<exists>os. su_start E = Inr os) \<and> (\<exists>x. su_docent_up E = Inr x)
      then \<exists>requests. tail \<in> {map Handled requests, map Handled requests @ [DocentDown]} else tail = [])"

lemma asgi_log:
  assumes "asgi_server srv"
  shows "\<exists>tail. snd (srv cfg (lifespan_up E) (lifespan_down E) past) = past @ up_log E @ tail \<and> served_log E tail"
proof -
  have "case lifespan_up E past of
       (Inl e, past') \<Rightarrow> snd (srv cfg (lifespan_up E) (lifespan_down E) past) = past'
     | (Inr _, past') \<Rightarrow> \<exists>requests. snd (srv cfg (lifespan_up E) (lifespan_down E) past) \<in>
         {past' @ map Handled requests, snd (lifespan_down E (past' @ map Handled requests))}"
    by (rule assms [unfolded asgi_server_def, THEN spec, THEN spec, THEN spec, THEN spec])
  then show ?thesis
    unfolding lifespan_up_log [of E past] served_log_def up_log_cases(2) [symmetric]
    by (cases "fst (lifespan_up E [])") (auto simp: lifespan_down_log)
qed

definition core_settings_of :: "'s surroundings \<Rightarrow> (string \<rightharpoonup> string) \<Rightarrow> exn + 's" where
  "core_settings_of E environ = core_settings_from_env (su_readers E) (su_core_settings E) environ"

definition core_comes_up :: "'s surroundings \<Rightarrow> (string \<rightharpoonup> string) \<Rightarrow> bool" where
  "core_comes_up E environ =
     (case core_settings_of E environ of Inl e \<Rightarrow> False | Inr s \<Rightarrow> su_core E s = Inr ())"

definition plaintext_log :: "serving_settings \<Rightarrow> happening list" where
  "plaintext_log serving =
     (if set_path (http_tls_cert_path serving) \<and> set_path (http_tls_key_path serving) then []
      else [PlaintextWarned (http_host serving) (http_port serving)])"

lemma serve_log:
  assumes "asgi_server (su_serve E)"
  shows "\<exists>tail. snd (serve E environ []) =
     (if \<not> core_comes_up E environ then []
      else CoreBuilt # (case su_serving E of Inl e \<Rightarrow> []
        | Inr serving \<Rightarrow> plaintext_log serving @ up_log E @ tail @ [CoreClosed])) \<and> served_log E tail"
proof (cases "su_serving E")
  case (Inl e)
  have "\<exists>tail. served_log E tail" by (auto simp: served_log_def)
  with Inl show ?thesis
    by (auto simp: serve_def core_comes_up_def core_settings_of_def io_simps split: sum.splits)
next
  case (Inr serving)
  from asgi_log [OF assms, of "server_config_of serving" E "CoreBuilt # plaintext_log serving"]
  obtain tail where tail: "snd (su_serve E (server_config_of serving) (lifespan_up E) (lifespan_down E)
      (CoreBuilt # plaintext_log serving)) = (CoreBuilt # plaintext_log serving) @ up_log E @ tail" "served_log E tail"
    by blast
  show ?thesis
    by (rule exI [of _ tail])
       (use Inr tail in \<open>auto simp: serve_def core_comes_up_def core_settings_of_def plaintext_log_def io_simps
          close_core_log split: sum.splits if_splits\<close>)
qed

section \<open>What the process promises\<close>

lemma split_after:
  assumes "A @ B = before @ h # after" and "h \<notin> set A"
  shows "\<exists>mid. before = A @ mid \<and> B = mid @ h # after"
  using assms by (auto simp: append_eq_append_conv2 append_eq_Cons_conv)

lemma up_log_unhandled: "Handled r \<notin> set (up_log E)" "Handled r \<notin> set (plaintext_log serving)"
    "CoreClosed \<notin> set (up_log E)" "CoreClosed \<notin> set (plaintext_log serving)"
  by (auto simp: up_log_cases(1) orphan_log_def plaintext_log_def split: sum.splits)

lemma handled_after_up:
  assumes "CoreBuilt # plaintext_log serving @ up_log E @ tail @ [CoreClosed] = before @ Handled r # after"
    and "served_log E tail"
  shows "\<exists>orphaned. su_start E = Inr orphaned \<and>
    set (CoreBuilt # CoreStarted orphaned # DocentUp # orphan_log orphaned) \<subseteq> set before \<and> DocentDown \<notin> set before"
proof -
  from split_after [of "CoreBuilt # plaintext_log serving @ up_log E" "tail @ [CoreClosed]" before "Handled r" after] assms(1)
  obtain mid where before: "before = (CoreBuilt # plaintext_log serving @ up_log E) @ mid"
    and rest: "tail @ [CoreClosed] = mid @ Handled r # after"
    by (auto simp: up_log_unhandled)
  then have "Handled r \<in> set (tail @ [CoreClosed])" by simp
  then have "Handled r \<in> set tail" by simp
  with assms(2) obtain orphaned where up: "su_start E = Inr orphaned" "\<exists>x. su_docent_up E = Inr x"
    by (auto simp: served_log_def split: if_splits)
  with assms(2) obtain requests where "tail = map Handled requests \<or> tail = map Handled requests @ [DocentDown]"
    by (auto simp: served_log_def)
  with rest have "DocentDown \<notin> set mid"
    by (auto simp: append_eq_append_conv2 append_eq_Cons_conv Cons_eq_append_conv append_eq_map_conv)
  with up show ?thesis
    by (auto simp: before up_log_cases(1) orphan_log_def plaintext_log_def)
qed

text \<open>C10. Under a server that runs the lifespan as documented, whatever happens: no request is handled
  before core was started and the docent's sessions were entered, with the orphaned runs of the last
  process reported first, nor after the docent went down; core is closed at most once, as the last
  thing; and it is closed exactly when it came up and the serving settings could be read, so that a
  core whose serving settings are invalid is never closed. The plaintext warning is given unless
  both halves of a certificate are set.\<close>

theorem serves_a_started_core:
  assumes "asgi_server (su_serve E)" and "past = snd (serve E environ [])"
  shows "(\<forall>before r after. past = before @ Handled r # after \<longrightarrow>
       (\<exists>orphaned. su_start E = Inr orphaned \<and>
          set (CoreBuilt # CoreStarted orphaned # DocentUp # orphan_log orphaned) \<subseteq> set before \<and>
          DocentDown \<notin> set before)) \<and>
    CoreClosed \<notin> set (butlast past) \<and>
    (CoreClosed \<in> set past \<longleftrightarrow> CoreBuilt \<in> set past \<and> (\<exists>serving. su_serving E = Inr serving)) \<and>
    (\<forall>serving. su_serving E = Inr serving \<and> core_comes_up E environ \<longrightarrow>
       (PlaintextWarned (http_host serving) (http_port serving) \<in> set past \<longleftrightarrow>
          \<not> (set_path (http_tls_cert_path serving) \<and> set_path (http_tls_key_path serving))))"
proof -
  obtain tail where past: "past =
     (if \<not> core_comes_up E environ then []
      else CoreBuilt # (case su_serving E of Inl e \<Rightarrow> []
        | Inr serving \<Rightarrow> plaintext_log serving @ up_log E @ tail @ [CoreClosed]))" and tail: "served_log E tail"
    using serve_log [OF assms(1), of environ] unfolding assms(2) by blast
  from tail have no_close: "CoreClosed \<notin> set tail" "PlaintextWarned h p \<notin> set tail" for h p
    by (auto simp: served_log_def split: if_splits)
  show ?thesis
  proof (cases "core_comes_up E environ \<and> (\<exists>serving. su_serving E = Inr serving)")
    case True
    then obtain serving where serving: "su_serving E = Inr serving" and up: "core_comes_up E environ" by blast
    then have p: "past = CoreBuilt # plaintext_log serving @ up_log E @ tail @ [CoreClosed]" by (simp add: past)
    have "PlaintextWarned h q \<notin> set (up_log E)" for h q
      by (auto simp: up_log_cases(1) orphan_log_def split: sum.splits)
    with no_close show ?thesis
      using handled_after_up [of serving E tail] tail up serving
      unfolding p by (auto simp: up_log_unhandled butlast_append plaintext_log_def)
  next
    case False
    then show ?thesis by (auto simp: past Cons_eq_append_conv split: sum.splits)
  qed
qed

definition sample_surroundings :: "unit surroundings" where
  "sample_surroundings =
     \<lparr>su_readers = sample_readers, su_core_settings = (\<lambda>_. Inr ()), su_core = Inr, su_serving = Inr serving_defaults,
      su_start = Inr [''r1''], su_docent_up = Inr (), su_docent_down = Inr (), su_aclose = Inr (),
      su_serve = (\<lambda>cfg up down past. case up past of (Inl e, past') \<Rightarrow> (Inr (), past')
        | (Inr _, past') \<Rightarrow> down (past' @ [Handled 1]))\<rparr>"

theorem serves_a_started_core_witness:
  "CoreClosed \<in> set (snd (serve sample_surroundings (\<lambda>_. None) [])) \<and>
   CoreClosed \<notin> set (butlast (snd (serve sample_surroundings (\<lambda>_. None) []))) \<and>
   PlaintextWarned ''0.0.0.0'' 8000 \<in> set (snd (serve sample_surroundings (\<lambda>_. None) []))"
proof -
  have a: "asgi_server (su_serve sample_surroundings)"
    unfolding asgi_server_def
    by (auto simp: sample_surroundings_def split: sum.splits prod.splits intro!: exI [of _ "[1]"])
  have c: "core_comes_up sample_surroundings (\<lambda>_. None)"
    by (simp add: core_comes_up_def core_settings_of_def core_settings_from_env_def sample_surroundings_def CORE_ENV_def)
  have s: "su_serving sample_surroundings = Inr serving_defaults" by (simp add: sample_surroundings_def)
  from serves_a_started_core [OF a refl, of "\<lambda>_. None"] c s serve_log [OF a, of "\<lambda>_. None"]
  show ?thesis by (auto simp: serving_defaults_def set_path_def)
qed

end
