(* ===== verification/Identity.thy ===== *)
theory Identity
  imports Agent_Client "HOL-Library.Word"
begin

unbundle bit_operations_syntax

text \<open>
  \<open>souk_agent_sdk/identity.py\<close>: the key file that makes a restarted provider the same provider, and the
  actor chains started and extended with the key. A path is the list of its components; of the file
  system it keeps what the code reads and changes: directories, files and the files' permissions.
  Keys, their encoding and the chain's hops are the cryptography and contract packages' own.
\<close>

section \<open>Files\<close>

datatype node = DirNode | FileNode string "9 word"

type_synonym path = "string list"
type_synonym filesystem = "path \<rightharpoonup> node"

definition node_at :: "filesystem \<Rightarrow> path \<Rightarrow> node option" where
  "node_at fs p = (if p = [] then Some DirNode else fs p)"

definition os_error :: "string \<Rightarrow> exn" where
  "os_error name = Exn (OtherExc name) name"

text \<open>What the operating system may refuse; a refused write leaves what it had written so far.\<close>

record os_answers =
  mkdir_refused :: "path \<Rightarrow> exn option"
  write_refused :: "(exn \<times> nat) option"
  chmod_refused :: "exn option"
  umask :: "9 word"

text \<open>\<open>path.mkdir(parents=True, exist_ok=True)\<close>: the missing directories, outermost first.\<close>

definition make_dir :: "os_answers \<Rightarrow> path \<Rightarrow> (filesystem, exn, unit) call" where
  "make_dir S p = (\<lambda>fs. case node_at fs p of
      Some DirNode \<Rightarrow> (Inr (), fs)
    | Some (FileNode _ _) \<Rightarrow> (Inl (os_error ''FileExistsError''), fs)
    | None \<Rightarrow> (case mkdir_refused S p of Some e \<Rightarrow> (Inl e, fs) | None \<Rightarrow> (Inr (), fs(p \<mapsto> DirNode))))"

fun make_dirs :: "os_answers \<Rightarrow> path list \<Rightarrow> (filesystem, exn, unit) call" where
  "make_dirs S [] = ret_io ()"
| "make_dirs S (p # ps) = bind_io (make_dir S p) (\<lambda>_. make_dirs S ps)"

definition make_parents :: "os_answers \<Rightarrow> path \<Rightarrow> (filesystem, exn, unit) call" where
  "make_parents S p = make_dirs S (prefixes (butlast p))"

definition read_bytes :: "path \<Rightarrow> (filesystem, exn, string) call" where
  "read_bytes p = (\<lambda>fs. (case node_at fs p of
      Some (FileNode raw mode) \<Rightarrow> Inr raw
    | Some DirNode \<Rightarrow> Inl (os_error ''IsADirectoryError'')
    | None \<Rightarrow> Inl (os_error ''FileNotFoundError''), fs))"

text \<open>A new file is readable and writable by whomever the umask does not exclude.\<close>

definition write_bytes :: "os_answers \<Rightarrow> path \<Rightarrow> string \<Rightarrow> (filesystem, exn, unit) call" where
  "write_bytes S p raw = (\<lambda>fs.
     let mode = (case node_at fs p of Some (FileNode _ m) \<Rightarrow> m | _ \<Rightarrow> 0b110110110 AND NOT (umask S)) in
     case write_refused S of
       Some (e, n) \<Rightarrow> (Inl e, fs(p \<mapsto> FileNode (take n raw) mode))
     | None \<Rightarrow> (Inr (), fs(p \<mapsto> FileNode raw mode)))"

definition chmod :: "os_answers \<Rightarrow> path \<Rightarrow> 9 word \<Rightarrow> (filesystem, exn, unit) call" where
  "chmod S p mode = (\<lambda>fs. case chmod_refused S of
      Some e \<Rightarrow> (Inl e, fs)
    | None \<Rightarrow> (Inr (), case node_at fs p of Some (FileNode raw _) \<Rightarrow> fs(p \<mapsto> FileNode raw mode) | _ \<Rightarrow> fs))"

section \<open>The identity\<close>

record 'k keys =
  from_private_bytes :: "string \<Rightarrow> exn + 'k"
  private_bytes_raw :: "'k \<Rightarrow> string"
  public_bytes_raw :: "'k \<Rightarrow> string"
  signature_bytes :: "'k \<Rightarrow> string \<Rightarrow> string"
  contract_new_chain :: "'k \<Rightarrow> string list"
  contract_extend_chain :: "'k \<Rightarrow> string list \<Rightarrow> string list"

text \<open>The key a generation would give is an argument.\<close>

definition load_or_create_identity :: "'k keys \<Rightarrow> os_answers \<Rightarrow> 'k \<Rightarrow> path \<Rightarrow> (filesystem, exn, 'k) call" where
  "load_or_create_identity K S generated p = (\<lambda>fs.
     if node_at fs p \<noteq> None
     then bind_io (read_bytes p) (\<lambda>raw. \<lambda>fs. (from_private_bytes K raw, fs)) fs
     else (let raw = private_bytes_raw K generated in
       bind_io (make_parents S p) (\<lambda>_.
       bind_io (write_bytes S p raw) (\<lambda>_.
       bind_io (chmod S p 0b110000000) (\<lambda>_.
       ret_io generated))) fs))"

definition hex_digit :: "nat \<Rightarrow> char" where
  "hex_digit d = ''0123456789abcdef'' ! d"

definition hex :: "string \<Rightarrow> string" where
  "hex bytes = concat (map (\<lambda>c. [hex_digit (of_char c div 16), hex_digit (of_char c mod 16)]) bytes)"

definition public_key_hex :: "'k keys \<Rightarrow> 'k \<Rightarrow> string" where
  "public_key_hex K k = hex (public_bytes_raw K k)"

definition identity_sign :: "'k keys \<Rightarrow> 'k \<Rightarrow> string \<Rightarrow> string" where
  "identity_sign K k payload = hex (signature_bytes K k payload)"

text \<open>The subject given to a new chain is ignored.\<close>

definition new_actor_chain :: "'k keys \<Rightarrow> 'k \<Rightarrow> obj option \<Rightarrow> string list" where
  "new_actor_chain K k subject = contract_new_chain K k"

definition extend_actor_chain :: "'k keys \<Rightarrow> 'k \<Rightarrow> string list \<Rightarrow> exn + string list" where
  "extend_actor_chain K k prev_chain =
     (if prev_chain = []
      then Inl (Exn ValueError (''extend_actor_chain requires a non-empty prev_chain '' @ em_dash @
             '' use new_actor_chain to originate one''))
      else Inr (contract_extend_chain K k prev_chain))"

text \<open>
  \<open>SoukProvider.__init__\<close>: the directory of the key is made, and the provider package's own
  \<open>load_or_create\<close> is given the path.
\<close>

definition provider_key :: "os_answers \<Rightarrow> (path \<Rightarrow> (filesystem, exn, 'k) call) \<Rightarrow> path \<Rightarrow> (filesystem, exn, 'k) call" where
  "provider_key S package_load p = bind_io (make_parents S p) (\<lambda>_. package_load p)"

section \<open>Facts\<close>

lemma node_at_update [simp]: "p \<noteq> [] \<Longrightarrow> node_at (fs(p \<mapsto> n)) q = (if q = p then Some n else node_at fs q)"
  by (simp add: node_at_def)

text \<open>Directories are only ever added, and only where nothing was.\<close>

definition only_grows :: "filesystem \<Rightarrow> filesystem \<Rightarrow> bool" where
  "only_grows fs fs' \<longleftrightarrow> (\<forall>q. node_at fs q \<noteq> None \<longrightarrow> node_at fs' q = node_at fs q)"

lemma only_grows_refl [simp]: "only_grows fs fs"
  by (simp add: only_grows_def)

lemma only_grows_trans: "only_grows fs fs' \<Longrightarrow> only_grows fs' fs'' \<Longrightarrow> only_grows fs fs''"
  unfolding only_grows_def by metis

lemma make_dir_grows:
  assumes "make_dir S p fs = (r, fs')"
  shows "only_grows fs fs' \<and> (\<forall>q. q \<noteq> p \<longrightarrow> node_at fs' q = node_at fs q) \<and> (r = Inr () \<longrightarrow> node_at fs' p = Some DirNode)"
  using assms
  by (cases "p = []") (auto simp: make_dir_def only_grows_def node_at_def split: option.splits node.splits if_splits)

lemma make_dirs_grows:
  "make_dirs S ps fs = (r, fs') \<Longrightarrow> only_grows fs fs' \<and> (\<forall>q. q \<notin> set ps \<longrightarrow> node_at fs' q = node_at fs q) \<and>
     (r = Inr () \<longrightarrow> (\<forall>q \<in> set ps. node_at fs' q = Some DirNode))"
proof (induction ps arbitrary: fs)
  case Nil
  then show ?case by (simp add: io_simps)
next
  case (Cons p ps)
  obtain r1 fs1 where m: "make_dir S p fs = (r1, fs1)" by fastforce
  note d = make_dir_grows [OF m]
  show ?case
  proof (cases r1)
    case (Inl e)
    with Cons.prems m d show ?thesis by (auto simp: io_simps)
  next
    case (Inr u)
    with Cons.prems m have "make_dirs S ps fs1 = (r, fs')" by (simp add: io_simps)
    from Cons.IH [OF this] d Inr show ?thesis
      by (auto intro: only_grows_trans simp: only_grows_def)
  qed
qed

lemma make_parents_grows:
  assumes "make_parents S p fs = (r, fs')"
  shows "only_grows fs fs'" "p \<noteq> [] \<Longrightarrow> node_at fs' p = node_at fs p"
proof -
  note d = make_dirs_grows [OF assms [unfolded make_parents_def]]
  then show "only_grows fs fs'" by blast
  show "node_at fs' p = node_at fs p" if "p \<noteq> []"
  proof -
    have "p \<notin> set (prefixes (butlast p))"
    proof
      assume "p \<in> set (prefixes (butlast p))"
      then have "length p \<le> length (butlast p)" by (metis in_set_prefixes prefix_length_le)
      with that length_greater_0_conv [of p] show False unfolding length_butlast by linarith
    qed
    with d show ?thesis by blast
  qed
qed

lemma load_existing:
  assumes "node_at fs p = Some (FileNode raw mode)"
  shows "load_or_create_identity K S generated p fs = (from_private_bytes K raw, fs)"
  using assms by (simp add: load_or_create_identity_def read_bytes_def io_simps split: sum.splits)

lemma write_bytes_new:
  assumes "write_bytes S p raw fs = (Inr (), fs')"
  shows "\<exists>mode. fs' = fs(p \<mapsto> FileNode raw mode)"
  using assms by (auto simp: write_bytes_def Let_def split: option.splits)

text \<open>A key is created: its parents, then the file with the key's bytes, open to its owner only.\<close>

lemma create_identity:
  assumes "load_or_create_identity K S generated p fs = (Inr k, fs')" and "node_at fs p = None"
  shows "k = generated \<and> only_grows fs fs' \<and> node_at fs' p = Some (FileNode (private_bytes_raw K k) 0b110000000)"
proof -
  from assms(2) have p: "p \<noteq> []" by (auto simp: node_at_def)
  from assms obtain fs1 fs2 fs3 where
    parents: "make_parents S p fs = (Inr (), fs1)" and
    "write": "write_bytes S p (private_bytes_raw K generated) fs1 = (Inr (), fs2)" and
    mode: "chmod S p 0b110000000 fs2 = (Inr (), fs3)" and k: "k = generated" "fs' = fs3"
    by (auto simp: load_or_create_identity_def Let_def io_simps split: prod.splits sum.splits)
  from write_bytes_new [OF "write"] obtain m where fs2: "fs2 = fs1(p \<mapsto> FileNode (private_bytes_raw K generated) m)"
    by blast
  from mode p have fs3: "fs3 = fs2(p \<mapsto> FileNode (private_bytes_raw K generated) 0b110000000)"
    unfolding fs2 by (auto simp: chmod_def split: option.splits)
  have "only_grows fs fs3"
    using make_parents_grows [OF parents] assms(2) p unfolding fs3 fs2 by (auto simp: only_grows_def)
  with k fs3 p show ?thesis by simp
qed

lemma load_file:
  assumes "load_or_create_identity K S generated p fs = (Inr k, fs')" and "node_at fs p \<noteq> None"
  shows "fs' = fs \<and> (\<exists>raw mode. node_at fs p = Some (FileNode raw mode) \<and> from_private_bytes K raw = Inr k)"
  using assms
  by (auto simp: load_or_create_identity_def read_bytes_def io_simps split: prod.splits sum.splits node.splits)

text \<open>Every file and directory lies in directories.\<close>

definition tree_shaped :: "filesystem \<Rightarrow> bool" where
  "tree_shaped fs \<longleftrightarrow> (\<forall>q. node_at fs q \<noteq> None \<longrightarrow> (\<forall>r \<in> set (prefixes (butlast q)). node_at fs r = Some DirNode))"

lemma make_dirs_there: "\<forall>q \<in> set ps. node_at fs q = Some DirNode \<Longrightarrow> make_dirs S ps fs = (Inr (), fs)"
  by (induction ps) (auto simp: io_simps make_dir_def)

lemma make_parents_there: "tree_shaped fs \<Longrightarrow> node_at fs p \<noteq> None \<Longrightarrow> make_parents S p fs = (Inr (), fs)"
  unfolding tree_shaped_def make_parents_def by (blast intro: make_dirs_there)

text \<open>
  The permissions are narrowed only after the key was written, and a file that is there is taken as
  it is: when the narrowing fails, the key stays readable to whomever the umask lets read, and the
  next start accepts it.
\<close>

lemma unnarrowed_key_accepted:
  assumes "from_private_bytes K (private_bytes_raw K generated) = Inr generated"
    and "node_at fs p = None" and "make_parents S p fs = (Inr (), fs1)"
    and "write_refused S = None" and "chmod_refused S = Some e"
  shows "\<exists>fs'. load_or_create_identity K S generated p fs = (Inl e, fs') \<and>
    node_at fs' p = Some (FileNode (private_bytes_raw K generated) (0b110110110 AND NOT (umask S))) \<and>
    load_or_create_identity K S' other p fs' = (Inr generated, fs')"
proof -
  from assms(2) have p: "p \<noteq> []" by (auto simp: node_at_def)
  let ?fs = "fs1(p \<mapsto> FileNode (private_bytes_raw K generated) (0b110110110 AND NOT (umask S)))"
  have "node_at fs1 p = None" using make_parents_grows(2) [OF assms(3) p] assms(2) by simp
  then have "load_or_create_identity K S generated p fs = (Inl e, ?fs)"
    using assms p by (simp add: load_or_create_identity_def io_simps write_bytes_def chmod_def)
  moreover have there: "node_at ?fs p = Some (FileNode (private_bytes_raw K generated) (0b110110110 AND NOT (umask S)))"
    using p by simp
  ultimately show ?thesis using load_existing [OF there, of K S' other] assms(1) by simp
qed

section \<open>What the key file promises\<close>

text \<open>C35. An identity outlives the process: once a start got a key from a path, every later start,
  however the file system has grown since and whatever key it would have generated, gets the same key
  and changes nothing, and so does the provider's own loader; a key newly made is stored whole, with
  permissions for its owner only, a key found is left as it is, and no other file is touched.\<close>

theorem identity_persists:
  assumes "\<And>key. from_private_bytes K (private_bytes_raw K key) = Inr key"
    and "load_or_create_identity K S generated p fs = (Inr k, fs')"
    and "\<And>fs raw mode. node_at fs p = Some (FileNode raw mode) \<Longrightarrow> package_load p fs = (from_private_bytes K raw, fs)"
  shows "only_grows fs fs' \<and>
    (if node_at fs p = None
     then k = generated \<and> node_at fs' p = Some (FileNode (private_bytes_raw K k) 0b110000000) else fs' = fs) \<and>
    (\<forall>later S' other. only_grows fs' later \<longrightarrow>
       load_or_create_identity K S' other p later = (Inr k, later) \<and>
       (tree_shaped later \<longrightarrow> provider_key S' package_load p later = (Inr k, later)))"
proof -
  have new: "only_grows fs fs' \<and> (if node_at fs p = None
     then k = generated \<and> node_at fs' p = Some (FileNode (private_bytes_raw K k) 0b110000000) else fs' = fs)"
    using create_identity [OF assms(2)] load_file [OF assms(2)] by auto
  obtain raw mode where "file": "node_at fs' p = Some (FileNode raw mode)" "from_private_bytes K raw = Inr k"
    using create_identity [OF assms(2)] load_file [OF assms(2)] assms(1) by (cases "node_at fs p") blast+
  have "load_or_create_identity K S' other p later = (Inr k, later) \<and>
      (tree_shaped later \<longrightarrow> provider_key S' package_load p later = (Inr k, later))" if "only_grows fs' later" for later S' other
  proof -
    from that "file" have there: "node_at later p = Some (FileNode raw mode)" unfolding only_grows_def by simp
    then have "tree_shaped later \<Longrightarrow> make_parents S' p later = (Inr (), later)" by (intro make_parents_there) simp_all
    with "file"(2) load_existing [OF there, of K S' other] assms(3) [OF there] show ?thesis by (simp add: provider_key_def io_simps)
  qed
  with new show ?thesis by blast
qed

definition sample_keys :: "string keys" where
  "sample_keys =
     \<lparr>from_private_bytes = Inr, private_bytes_raw = (\<lambda>k. k), public_bytes_raw = (\<lambda>k. k), signature_bytes = (\<lambda>k m. m),
      contract_new_chain = (\<lambda>k. [k]), contract_extend_chain = (\<lambda>k c. c @ [k])\<rparr>"

definition sample_os :: os_answers where
  "sample_os = \<lparr>mkdir_refused = (\<lambda>_. None), write_refused = None, chmod_refused = None, umask = 0b000010010\<rparr>"

theorem identity_persists_witness:
  "\<exists>fs'. load_or_create_identity sample_keys sample_os ''k1'' [''data'', ''souk.key''] Map.empty = (Inr ''k1'', fs') \<and>
     node_at fs' [''data'', ''souk.key''] = Some (FileNode ''k1'' 0b110000000) \<and>
     load_or_create_identity sample_keys sample_os ''k2'' [''data'', ''souk.key''] fs' = (Inr ''k1'', fs')"
proof -
  define fs' where "fs' = snd (load_or_create_identity sample_keys sample_os ''k1'' [''data'', ''souk.key''] Map.empty)"
  have created: "load_or_create_identity sample_keys sample_os ''k1'' [''data'', ''souk.key''] Map.empty = (Inr ''k1'', fs')"
    unfolding fs'_def
    by (simp add: load_or_create_identity_def sample_keys_def sample_os_def node_at_def make_parents_def make_dir_def
        write_bytes_def chmod_def io_simps)
  have loads: "from_private_bytes sample_keys (private_bytes_raw sample_keys key) = Inr key" for key
    by (simp add: sample_keys_def)
  note persists = identity_persists [OF loads created,
      where package_load = "\<lambda>p fs. load_or_create_identity sample_keys sample_os ''k2'' p fs"]
  have "node_at Map.empty [''data'', ''souk.key''] = None" by (simp add: node_at_def)
  with persists [OF load_existing] created show ?thesis by (auto simp: sample_keys_def)
qed

end
