(* ===== verification/Agent_Setup.thy ===== *)
theory Agent_Setup
  imports Identity Agent_Run A2a_Client
begin

text \<open>
  The process of a pydantic-ai provider (\<open>main.py\<close>, \<open>config.py\<close>, \<open>sub_agent_tool.py\<close>): the configured
  agents with their tools and handles, the one key it signs with and connects under, and the request
  a run makes of a sub-agent. The model library, the environment and the key's packages are
  arguments.
\<close>

section \<open>The configuration\<close>

record pydantic_config =
  pc_name :: string
  pc_description :: string
  pc_model :: string
  pc_system_prompt :: string
  pc_skills :: "json list"
  pc_agent_card_extra :: obj
  pc_mcp_servers :: "string list"
  pc_sub_agents :: "sub_agent list"
  pc_souk_tools :: bool
  pc_thread_history_limit :: "int option"
  pc_use_kyok :: bool

record template_config =
  tc_souk_http_url :: string
  tc_provider_name :: "string option"
  tc_agents :: "pydantic_config list"

section \<open>Tools\<close>

datatype tool = SubAgentTool sub_agent | ListSoukAgents | GetAgentCard | GetSoukStats | GetDeveloperGuide

fun tool_called :: "tool \<Rightarrow> string" where
  "tool_called (SubAgentTool sub) = ''call_'' @ sb_name sub"
| "tool_called ListSoukAgents = ''list_souk_agents''"
| "tool_called GetAgentCard = ''get_agent_card''"
| "tool_called GetSoukStats = ''get_souk_stats''"
| "tool_called GetDeveloperGuide = ''get_souk_developer_guide''"

definition build_sub_agent_tools :: "sub_agent list \<Rightarrow> tool list" where
  "build_sub_agent_tools sub_agents = map SubAgentTool sub_agents"

definition build_souk_tools :: "tool list" where
  "build_souk_tools = [ListSoukAgents, GetAgentCard, GetSoukStats, GetDeveloperGuide]"

section \<open>Agents and handles\<close>

record built_agent =
  ba_model :: chosen_model
  ba_system_prompt :: string
  ba_toolsets :: "string list"
  ba_tools :: "tool list"

definition build_pydantic_agent :: "(string \<rightharpoonup> string) \<Rightarrow> pydantic_config \<Rightarrow> exn + built_agent" where
  "build_pydantic_agent env cfg =
     (let tools = build_sub_agent_tools (pc_sub_agents cfg) in
      case resolve_model env (pc_model cfg) of
        Inl e \<Rightarrow> Inl e
      | Inr model \<Rightarrow> Inr \<lparr>ba_model = model, ba_system_prompt = pc_system_prompt cfg, ba_toolsets = pc_mcp_servers cfg,
                      ba_tools = tools @ (if pc_souk_tools cfg then build_souk_tools else [])\<rparr>)"

record agent_handle =
  ah_name :: string
  ah_description :: string
  ah_card_extra :: obj
  ah_agent :: built_agent
  ah_use_kyok :: bool
  ah_history_limit :: "int option"

definition build_handle :: "pydantic_config \<Rightarrow> built_agent \<Rightarrow> agent_handle" where
  "build_handle cfg agent =
     \<lparr>ah_name = pc_name cfg, ah_description = pc_description cfg,
      ah_card_extra = card_extra (pc_agent_card_extra cfg) (pc_skills cfg), ah_agent = agent,
      ah_use_kyok = pc_use_kyok cfg, ah_history_limit = pc_thread_history_limit cfg\<rparr>"

fun build_handles :: "(string \<rightharpoonup> string) \<Rightarrow> pydantic_config list \<Rightarrow> exn + agent_handle list" where
  "build_handles env [] = Inr []"
| "build_handles env (cfg # cfgs) =
     (case build_pydantic_agent env cfg of
        Inl e \<Rightarrow> Inl e
      | Inr agent \<Rightarrow> (case build_handles env cfgs of
                        Inl e \<Rightarrow> Inl e | Inr handles \<Rightarrow> Inr (build_handle cfg agent # handles)))"

section \<open>The process\<close>

record 'k provider_process =
  pp_souk_http_url :: string
  pp_handles :: "agent_handle list"
  pp_signing_key :: 'k
  pp_provider_key :: 'k
  pp_provider_name :: "string option"
  pp_souk_public_key :: "string option"

definition key_path_of :: "(string \<rightharpoonup> string) \<Rightarrow> string" where
  "key_path_of env = (case env ''SOUK_IDENTITY_KEY_PATH'' of None \<Rightarrow> ''souk_identity.key'' | Some p \<Rightarrow> p)"

text \<open>
  \<open>main\<close>, up to the provider it runs. The components of a path's text and the key a generation would
  give are arguments, and so is the provider package's own loader.
\<close>

definition agent_main ::
  "'k keys \<Rightarrow> os_answers \<Rightarrow> (path \<Rightarrow> (filesystem, exn, 'k) call) \<Rightarrow> (string \<Rightarrow> path) \<Rightarrow> 'k \<Rightarrow>
   (string \<rightharpoonup> string) \<Rightarrow> template_config \<Rightarrow> (filesystem, exn, 'k provider_process) call" where
  "agent_main K S package_load path_of generated env cfg =
     bind_io (load_or_create_identity K S generated (path_of (key_path_of env))) (\<lambda>signing_key.
     case build_handles env (tc_agents cfg) of
       Inl e \<Rightarrow> raise_io e
     | Inr handles \<Rightarrow>
         bind_io (provider_key S package_load (path_of (key_path_of env))) (\<lambda>own_key.
         ret_io \<lparr>pp_souk_http_url = rstrip_slash (tc_souk_http_url cfg), pp_handles = handles,
                 pp_signing_key = signing_key, pp_provider_key = own_key,
                 pp_provider_name = tc_provider_name cfg, pp_souk_public_key = pinned_souk env\<rparr>))"

section \<open>What a run hands its tools\<close>

record agent_deps =
  de_thread_id :: json
  de_run_id :: string
  de_actor_chain :: "string list"
  de_identity :: presenter_identity

text \<open>\<open>provider_identity\<close> wraps the key in the provider package's own object.\<close>

definition provider_identity :: "('k \<Rightarrow> presenter_identity) \<Rightarrow> 'k \<Rightarrow> presenter_identity" where
  "provider_identity wrap signing_key = wrap signing_key"

definition run_deps :: "'k keys \<Rightarrow> ('k \<Rightarrow> presenter_identity) \<Rightarrow> 'k \<Rightarrow> json \<Rightarrow> string \<Rightarrow> agent_deps" where
  "run_deps K wrap signing_key thread_id run_id =
     \<lparr>de_thread_id = thread_id, de_run_id = run_id,
      de_actor_chain = new_actor_chain K signing_key
        (Some [(''type'', JStr ''agent''), (''publicKey'', JStr (public_key_hex K signing_key))]),
      de_identity = provider_identity wrap signing_key\<rparr>"

definition delegated_args :: "agent_deps \<Rightarrow> json option \<Rightarrow> send_args" where
  "delegated_args deps context_id =
     \<lparr>sa_context_id = context_id, sa_task_id = None, sa_addressed_run = None, sa_metadata = [],
      sa_chain = Some (de_actor_chain deps),
      sa_references = (if de_run_id deps = [] then [] else [de_run_id deps])\<rparr>"

text \<open>The request \<open>call_sub_agent\<close> streams from, for the context id kept for this sub-agent.\<close>

definition delegated_request ::
  "sdk_env \<Rightarrow> string \<Rightarrow> string \<Rightarrow> string \<Rightarrow> agent_deps \<Rightarrow> (string \<rightharpoonup> json) \<Rightarrow> string \<Rightarrow>
   exn + string \<times> (string \<times> string) list" where
  "delegated_request E request_id message_id said deps contexts sub_name =
     streaming_request E request_id message_id said (delegated_args deps (contexts sub_name))
       (Some (de_identity deps))"

section \<open>Facts\<close>

lemma encodable_plain: "CHR 0xED \<notin> set s \<Longrightarrow> encodable s"
  by (induction s rule: encodable.induct) auto

lemma hex_plain: "CHR 0xED \<notin> set (hex s)"
proof -
  define digits where "digits = set ''0123456789abcdef''"
  have "hex_digit d \<in> digits" if "d < 16" for d
    unfolding hex_digit_def digits_def using that by (intro nth_mem) simp
  moreover have "of_char c div 16 < (16 :: nat)" for c :: char
    using nat_of_char_less_256 [of c] by (simp add: less_mult_imp_div_less)
  ultimately have "set (hex s) \<subseteq> digits" by (auto simp: hex_def)
  moreover have "CHR 0xED \<notin> digits" by (simp add: digits_def)
  ultimately show ?thesis by blast
qed

lemma int_text_plain: "CHR 0xED \<notin> set (int_text i)"
proof -
  have digit: "digit_char d \<noteq> CHR 0xED" if "d < 10" for d
  proof
    assume "digit_char d = CHR 0xED"
    then have "digit_val (digit_char d) = digit_val (CHR 0xED)" by simp
    with that show False by (simp add: digit_val_char) (simp add: digit_val_def)
  qed
  have "CHR 0xED \<notin> set (nat_text n)" for n
  proof (induction n rule: nat_text.induct)
    case (1 n)
    then show ?case using digit [of n] digit [of "n mod 10"] by (subst nat_text.simps) auto
  qed
  then show ?thesis by (simp add: int_text_def)
qed

lemma build_handles_configured:
  "build_handles env cfgs = Inr handles \<Longrightarrow>
   list_all2 (\<lambda>c h. \<exists>a. build_pydantic_agent env c = Inr a \<and> h = build_handle c a) cfgs handles"
  by (induction cfgs arbitrary: handles) (auto split: sum.splits)

lemma build_handles_fails_iff:
  "(\<exists>e. build_handles env cfgs = Inl e) \<longleftrightarrow> (\<exists>c \<in> set cfgs. \<exists>e. resolve_model env (pc_model c) = Inl e)"
  by (induction cfgs) (auto simp: build_pydantic_agent_def split: sum.splits)

definition handle_of :: "(string \<rightharpoonup> string) \<Rightarrow> pydantic_config \<Rightarrow> agent_handle \<Rightarrow> bool" where
  "handle_of env c h \<longleftrightarrow>
     ah_name h = pc_name c \<and> resolve_model env (pc_model c) = Inr (ba_model (ah_agent h)) \<and>
     dget (ah_card_extra h) ''skills'' =
       (if pc_skills c = [] then dget (pc_agent_card_extra c) ''skills'' else JList (pc_skills c)) \<and>
     map tool_called (ba_tools (ah_agent h)) =
       map (\<lambda>s. ''call_'' @ sb_name s) (pc_sub_agents c) @
       (if pc_souk_tools c then map tool_called build_souk_tools else [])"

lemma built_handle_of:
  assumes "build_pydantic_agent env c = Inr a"
  shows "handle_of env c (build_handle c a)"
  using assms
  by (auto simp: handle_of_def build_handle_def build_pydantic_agent_def build_sub_agent_tools_def Let_def comp_def
      card_extra_skills split: sum.splits) (simp_all add: card_extra_def dict_merge_def)

section \<open>What the process promises\<close>

text \<open>C36. A provider that comes up is the one that was configured, under one identity: the key its runs
  sign with is the key it connects under, made by the first reading of the path if there was none;
  it has one handle per configured agent, in their order, each with that agent's model, its skills on
  its card whatever else the card says, one tool per declared sub-agent and the market's tools if
  they were asked for; and no agent is served at all if the model of any cannot be resolved.\<close>

theorem provider_as_configured:
  assumes "agent_main K S package_load path_of generated env cfg fs = (Inr P, fs')"
    and "\<And>key. from_private_bytes K (private_bytes_raw K key) = Inr key"
    and "\<And>fs raw mode. node_at fs (path_of (key_path_of env)) = Some (FileNode raw mode) \<Longrightarrow>
           package_load (path_of (key_path_of env)) fs = (from_private_bytes K raw, fs)"
  shows "pp_provider_key P = pp_signing_key P \<and>
    node_at fs' (path_of (key_path_of env)) \<noteq> None \<and>
    (node_at fs (path_of (key_path_of env)) = None \<longrightarrow> pp_signing_key P = generated) \<and>
    list_all2 (handle_of env) (tc_agents cfg) (pp_handles P)"
proof -
  let ?p = "path_of (key_path_of env)"
  from assms(1) obtain k fs1 handles k' where
    load: "load_or_create_identity K S generated ?p fs = (Inr k, fs1)" and
    handles: "build_handles env (tc_agents cfg) = Inr handles" and
    own: "provider_key S package_load ?p fs1 = (Inr k', fs')" and
    P: "pp_signing_key P = k" "pp_provider_key P = k'" "pp_handles P = handles"
    by (auto simp: agent_main_def io_simps split: prod.splits sum.splits)
  obtain raw mode where "file": "node_at fs1 ?p = Some (FileNode raw mode)" "from_private_bytes K raw = Inr k"
    using create_identity [OF load] load_file [OF load] assms(2) by (cases "node_at fs ?p") blast+
  from own obtain fs2 where parents: "make_parents S ?p fs1 = (Inr (), fs2)" and "package_load ?p fs2 = (Inr k', fs')"
    by (auto simp: provider_key_def io_simps split: prod.splits sum.splits)
  moreover from make_parents_grows(1) [OF parents] "file" have there: "node_at fs2 ?p = Some (FileNode raw mode)"
    by (simp add: only_grows_def)
  ultimately have "k' = k" "node_at fs' ?p \<noteq> None" using assms(3) [OF there] "file"(2) by auto
  moreover have "list_all2 (handle_of env) (tc_agents cfg) handles"
    using build_handles_configured [OF handles] by (rule list_all2_mono) (auto intro: built_handle_of)
  ultimately show ?thesis using P create_identity [OF load] by auto
qed

definition sample_agent :: pydantic_config where
  "sample_agent =
     \<lparr>pc_name = ''helper'', pc_description = [], pc_model = ''anthropic:m'', pc_system_prompt = [],
      pc_skills = [JObj [(''name'', JStr ''greet'')]], pc_agent_card_extra = [(''skills'', JNull)], pc_mcp_servers = [],
      pc_sub_agents = [], pc_souk_tools = True, pc_thread_history_limit = None, pc_use_kyok = False\<rparr>"

definition sample_process :: "(exn + string provider_process) \<times> filesystem" where
  "sample_process =
     agent_main sample_keys sample_os (\<lambda>p. load_or_create_identity sample_keys sample_os ''k2'' p) (\<lambda>t. [t]) ''k1''
       (\<lambda>_. None) \<lparr>tc_souk_http_url = ''http://souk/'', tc_provider_name = None, tc_agents = [sample_agent]\<rparr> Map.empty"

theorem provider_as_configured_witness:
  "\<exists>P fs'. sample_process = (Inr P, fs') \<and> pp_provider_key P = ''k1'' \<and> pp_signing_key P = ''k1'' \<and>
     list_all2 (handle_of (\<lambda>_. None)) [sample_agent] (pp_handles P)"
proof -
  have up: "\<exists>P fs'. sample_process = (Inr P, fs')"
    by (simp add: sample_process_def agent_main_def sample_keys_def sample_os_def sample_agent_def key_path_of_def
        load_or_create_identity_def node_at_def make_parents_def make_dir_def write_bytes_def chmod_def read_bytes_def
        build_pydantic_agent_def resolve_model_def prefix_def provider_key_def io_simps)
  then obtain P fs' where P: "sample_process = (Inr P, fs')" by blast
  have loads: "from_private_bytes sample_keys (private_bytes_raw sample_keys key) = Inr key" for key
    by (simp add: sample_keys_def)
  have "pp_provider_key P = pp_signing_key P \<and>
      node_at fs' [key_path_of (\<lambda>_. None)] \<noteq> None \<and>
      (node_at Map.empty [key_path_of (\<lambda>_. None)] = None \<longrightarrow> pp_signing_key P = ''k1'') \<and>
      list_all2 (handle_of (\<lambda>_. None)) (tc_agents
        \<lparr>tc_souk_http_url = ''http://souk/'', tc_provider_name = None, tc_agents = [sample_agent]\<rparr>) (pp_handles P)"
    by (rule provider_as_configured [OF P [unfolded sample_process_def] loads]) (rule load_existing)
  with P show ?thesis by (intro exI [of _ P] exI [of _ fs']) (simp add: node_at_def)
qed

text \<open>C15. A delegated call is attributable: whatever a run says to a sub-agent, the call is sent, the
  gateway reads its presenter as the provider's own key, and that is the key its actor chain ends in;
  it refers to the run that made it, and continues the conversation kept for this very sub-agent, or
  starts one if none is kept.\<close>

theorem delegations_attributed:
  assumes "pe_sha256hex S = sdk_sha256hex E" and "\<And>s. CHR 0xED \<notin> set (sdk_sha256hex E s)"
    and "pi_key (wrap k) = public_key_hex K k"
    and "last_key (contract_new_chain K k) = public_key_hex K k"
    and "\<And>payload. sdk_dumps E (JObj (proof_obj (wrap k) (sdk_now E) payload)) \<noteq> [] \<and>
           pe_loads S (sdk_dumps E (JObj (proof_obj (wrap k) (sdk_now E) payload))) =
             Inr (JObj (proof_obj (wrap k) (sdk_now E) payload))"
    and "pe_fresh S (sdk_now E)" and "\<And>payload. pe_verify S (pi_key (wrap k)) (pi_sign (wrap k) payload) payload"
    and "run_id \<noteq> []"
  shows "\<exists>headers body message.
    delegated_request E request_id message_id said (run_deps K wrap k thread_id run_id) contexts sub_name =
      Inr (sdk_dumps E (JObj (rpc_body request_id ''SendStreamingMessage'' body)), headers) \<and>
    presenter_key_of S (map_of headers CLIENT_PRESENTER_HEADER)
      (sdk_dumps E (JObj (rpc_body request_id ''SendStreamingMessage'' body))) =
        Inr (Some (last_key (de_actor_chain (run_deps K wrap k thread_id run_id)))) \<and>
    dget body ''metadata'' = JObj [(''actorChain'', JList (map JStr (de_actor_chain (run_deps K wrap k thread_id run_id))))] \<and>
    dget body ''message'' = JObj message \<and>
    dget message ''parts'' = JList [JObj [(''text'', JStr said)]] \<and>
    dget message ''referenceTaskIds'' = JList [JStr run_id] \<and>
    dget message ''contextId'' = (case contexts sub_name of Some c \<Rightarrow> if truthy c then c else JNull | None \<Rightarrow> JNull)"
proof -
  let ?deps = "run_deps K wrap k thread_id run_id"
  let ?args = "delegated_args ?deps (contexts sub_name)"
  let ?body = "send_message_params message_id said ?args"
  let ?raw = "sdk_dumps E (JObj (rpc_body request_id ''SendStreamingMessage'' ?body))"
  have "encodable (''funduq-server-presenter'' @ '':'' @ pi_key (wrap k) @ '':'' @ int_text (sdk_now E) @ '':'' @
      sdk_sha256hex E ?raw)"
    using assms(2,3) int_text_plain hex_plain by (intro encodable_plain) (auto simp: public_key_hex_def)
  then obtain headers where request: "delegated_request E request_id message_id said ?deps contexts sub_name =
      Inr (?raw, headers)"
    by (auto simp: delegated_request_def streaming_request_def presented_def Let_def presenter_headers_def
        presenter_proof_def signed_payload_def encode_text_def run_deps_def provider_identity_def)
  then have "presented E (rpc_body request_id ''SendStreamingMessage'' ?body) (Some (wrap k)) True = Inr (?raw, headers)"
    by (simp add: delegated_request_def streaming_request_def run_deps_def provider_identity_def delegated_args_def)
  then have "presenter_key_of S (map_of headers CLIENT_PRESENTER_HEADER) ?raw = Inr (Some (pi_key (wrap k)))"
    by (rule presented_read [OF _ assms(1)]) (use assms(5-7) in auto)
  then have key: "presenter_key_of S (map_of headers CLIENT_PRESENTER_HEADER) ?raw =
      Inr (Some (last_key (de_actor_chain ?deps)))"
    by (simp add: assms(3,4) run_deps_def new_actor_chain_def)
  have meta: "dget ?body ''metadata'' = JObj [(''actorChain'', JList (map JStr (de_actor_chain ?deps)))]"
    by (simp add: send_message_params_def request_metadata_def set_given_def delegated_args_def run_deps_def
        new_actor_chain_def)
  have "dget ?body ''message'' = JObj (user_message message_id said ?args)"
    by (simp add: send_message_params_def Let_def)
  moreover have "dget (user_message message_id said ?args) ''parts'' = JList [JObj [(''text'', JStr said)]]"
    "dget (user_message message_id said ?args) ''referenceTaskIds'' = JList [JStr run_id]"
    "dget (user_message message_id said ?args) ''contextId'' =
       (case contexts sub_name of Some c \<Rightarrow> if truthy c then c else JNull | None \<Rightarrow> JNull)"
    using assms(8)
    by (simp_all add: user_message_def Let_def set_given_def set_context_def delegated_args_def run_deps_def
        split: option.splits)
  ultimately show ?thesis using request key meta by blast
qed

definition wrapped :: "string \<Rightarrow> presenter_identity" where
  "wrapped k = \<lparr>pi_key = public_key_hex sample_keys k, pi_sign = (\<lambda>payload. ''s1'')\<rparr>"

definition delegating_gateway :: presenter_env where
  "delegating_gateway = sample_env
     \<lparr>pe_loads := (\<lambda>t. Inr (JObj (proof_obj (wrapped ''k1'') 17 []))),
      pe_verify := (\<lambda>key signature payload. key = hex ''k1'' \<and> signature = ''s1'')\<rparr>"

definition delegating_sdk :: sdk_env where
  "delegating_sdk = \<lparr>sdk_sha256hex = sample_hash, sdk_dumps = (\<lambda>j. ''text''), sdk_now = 17\<rparr>"

theorem delegations_attributed_witness:
  "\<exists>headers. delegated_request delegating_sdk ''req1'' ''m1'' ''hello''
       (run_deps sample_keys wrapped ''k1'' (JStr ''t1'') ''r1'') [''scribe'' \<mapsto> JStr ''c1''] ''scribe'' = Inr (''text'', headers) \<and>
     presenter_key_of delegating_gateway (map_of headers CLIENT_PRESENTER_HEADER) ''text'' = Inr (Some (hex ''k1''))"
proof -
  have hash: "pe_sha256hex delegating_gateway = sdk_sha256hex delegating_sdk"
    by (simp add: delegating_gateway_def sample_env_def delegating_sdk_def)
  have plain: "CHR 0xED \<notin> set (sdk_sha256hex delegating_sdk s)" for s
    using nat_text_chars [of "length s"] by (auto simp: delegating_sdk_def sample_hash_def)
  have key: "pi_key (wrapped ''k1'') = public_key_hex sample_keys ''k1''" by (simp add: wrapped_def)
  have last: "(\<lambda>chain. hex (last chain)) (contract_new_chain sample_keys ''k1'') = public_key_hex sample_keys ''k1''"
    by (simp add: sample_keys_def public_key_hex_def)
  have loads: "sdk_dumps delegating_sdk (JObj (proof_obj (wrapped ''k1'') (sdk_now delegating_sdk) payload)) \<noteq> [] \<and>
      pe_loads delegating_gateway (sdk_dumps delegating_sdk
        (JObj (proof_obj (wrapped ''k1'') (sdk_now delegating_sdk) payload))) =
      Inr (JObj (proof_obj (wrapped ''k1'') (sdk_now delegating_sdk) payload))" for payload
    by (simp add: delegating_sdk_def delegating_gateway_def proof_obj_def wrapped_def)
  have fresh: "pe_fresh delegating_gateway (sdk_now delegating_sdk)"
    by (simp add: delegating_sdk_def delegating_gateway_def sample_env_def)
  have signs: "pe_verify delegating_gateway (pi_key (wrapped ''k1'')) (pi_sign (wrapped ''k1'') payload) payload" for payload
    by (simp add: delegating_gateway_def wrapped_def public_key_hex_def sample_keys_def)
  have dumped: "sdk_dumps delegating_sdk j = ''text''" for j by (simp add: delegating_sdk_def)
  have chain: "de_actor_chain (run_deps sample_keys wrapped ''k1'' (JStr ''t1'') ''r1'') = [''k1'']"
    by (simp add: run_deps_def new_actor_chain_def sample_keys_def)
  from delegations_attributed [where wrap = wrapped and k = "''k1''" and K = sample_keys
      and last_key = "\<lambda>chain. hex (last chain)", OF hash plain key last loads fresh signs, of "''r1''" "''req1''" "''m1''" "''hello''"
      "JStr ''t1''" "[''scribe'' \<mapsto> JStr ''c1'']" "''scribe''"]
  show ?thesis unfolding dumped chain by auto
qed

end
