(* ===== verification/Provider_Object.thy ===== *)
theory Provider_Object
  imports Identity Lifecycle Roster_Wire Openai_Agent
begin

text \<open>
  \<open>SoukProvider\<close> as a process makes it (\<open>souk-agent-sdk/souk_agent_sdk/client.py\<close>): the constructor with
  its defaults and the verbs that only pass on to the runtime; and the agent template's \<open>main\<close>, the
  smallest such process. The runtime is the provider package's own and an argument.
\<close>

section \<open>Handles\<close>

text \<open>A run's stream, given the thread, the run and the messages of its input.\<close>

type_synonym streaming = "string \<Rightarrow> string \<Rightarrow> obj list \<Rightarrow> obj list"

record run_handle =
  hd_name :: string
  hd_description :: string
  hd_run_stream :: streaming

definition by_name :: "run_handle list \<Rightarrow> (string \<times> run_handle) list" where
  "by_name hs = dict_merge [] (map (\<lambda>h. (hd_name h, h)) hs)"

section \<open>The constructor\<close>

record provider_args =
  pa_souk_http_url :: string
  pa_agents :: "run_handle list"
  pa_reconnect_delay :: pyfloat
  pa_max_concurrent_runs :: "int option"
  pa_identity_key_path :: string
  pa_ca_cert_path :: "string option"
  pa_provider_name :: "string option"
  pa_souk_public_key :: "string option"

definition provider_defaults :: "string \<Rightarrow> run_handle list \<Rightarrow> provider_args" where
  "provider_defaults souk_http_url agents =
     \<lparr>pa_souk_http_url = souk_http_url, pa_agents = agents, pa_reconnect_delay = Fin 2 ''2.0'',
      pa_max_concurrent_runs = None, pa_identity_key_path = ''souk_identity.key'', pa_ca_cert_path = None,
      pa_provider_name = None, pa_souk_public_key = None\<rparr>"

text \<open>The client's queue, its waiters and the runtime's state are the record \<open>client\<close>.\<close>

record ('k, 'r) provider_object =
  po_http_url :: string
  po_reconnect_delay :: pyfloat
  po_ca_cert_path :: "string option"
  po_provider_name :: "string option"
  po_souk_public_key :: "string option"
  po_ws_url :: url_parts
  po_identity :: 'k
  po_agents :: "(string \<times> run_handle) list"
  po_client :: "'r client"

text \<open>
  What the surroundings give: the operating system, the key package's loader, the components of a
  path's text, the splitting of a URL and the runtime over the handles.
\<close>

record ('k, 'r) provider_parts =
  pt_os :: os_answers
  pt_load :: "path \<Rightarrow> (filesystem, exn, 'k) call"
  pt_path_of :: "string \<Rightarrow> path"
  pt_urlsplit :: "string \<Rightarrow> exn + url_parts"
  pt_runtime :: "'k \<Rightarrow> run_handle list \<Rightarrow> int option \<Rightarrow> exn + 'r"

definition new_client :: "string set \<Rightarrow> 'r \<Rightarrow> 'r client" where
  "new_client names runtime =
     \<lparr>cl_agents = names, cl_outbound = [], cl_pending = Map.empty, cl_waiters = [], cl_runtime = runtime\<rparr>"

definition souk_provider ::
  "('k, 'r) provider_parts \<Rightarrow> provider_args \<Rightarrow> (filesystem, exn, ('k, 'r) provider_object) call" where
  "souk_provider T a =
     (let url = rstrip_slash (pa_souk_http_url a) in
      case pt_urlsplit T url of
        Inl e \<Rightarrow> raise_io e
      | Inr parts \<Rightarrow>
          bind_io (provider_key (pt_os T) (pt_load T) (pt_path_of T (pa_identity_key_path a))) (\<lambda>identity.
          case pt_runtime T identity (pa_agents a) (pa_max_concurrent_runs a) of
            Inl e \<Rightarrow> raise_io e
          | Inr runtime \<Rightarrow>
              ret_io \<lparr>po_http_url = url, po_reconnect_delay = pa_reconnect_delay a,
                      po_ca_cert_path = pa_ca_cert_path a, po_provider_name = pa_provider_name a,
                      po_souk_public_key = pa_souk_public_key a, po_ws_url = derive_ws_url parts,
                      po_identity = identity, po_agents = by_name (pa_agents a),
                      po_client = new_client (fst ` set (by_name (pa_agents a))) runtime\<rparr>))"

section \<open>The verbs that pass on\<close>

text \<open>\<open>deliver\<close> keeps the runtime's answer to itself; \<open>cancel\<close> always answers that the ask arrived.\<close>

definition provider_deliver :: "'r runtime \<Rightarrow> obj \<Rightarrow> ('r, exn, unit) call" where
  "provider_deliver d run = bind_io (d run) (\<lambda>_. ret_io ())"

definition provider_cancel :: "(string \<Rightarrow> ('r, exn, unit) call) \<Rightarrow> string \<Rightarrow> ('r, exn, bool) call" where
  "provider_cancel cancel_run run_id = bind_io (cancel_run run_id) (\<lambda>_. ret_io True)"

definition provider_takes :: "('r \<Rightarrow> string \<Rightarrow> bool) \<Rightarrow> 'r client \<Rightarrow> string \<Rightarrow> bool" where
  "provider_takes takes s agent_name = takes (cl_runtime s) agent_name"

section \<open>The template\<close>

definition template_handle :: "(string \<rightharpoonup> string) \<Rightarrow> run_handle" where
  "template_handle env =
     \<lparr>hd_name = (case env ''AGENT_NAME'' of None \<Rightarrow> ''echo-agent'' | Some n \<Rightarrow> n),
      hd_description = ''Echoes back the last user message.'', hd_run_stream = echo_stream\<rparr>"

definition template_main ::
  "('k, 'r) provider_parts \<Rightarrow> (string \<rightharpoonup> string) \<Rightarrow> (filesystem, exn, ('k, 'r) provider_object) call" where
  "template_main T env =
     souk_provider T (provider_defaults
       (case env ''SOUK_HTTP_URL'' of None \<Rightarrow> ''http://localhost:8000'' | Some u \<Rightarrow> u) [template_handle env])"

section \<open>Facts\<close>

lemma by_name_keys: "fst ` set (by_name hs) = hd_name ` set hs"
  using dict_merge_keys [of "[]" "map (\<lambda>h. (hd_name h, h)) hs"] by (simp add: by_name_def image_image)

lemma dict_merge_last: "map_of (dict_merge a b) k = (case map_of (rev b) k of None \<Rightarrow> map_of a k | Some v \<Rightarrow> Some v)"
proof (induction b arbitrary: a)
  case (Cons x b)
  then show ?case by (cases x) (auto simp: update_conv' map_add_def split: option.splits)
qed simp

text \<open>Under a name stands the last handle of that name.\<close>

lemma by_name_last: "map_of (by_name (hs @ h # rest)) (hd_name h) = Some h" if "hd_name h \<notin> hd_name ` set rest"
proof -
  have "map_of (rev (map (\<lambda>h. (hd_name h, h)) rest)) (hd_name h) = None"
    using that by (auto simp: map_of_eq_None_iff)
  then show ?thesis by (simp add: by_name_def dict_merge_last map_add_def)
qed

lemma by_name_in: "map_of (by_name hs) n = Some h \<Longrightarrow> h \<in> set hs \<and> hd_name h = n"
  by (auto simp: by_name_def dict_merge_last split: option.splits dest!: map_of_SomeD)

lemma provider_key_there:
  assumes "provider_key S package_load p fs = (Inr k, fs')"
    and "\<And>fs raw mode. node_at fs p = Some (FileNode raw mode) \<Longrightarrow> package_load p fs = (from_private_bytes K raw, fs)"
    and "node_at fs p = Some (FileNode raw mode)"
  shows "from_private_bytes K raw = Inr k \<and> only_grows fs fs' \<and> node_at fs' p = Some (FileNode raw mode)"
proof -
  from assms(1) obtain fs1 where parents: "make_parents S p fs = (Inr (), fs1)" and "package_load p fs1 = (Inr k, fs')"
    by (auto simp: provider_key_def io_simps split: prod.splits sum.splits)
  moreover from make_parents_grows(1) [OF parents] have grows: "only_grows fs fs1" .
  with assms(3) have there: "node_at fs1 p = Some (FileNode raw mode)" by (simp add: only_grows_def)
  ultimately show ?thesis using grows assms(2) [OF there] by auto
qed

text \<open>The object is what its arguments say, with a fresh queue and nothing pending.\<close>

lemma souk_provider_made:
  assumes "souk_provider T a fs = (Inr P, fs')"
  shows "po_http_url P = rstrip_slash (pa_souk_http_url a) \<and> po_provider_name P = pa_provider_name a \<and>
    po_souk_public_key P = pa_souk_public_key a \<and> po_agents P = by_name (pa_agents a) \<and>
    cl_agents (po_client P) = hd_name ` set (pa_agents a) \<and> client_init (po_client P) \<and>
    provider_key (pt_os T) (pt_load T) (pt_path_of T (pa_identity_key_path a)) fs = (Inr (po_identity P), fs') \<and>
    pt_runtime T (po_identity P) (pa_agents a) (pa_max_concurrent_runs a) = Inr (cl_runtime (po_client P))"
  using assms
  by (auto simp: souk_provider_def Let_def new_client_def client_init_def by_name_keys io_simps
      split: sum.splits prod.splits)

lemma provider_deliver_quiet: "fst (provider_deliver d run r) = (case fst (d run r) of Inl e \<Rightarrow> Inl e | Inr _ \<Rightarrow> Inr ())"
  by (simp add: provider_deliver_def io_simps split: prod.splits sum.splits)

text \<open>The template's one agent echoes, in the order every consumer of a run relies on.\<close>

lemma template_echoes:
  assumes "template_main T env fs = (Inr P, fs')"
  shows "po_agents P = [(hd_name (template_handle env), template_handle env)] \<and>
    (\<forall>n h t r ms. (n, h) \<in> set (po_agents P) \<longrightarrow> well_bracketed (map event_type (hd_run_stream h t r ms)))"
proof -
  have "po_agents P = by_name [template_handle env]"
    using souk_provider_made [OF assms [unfolded template_main_def]] by (simp add: provider_defaults_def)
  then show ?thesis by (simp add: by_name_def template_handle_def echo_bracketed)
qed

end
