(* ===== verification/Expandvars.thy ===== *)
theory Expandvars
  imports Funduq_Core "HOL-Library.Sublist"
begin

text \<open>
  \<open>os.path.expandvars\<close>, which the OpenAI-compatible provider's \<open>load_config\<close> applies to the text of its
  configuration: the loop of the standard library, which rewrites the text in place from an index on,
  and the one pass over the text it amounts to.
\<close>

section \<open>The loop\<close>

text \<open>The pattern \<open>\$(\w+|\{[^}]*\})\<close>, ASCII only: the name and the length of a match at the head.\<close>

definition word_char :: "char \<Rightarrow> bool" where
  "word_char c \<longleftrightarrow>
     (let n = of_char c :: nat in 48 \<le> n \<and> n \<le> 57 \<or> 65 \<le> n \<and> n \<le> 90 \<or> 97 \<le> n \<and> n \<le> 122 \<or> n = 95)"

definition match_at :: "string \<Rightarrow> (string \<times> nat) option" where
  "match_at s =
     (case s of
        d # c # t \<Rightarrow>
          if d \<noteq> CHR ''$'' then None
          else if word_char c
          then (let name = takeWhile word_char (c # t) in Some (name, length name + 1))
          else if c = CHR ''{'' \<and> CHR ''}'' \<in> set t
          then (let name = takeWhile (\<lambda>x. x \<noteq> CHR ''}'') t in Some (name, length name + 3))
          else None
      | _ \<Rightarrow> None)"

text \<open>The first match: where it starts, where it ends and its name.\<close>

fun first_match :: "string \<Rightarrow> (nat \<times> nat \<times> string) option" where
  "first_match [] = None"
| "first_match (c # s) =
     (case match_at (c # s) of
        Some (name, n) \<Rightarrow> Some (0, n, name)
      | None \<Rightarrow> map_option (\<lambda>(i, j, name). (Suc i, Suc j, name)) (first_match s))"

lemma closed_takeWhile: "CHR ''}'' \<in> set s \<Longrightarrow> length (takeWhile (\<lambda>x. x \<noteq> CHR ''}'') s) < length s"
  by (induction s) auto

lemma match_at_bounds: "match_at s = Some (name, n) \<Longrightarrow> 0 < n \<and> n \<le> length s"
  using length_takeWhile_le [of word_char]
  by (auto simp: match_at_def Let_def split: list.splits if_splits dest: closed_takeWhile)

lemma first_match_bounds: "first_match s = Some (i, j, name) \<Longrightarrow> i < j \<and> j \<le> length s"
proof (induction s arbitrary: i j)
  case (Cons c s)
  show ?case
  proof (cases "match_at (c # s)")
    case None
    with Cons show ?thesis by auto
  next
    case (Some m)
    with Cons.prems match_at_bounds [of "c # s"] show ?thesis by (cases m) auto
  qed
qed simp

text \<open>The loop, from an index into the text on; a variable that is not set is passed over.\<close>

function expand_from :: "(string \<rightharpoonup> string) \<Rightarrow> string \<Rightarrow> nat \<Rightarrow> string" where
  "expand_from env path i =
     (case first_match (drop i path) of
        None \<Rightarrow> path
      | Some (b, e, name) \<Rightarrow>
          (case env name of
             None \<Rightarrow> expand_from env path (i + e)
           | Some v \<Rightarrow> expand_from env (take (i + b) path @ v @ drop (i + e) path) (i + b + length v)))"
  by pat_completeness auto

termination
  by (relation "measure (\<lambda>(env, path, i). length path - i)") (auto dest!: first_match_bounds)

declare expand_from.simps [simp del]

definition expandvars :: "(string \<rightharpoonup> string) \<Rightarrow> string \<Rightarrow> string" where
  "expandvars env path = (if CHR ''$'' \<notin> set path then path else expand_from env path 0)"

section \<open>One pass\<close>

text \<open>The text cut into what is kept as it is and the references, which does not depend on any value.\<close>

datatype piece = Verbatim string | Reference string string

function pieces :: "string \<Rightarrow> piece list" where
  "pieces s =
     (case first_match s of
        None \<Rightarrow> [Verbatim s]
      | Some (b, e, name) \<Rightarrow> Verbatim (take b s) # Reference (take (e - b) (drop b s)) name # pieces (drop e s))"
  by pat_completeness auto

termination
  by (relation "measure length") (auto dest!: first_match_bounds)

declare pieces.simps [simp del]

fun written :: "piece \<Rightarrow> string" where
  "written (Verbatim s) = s"
| "written (Reference s name) = s"

fun filled_in :: "(string \<rightharpoonup> string) \<Rightarrow> piece \<Rightarrow> string" where
  "filled_in env (Verbatim s) = s"
| "filled_in env (Reference s name) = (case env name of None \<Rightarrow> s | Some v \<Rightarrow> v)"

lemma pieces_written: "concat (map written (pieces s)) = s"
proof (induction s rule: pieces.induct)
  case (1 s)
  show ?case
  proof (cases "first_match s")
    case None
    then show ?thesis by (simp add: pieces.simps [of s])
  next
    case (Some m)
    obtain b e name where m: "m = (b, e, name)" by (cases m)
    with Some have ends: "b < e" "e \<le> length s" using first_match_bounds by blast+
    have "take b s @ take (e - b) (drop b s) = take e s"
      using ends(1) take_add [of b "e - b" s] by simp
    with 1 [of m b "(e, name)" e name, OF Some] Some m show ?thesis
      by (simp add: pieces.simps [of s]) (metis append.assoc append_take_drop_id)
  qed
qed

lemma expand_from_pieces:
  "expand_from env (done @ s) (length done) = done @ concat (map (filled_in env) (pieces s))"
proof (induction s arbitrary: "done" rule: pieces.induct)
  case (1 s)
  show ?case
  proof (cases "first_match s")
    case None
    then show ?thesis by (simp add: pieces.simps [of s] expand_from.simps [of env "done @ s"])
  next
    case (Some m)
    obtain b e name where m: "m = (b, e, name)" by (cases m)
    with Some have ends: "b < e" "e \<le> length s" using first_match_bounds by blast+
    note ih = 1 [of m b "(e, name)" e name, OF Some]
    show ?thesis
    proof (cases "env name")
      case None
      have cut: "take b s @ take (e - b) (drop b s) = take e s"
        using ends(1) take_add [of b "e - b" s] by simp
      have "expand_from env (done @ s) (length done) = expand_from env ((done @ take e s) @ drop e s) (length (done @ take e s))"
        using Some m None ends by (simp add: expand_from.simps [of env "done @ s" "length done"])
      with ih [of "done @ take e s"] Some m None show ?thesis
        by (simp add: pieces.simps [of s]) (metis cut append.assoc)
    next
      case (Some v)
      have "expand_from env (done @ s) (length done) =
          expand_from env ((done @ take b s @ v) @ drop e s) (length (done @ take b s @ v))"
        using \<open>first_match s = Some m\<close> m Some ends
        by (simp add: expand_from.simps [of env "done @ s" "length done"] add.assoc)
      with ih [of "done @ take b s @ v"] \<open>first_match s = Some m\<close> m Some show ?thesis
        by (simp add: pieces.simps [of s])
    qed
  qed
qed

lemma match_needs_dollar: "CHR ''$'' \<notin> set s \<Longrightarrow> first_match s = None"
proof (induction s)
  case (Cons c s)
  have "match_at (c # s) = None" using Cons.prems by (auto simp: match_at_def split: list.splits)
  with Cons show ?case by simp
qed simp

text \<open>The loop is one pass: the values put in are never looked at again.\<close>

lemma expandvars_pieces: "expandvars env s = concat (map (filled_in env) (pieces s))"
proof (cases "CHR ''$'' \<in> set s")
  case True
  with expand_from_pieces [of env "[]" s] show ?thesis by (simp add: expandvars_def)
next
  case False
  then show ?thesis by (simp add: expandvars_def pieces.simps [of s] match_needs_dollar)
qed

lemma expandvars_unset: "expandvars Map.empty s = s"
proof -
  have "map (filled_in Map.empty) (pieces s) = map written (pieces s)"
    by (rule map_cong [OF refl]) (metis filled_in.simps option.simps(4) piece.exhaust written.simps)
  then show ?thesis by (simp only: expandvars_pieces pieces_written)
qed

text \<open>What the loop gives depends on the environment at the names the text refers to, only.\<close>

lemma expandvars_cong:
  assumes "\<And>t name. Reference t name \<in> set (pieces s) \<Longrightarrow> env name = env' name"
  shows "expandvars env s = expandvars env' s"
proof -
  have "filled_in env p = filled_in env' p" if "p \<in> set (pieces s)" for p
    using assms that by (cases p) auto
  then show ?thesis unfolding expandvars_pieces by (metis map_cong)
qed

end
