(* ===== verification/Openai_Process.thy ===== *)
theory Openai_Process
  imports Provider_Object Expandvars
begin

text \<open>
  The process of the OpenAI-compatible provider (\<open>config.py\<close>, \<open>main\<close> of \<open>main.py\<close>): the configuration's
  text with its variables put in, the handles, the provider. The text's decoding and what YAML and
  pydantic make of it are arguments, and so is the stream of an upstream call.
\<close>

section \<open>The configuration\<close>

record compat_config =
  oc_souk_http_url :: string
  oc_provider_name :: "string option"
  oc_agents :: "agent_config list"

text \<open>A file opened as text: every line end becomes a newline.\<close>

fun universal_newlines :: "string \<Rightarrow> string" where
  "universal_newlines [] = []"
| "universal_newlines (c # s) =
     (if c = CHR 0x0D
      then CHR 0x0A # (case s of [] \<Rightarrow> [] | d # t \<Rightarrow> if d = CHR 0x0A then universal_newlines t else universal_newlines s)
      else c # universal_newlines s)"

record compat_parts =
  cp_decode :: "string \<Rightarrow> exn + string"
  cp_validate :: "string \<Rightarrow> exn + compat_config"
  cp_loads :: "string \<Rightarrow> exn + json"
  cp_upstream :: "upstream_call \<Rightarrow> string list \<times> exn option"

definition config_of_text :: "compat_parts \<Rightarrow> (string \<rightharpoonup> string) \<Rightarrow> string \<Rightarrow> exn + compat_config" where
  "config_of_text C env text = cp_validate C (expandvars env (universal_newlines text))"

definition load_config ::
  "compat_parts \<Rightarrow> (string \<rightharpoonup> string) \<Rightarrow> path \<Rightarrow> (filesystem, exn, compat_config) call" where
  "load_config C env p = bind_io (read_bytes p) (\<lambda>raw.
     case cp_decode C raw of
       Inl e \<Rightarrow> raise_io e
     | Inr text \<Rightarrow> (case config_of_text C env text of Inl e \<Rightarrow> raise_io e | Inr cfg \<Rightarrow> ret_io cfg))"

section \<open>The process\<close>

definition compat_handle :: "compat_parts \<Rightarrow> agent_config \<Rightarrow> run_handle" where
  "compat_handle C agent =
     \<lparr>hd_name = ac_name agent, hd_description = ac_description agent,
      hd_run_stream = make_run_stream agent (cp_loads C) (cp_upstream C)\<rparr>"

definition config_path_of :: "(string \<rightharpoonup> string) \<Rightarrow> string" where
  "config_path_of env = (case env ''OPENAI_COMPAT_CONFIG'' of None \<Rightarrow> ''config.yaml'' | Some p \<Rightarrow> p)"

definition compat_args :: "compat_parts \<Rightarrow> compat_config \<Rightarrow> provider_args" where
  "compat_args C cfg =
     (provider_defaults (oc_souk_http_url cfg) (map (compat_handle C) (oc_agents cfg)))
       \<lparr>pa_provider_name := oc_provider_name cfg\<rparr>"

definition compat_main ::
  "compat_parts \<Rightarrow> ('k, 'r) provider_parts \<Rightarrow> (string \<rightharpoonup> string) \<Rightarrow> (filesystem, exn, ('k, 'r) provider_object) call" where
  "compat_main C T env = bind_io (load_config C env (pt_path_of T (config_path_of env))) (\<lambda>cfg.
     souk_provider T (compat_args C cfg))"

section \<open>Facts\<close>

lemma load_config_read:
  assumes "load_config C env p fs = (Inr cfg, fs')"
  shows "fs' = fs \<and> (\<exists>raw mode text. node_at fs p = Some (FileNode raw mode) \<and> cp_decode C raw = Inr text \<and>
    config_of_text C env text = Inr cfg)"
  using assms by (auto simp: load_config_def read_bytes_def io_simps split: option.splits node.splits sum.splits prod.splits)

lemma compat_main_made:
  assumes "compat_main C T env fs = (Inr P, fs')"
  shows "\<exists>raw mode text cfg. node_at fs (pt_path_of T (config_path_of env)) = Some (FileNode raw mode) \<and>
    cp_decode C raw = Inr text \<and> config_of_text C env text = Inr cfg \<and> souk_provider T (compat_args C cfg) fs = (Inr P, fs')"
proof -
  from assms obtain cfg fs1 where "load_config C env (pt_path_of T (config_path_of env)) fs = (Inr cfg, fs1)"
    and "souk_provider T (compat_args C cfg) fs1 = (Inr P, fs')"
    by (auto simp: compat_main_def io_simps split: prod.splits sum.splits)
  with load_config_read show ?thesis by blast
qed

lemma compat_args_agents:
  "pa_agents (compat_args C cfg) = map (compat_handle C) (oc_agents cfg)"
  "hd_name ` set (pa_agents (compat_args C cfg)) = ac_name ` set (oc_agents cfg)"
  by (simp_all add: compat_args_def provider_defaults_def compat_handle_def image_image)

lemma compat_agent_of:
  assumes "souk_provider T (compat_args C cfg) fs = (Inr P, fs')" and "map_of (po_agents P) n = Some h"
  shows "\<exists>a \<in> set (oc_agents cfg). ac_name a = n \<and> h = compat_handle C a"
  using souk_provider_made [OF assms(1)] by_name_in [of "map (compat_handle C) (oc_agents cfg)" n h] assms(2)
  by (auto simp: compat_args_agents(1) compat_handle_def)

text \<open>A configuration that cannot be read leaves everything as it was: no key is made for it.\<close>

lemma load_config_quiet: "snd (load_config C env p fs) = fs"
  by (simp add: load_config_def read_bytes_def io_simps split: option.split node.split sum.split)

lemma compat_main_refused:
  assumes "fst (load_config C env (pt_path_of T (config_path_of env)) fs) = Inl e"
  shows "compat_main C T env fs = (Inl e, fs)"
proof -
  from assms load_config_quiet have "load_config C env (pt_path_of T (config_path_of env)) fs = (Inl e, fs)"
    by (metis prod.collapse)
  then show ?thesis by (simp add: compat_main_def bind_io_Inl)
qed

lemma newlines_plain: "CHR 0x0D \<notin> set s \<Longrightarrow> universal_newlines s = s"
  by (induction s rule: universal_newlines.induct) auto

lemma newlines_clean: "CHR 0x0D \<notin> set (universal_newlines s)"
  by (induction s rule: universal_newlines.induct) (auto split: list.splits)

text \<open>Whatever else the environment holds, a reference that is not set stays in the text as it is written.\<close>

lemma config_without_variables:
  assumes "\<And>t name. Reference t name \<in> set (pieces (universal_newlines text)) \<Longrightarrow> env name = None"
  shows "config_of_text C env text = cp_validate C (universal_newlines text)"
proof -
  have "expandvars env (universal_newlines text) = expandvars Map.empty (universal_newlines text)"
    by (rule expandvars_cong) (simp add: assms)
  then show ?thesis by (simp add: config_of_text_def expandvars_unset)
qed

text \<open>The stream of a handle is what \<open>run_stream\<close> makes of the one upstream call.\<close>

lemma compat_stream_bracketed: "well_bracketed (map event_type (hd_run_stream (compat_handle C a) t r ms))"
  by (simp add: compat_handle_def make_run_stream_def run_stream_bracketed split: prod.split)

lemma compat_stream_says:
  "relayed_text (hd_run_stream (compat_handle C a) t r ms) =
     fst (stream_deltas (cp_loads C) (fst (cp_upstream C (upstream_call_of a t ms))) (snd (cp_upstream C (upstream_call_of a t ms))))"
  by (simp add: compat_handle_def make_run_stream_def relayed_text_run_stream split: prod.split)

text \<open>A variable's value is part of the text YAML reads: one that is a line of its own is a line of the configuration.\<close>

definition SECRET_LINE :: string where
  "SECRET_LINE = ''api_key: ${KEY}''"

lemma value_is_syntax:
  "expandvars [''KEY'' \<mapsto> ''k'' @ [CHR 0x0A] @ ''api_base: http://other''] SECRET_LINE =
     ''api_key: k'' @ [CHR 0x0A] @ ''api_base: http://other''"
  by (simp add: expandvars_def SECRET_LINE_def expand_from.simps match_at_def word_char_def Let_def)

section \<open>What the process promises\<close>

text \<open>C37. A provider that comes up is the one its configuration file describes, with the environment's
  values in place of exactly the references to them: each value is put in once and never read as a
  reference again, and all other text, references to unset variables among it, is what the file
  says. It has one handle under each configured agent's name, the last configured under it, whose
  runs make one call to that agent's own endpoint with its model, messages and headers and are well
  formed; its name, its address and the key kept under the path are the configured ones, and of the
  file system only the key and its directories are new.\<close>

theorem compat_provider_as_configured:
  assumes "compat_main C T env fs = (Inr P, fs')"
  shows "\<exists>raw mode text cfg.
    node_at fs (pt_path_of T (config_path_of env)) = Some (FileNode raw mode) \<and> cp_decode C raw = Inr text \<and>
    cp_validate C (concat (map (filled_in env) (pieces (universal_newlines text)))) = Inr cfg \<and>
    concat (map written (pieces (universal_newlines text))) = universal_newlines text \<and>
    po_http_url P = rstrip_slash (oc_souk_http_url cfg) \<and> po_provider_name P = oc_provider_name cfg \<and>
    provider_key (pt_os T) (pt_load T) (pt_path_of T ''souk_identity.key'') fs = (Inr (po_identity P), fs') \<and>
    cl_agents (po_client P) = ac_name ` set (oc_agents cfg) \<and>
    (\<forall>before a after. oc_agents cfg = before @ a # after \<and> ac_name a \<notin> ac_name ` set after \<longrightarrow>
       map_of (po_agents P) (ac_name a) = Some (compat_handle C a)) \<and>
    (\<forall>n h t r ms. map_of (po_agents P) n = Some h \<longrightarrow>
       well_bracketed (map event_type (hd_run_stream h t r ms)) \<and>
       (\<exists>a \<in> set (oc_agents cfg). ac_name a = n \<and>
          relayed_text (hd_run_stream h t r ms) =
            fst (stream_deltas (cp_loads C) (fst (cp_upstream C (upstream_call_of a t ms)))
                  (snd (cp_upstream C (upstream_call_of a t ms))))))"
proof -
  from compat_main_made [OF assms] obtain raw mode decoded cfg where
    "file": "node_at fs (pt_path_of T (config_path_of env)) = Some (FileNode raw mode)" "cp_decode C raw = Inr decoded"
    and cfg: "cp_validate C (concat (map (filled_in env) (pieces (universal_newlines decoded)))) = Inr cfg"
    and made: "souk_provider T (compat_args C cfg) fs = (Inr P, fs')"
    by (auto simp: config_of_text_def expandvars_pieces)
  note P = souk_provider_made [OF made, unfolded compat_args_agents]
  have last: "map_of (po_agents P) (ac_name a) = Some (compat_handle C a)"
    if "oc_agents cfg = before @ a # after" "ac_name a \<notin> ac_name ` set after" for before a after
    using P that by_name_last [of "compat_handle C a" "map (compat_handle C) after" "map (compat_handle C) before"]
    by (auto simp: compat_handle_def image_iff)
  have runs: "well_bracketed (map event_type (hd_run_stream h t r ms)) \<and>
       (\<exists>a \<in> set (oc_agents cfg). ac_name a = n \<and>
          relayed_text (hd_run_stream h t r ms) =
            fst (stream_deltas (cp_loads C) (fst (cp_upstream C (upstream_call_of a t ms)))
                  (snd (cp_upstream C (upstream_call_of a t ms)))))"
    if "map_of (po_agents P) n = Some h" for n h t r ms
    using compat_agent_of [OF made that] compat_stream_bracketed compat_stream_says by blast
  have "po_http_url P = rstrip_slash (oc_souk_http_url cfg) \<and> po_provider_name P = oc_provider_name cfg \<and>
    provider_key (pt_os T) (pt_load T) (pt_path_of T ''souk_identity.key'') fs = (Inr (po_identity P), fs') \<and>
    cl_agents (po_client P) = ac_name ` set (oc_agents cfg)"
    using P by (simp add: compat_args_def provider_defaults_def compat_handle_def image_image)
  note fields = this
  show ?thesis
    by (rule exI [of _ raw], rule exI [of _ mode], rule exI [of _ decoded], rule exI [of _ cfg])
       (intro conjI allI impI fields [THEN conjunct1] fields [THEN conjunct2, THEN conjunct1]
         fields [THEN conjunct2, THEN conjunct2, THEN conjunct1] fields [THEN conjunct2, THEN conjunct2, THEN conjunct2]
         "file" cfg pieces_written, (erule conjE, rule last; assumption),
         (rule runs [THEN conjunct1]; assumption), (rule runs [THEN conjunct2]; assumption))
qed

definition sample_compat_agent :: agent_config where
  "sample_compat_agent =
     \<lparr>ac_name = ''terse'', ac_description = [], ac_api_base = ''http://llm/'', ac_api_key = ''k1'', ac_model = ''m'',
      ac_system_prompt = [], ac_timeout_seconds = Fin 120 ''120.0'', ac_session_header = [], ac_memory_header = []\<rparr>"

text \<open>A reader of configurations that takes the whole text for the key of its one agent.\<close>

definition sample_compat :: compat_parts where
  "sample_compat =
     \<lparr>cp_decode = Inr,
      cp_validate = (\<lambda>t. Inr \<lparr>oc_souk_http_url = ''http://souk/'', oc_provider_name = None,
                              oc_agents = [sample_compat_agent\<lparr>ac_api_key := t\<rparr>]\<rparr>),
      cp_loads = (\<lambda>t. Inr (JObj [(''choices'', JList [JObj [(''delta'', JObj [(''content'', JStr t)])]])])),
      cp_upstream = (\<lambda>q. ([''hi'', ''[DONE]''], None))\<rparr>"

definition sample_parts :: "(string, unit) provider_parts" where
  "sample_parts =
     \<lparr>pt_os = sample_os, pt_load = (\<lambda>p. load_or_create_identity sample_keys sample_os ''k2'' p),
      pt_path_of = (\<lambda>t. [t]),
      pt_urlsplit = (\<lambda>u. Inr \<lparr>u_scheme = ''http'', u_netloc = ''souk'', u_path = [], u_query = [], u_fragment = []\<rparr>),
      pt_runtime = (\<lambda>k hs m. Inr ())\<rparr>"

definition sample_compat_process :: "(exn + (string, unit) provider_object) \<times> filesystem" where
  "sample_compat_process =
     compat_main sample_compat sample_parts [''KEY'' \<mapsto> ''$KEY''] [[''config.yaml''] \<mapsto> FileNode ''${KEY}'' 0]"

lemma sample_compat_up: "\<exists>P fs'. sample_compat_process = (Inr P, fs')"
  by (simp add: sample_compat_process_def compat_main_def load_config_def sample_compat_def sample_parts_def
        config_path_of_def config_of_text_def souk_provider_def compat_args_def provider_defaults_def Let_def sample_os_def sample_keys_def
        read_bytes_def node_at_def provider_key_def make_parents_def make_dir_def load_or_create_identity_def
        write_bytes_def chmod_def prefix_def io_simps)

abbreviation terse_handle :: run_handle where
  "terse_handle \<equiv> compat_handle sample_compat (sample_compat_agent\<lparr>ac_api_key := ''$KEY''\<rparr>)"

lemma sample_expanded: "expandvars [''KEY'' \<mapsto> ''$KEY''] ''${KEY}'' = ''$KEY''"
  by (simp add: expandvars_pieces pieces.simps match_at_def word_char_def Let_def)

lemma sample_compat_made:
  "\<exists>P fs'. sample_compat_process = (Inr P, fs') \<and> map_of (po_agents P) ''terse'' = Some terse_handle"
proof -
  obtain P fs' where P: "sample_compat_process = (Inr P, fs')" using sample_compat_up by blast
  from compat_main_made [OF P [unfolded sample_compat_process_def]] obtain raw mode decoded cfg where
    there: "node_at [[''config.yaml''] \<mapsto> FileNode ''${KEY}'' 0] (pt_path_of sample_parts (config_path_of [''KEY'' \<mapsto> ''$KEY''])) =
       Some (FileNode raw mode)" "cp_decode sample_compat raw = Inr decoded"
    and cfg: "config_of_text sample_compat [''KEY'' \<mapsto> ''$KEY''] decoded = Inr cfg"
    and made: "souk_provider sample_parts (compat_args sample_compat cfg) [[''config.yaml''] \<mapsto> FileNode ''${KEY}'' 0] = (Inr P, fs')"
    by blast
  from there have "decoded = ''${KEY}''" by (simp add: sample_parts_def config_path_of_def node_at_def sample_compat_def)
  with cfg have "oc_agents cfg = [sample_compat_agent\<lparr>ac_api_key := ''$KEY''\<rparr>]"
    by (auto simp: config_of_text_def sample_expanded sample_compat_def)
  then have "po_agents P = [(''terse'', terse_handle)]"
    using souk_provider_made [OF made]
    by (simp add: compat_args_agents(1) by_name_def compat_handle_def) (simp add: sample_compat_agent_def)
  with P show ?thesis by (intro exI [of _ P] exI [of _ fs']) simp
qed

theorem compat_provider_as_configured_witness:
  "\<exists>P fs' cfg. sample_compat_process = (Inr P, fs') \<and>
     cp_validate sample_compat ''$KEY'' = Inr cfg \<and> map ac_api_key (oc_agents cfg) = [''$KEY''] \<and>
     map_of (po_agents P) ''terse'' = Some (compat_handle sample_compat (sample_compat_agent\<lparr>ac_api_key := ''$KEY''\<rparr>))"
proof -
  obtain P fs' where P: "sample_compat_process = (Inr P, fs')" using sample_compat_up by blast
  have pieces: "pieces (universal_newlines ''${KEY}'') = [Verbatim [], Reference ''${KEY}'' ''KEY'', Verbatim []]"
    by (simp add: pieces.simps match_at_def word_char_def Let_def)
  from compat_provider_as_configured [OF P [unfolded sample_compat_process_def]] obtain raw mode decoded cfg where
    "file": "node_at [[''config.yaml''] \<mapsto> FileNode ''${KEY}'' 0] (pt_path_of sample_parts (config_path_of [''KEY'' \<mapsto> ''$KEY''])) =
       Some (FileNode raw mode)" "cp_decode sample_compat raw = Inr decoded"
    and valid: "cp_validate sample_compat (concat (map (filled_in [''KEY'' \<mapsto> ''$KEY'']) (pieces (universal_newlines decoded)))) = Inr cfg"
    and handles: "\<forall>before a after. oc_agents cfg = before @ a # after \<and> ac_name a \<notin> ac_name ` set after \<longrightarrow>
       map_of (po_agents P) (ac_name a) = Some (compat_handle sample_compat a)"
    by blast
  from "file" have "decoded = ''${KEY}''" by (simp add: sample_parts_def config_path_of_def node_at_def sample_compat_def)
  with valid pieces have v: "cp_validate sample_compat ''$KEY'' = Inr cfg" by simp
  then have agents: "oc_agents cfg = [] @ sample_compat_agent\<lparr>ac_api_key := ''$KEY''\<rparr> # []"
    by (auto simp: sample_compat_def)
  have "map_of (po_agents P) (ac_name (sample_compat_agent\<lparr>ac_api_key := ''$KEY''\<rparr>)) =
      Some (compat_handle sample_compat (sample_compat_agent\<lparr>ac_api_key := ''$KEY''\<rparr>))"
    by (rule handles [rule_format, OF conjI, OF agents]) simp
  with P v agents show ?thesis
    by (intro exI [of _ P] exI [of _ fs'] exI [of _ cfg]) (simp add: sample_compat_agent_def)
qed

end
