(* ===== verification/Relayed_Run.thy ===== *)
theory Relayed_Run
  imports Openai_Process Provider_Flow
begin

text \<open>
  A run served by a shipped relay, from the frame it arrives in to what core is told of it: the
  process made of its configuration, the client of the SDK, the socket, the gateway's read loop.
\<close>

section \<open>The acts of a run\<close>

text \<open>
  What a client does about one run: the frame that offers it, and what is reported of it.
\<close>

fun offers :: "string \<Rightarrow> client_act \<Rightarrow> bool" where
  "offers run_id (Hears frame) =
     (dget frame ''type'' = JStr ''run'' \<and> dget_or frame ''runId'' (JStr []) = JStr run_id)"
| "offers run_id _ = False"

fun reports_on :: "string \<Rightarrow> client_act \<Rightarrow> bool" where
  "reports_on run_id (Reports i event) = (i = run_id)"
| "reports_on run_id (Finishes i) = (i = run_id)"
| "reports_on run_id _ = False"

text \<open>
  A run's stream gives its events one after the other, and runs, is exhausted, or is cut: cancelled,
  closed, or ended by an exception.
\<close>

datatype stream_life = Running | Exhausted | Cut

definition stream_gave :: "obj list \<Rightarrow> json list \<Rightarrow> stream_life \<Rightarrow> bool" where
  "stream_gave events given st \<longleftrightarrow>
     prefix given (map JObj events) \<and> (st = Exhausted \<longrightarrow> given = map JObj events)"

text \<open>
  The runtime that serves the run is the provider package's and not here; what it does is any
  sequence of acts. What the client relies on, from its own comments: the runtime reports through the
  link what the stream gave (\<open>__init__\<close>), a run ends when the agent's generator ends, cancelled or not,
  and \<open>finish\<close> is what says so (\<open>cancel\<close>), and a stream that raises is reported as a bare end too
  (\<open>_offer\<close>). So of this run, among the acts of all the others, there are reports of what the stream
  gave, in its order, possibly behind it, and then, once it ended, its end, by which a stream that ran
  out was reported whole.
\<close>

definition runtime_serves ::
  "string \<Rightarrow> json list \<Rightarrow> stream_life \<Rightarrow> json list \<Rightarrow> bool \<Rightarrow> client_act list \<Rightarrow> bool" where
  "runtime_serves run_id given st reported over acts \<longleftrightarrow>
     filter (reports_on run_id) acts = map (Reports run_id) reported @ (if over then [Finishes run_id] else []) \<and>
     prefix reported given \<and> (over \<longrightarrow> st \<noteq> Running \<and> (st = Exhausted \<longrightarrow> reported = given))"

text \<open>A run of an agent, which validates and which the client's runtime takes.\<close>

definition taken_run :: "client_env \<Rightarrow> 'r runtime \<Rightarrow> string \<Rightarrow> string \<Rightarrow> obj \<Rightarrow> 'r client \<Rightarrow> bool" where
  "taken_run E d n run_id dump s \<longleftrightarrow>
     untyped dump \<and> distinct (map fst dump) \<and> dget_or dump ''agentName'' (JStr []) = JStr n \<and>
     dget_or dump ''runId'' (JStr []) = JStr run_id \<and>
     (\<exists>delivered. validate_run E dump = Inr delivered \<and> fst (d delivered (cl_runtime s)) = Inr Takes)"

fun objects :: "json list \<Rightarrow> obj list option" where
  "objects [] = Some []"
| "objects (JObj m # ms) = map_option (\<lambda>os. m # os) (objects ms)"
| "objects (m # ms) = None"

text \<open>
  What the stream reads of its run: the thread, the run and the messages of the input the run carries,
  which is the envelope's own \<open>runInput\<close>.
\<close>

definition run_input_of :: "obj \<Rightarrow> (string \<times> string \<times> obj list) option" where
  "run_input_of dump =
     (case dget dump ''runInput'' of
        JObj run_input \<Rightarrow>
          (case (dget run_input ''threadId'', dget run_input ''runId'', dget_or run_input ''messages'' (JList [])) of
             (JStr t, JStr r, JList ms) \<Rightarrow> map_option (\<lambda>os. (t, r, os)) (objects ms)
           | _ \<Rightarrow> None)
      | _ \<Rightarrow> None)"

text \<open>The frame the gateway queues when core delivers the run on the link.\<close>

definition offered_frame :: "obj \<Rightarrow> link \<Rightarrow> obj" where
  "offered_frame dump l = last (outbound (deliver dump l))"

lemma offered_frame_of:
  assumes "taken_run E d n run_id dump s"
  shows "offered_frame dump l = (''type'', JStr ''run'') # dump"
  using assms run_payload_deliver(1) by (simp add: taken_run_def offered_frame_def deliver_def put_def)

lemma run_taken:
  assumes "taken_run E d n run_id dump s" and "n \<in> cl_agents s"
  shows "act_meaning E d key (Hears (offered_frame dump l)) s = [CAnswer (JStr run_id) Accepted key]"
    and "cl_outbound (client_do E d c (Hears (offered_frame dump l)) s) = cl_outbound s @ [ack_frame (JStr run_id) True]"
proof -
  from assms(1) obtain delivered r' where run: "untyped dump" "distinct (map fst dump)"
    "dget_or dump ''agentName'' (JStr []) = JStr n" "dget_or dump ''runId'' (JStr []) = JStr run_id"
    "validate_run E dump = Inr delivered" "d delivered (cl_runtime s) = (Inr Takes, r')"
    unfolding taken_run_def by (metis prod.collapse)
  note frame = offered_frame_of [OF assms(1), of l] run_payload_deliver(2) [OF run(1,2)]
  have payload: "run_payload (offered_frame dump l) = dump" by (simp add: frame)
  have get: "dget_or (offered_frame dump l) ''agentName'' (JStr []) = JStr n"
    "dget_or (offered_frame dump l) ''runId'' (JStr []) = JStr run_id" "dget (offered_frame dump l) ''type'' = JStr ''run''"
    using run(3,4) by (simp_all add: frame(1) dget_or_def)
  have o: "offer E d (offered_frame dump l) s =
      (None, send_frame (ack_frame (JStr run_id) True) (s\<lparr>cl_runtime := r'\<rparr>))"
    using run assms(2) by (simp add: offer_def get payload Let_def answer_frame_def)
  show "act_meaning E d key (Hears (offered_frame dump l)) s = [CAnswer (JStr run_id) Accepted key]"
    using run assms(2) by (simp add: o get frame(1) [symmetric] payload offer_meaning_def hosted_def meant_def)
  show "cl_outbound (client_do E d c (Hears (offered_frame dump l)) s) = cl_outbound s @ [ack_frame (JStr run_id) True]"
    by (simp add: on_client_frame_def get o Let_def send_frame_def)
qed

section \<open>What is said of a run\<close>

fun told_of :: "string \<Rightarrow> core_call \<Rightarrow> bool" where
  "told_of run_id (CAnswer i a k) = (i = JStr run_id)"
| "told_of run_id (CEvent i e k) = (i = JStr run_id)"
| "told_of run_id (CFinish i k) = (i = JStr run_id)"
| "told_of run_id _ = False"

definition run_told :: "string \<Rightarrow> string \<Rightarrow> json list \<Rightarrow> bool \<Rightarrow> core_call list" where
  "run_told key run_id events over =
     CAnswer (JStr run_id) Accepted key # map (\<lambda>e. CEvent (JStr run_id) e key) events @
       (if over then [CFinish (JStr run_id) key] else [])"

fun report_calls :: "string \<Rightarrow> client_act \<Rightarrow> core_call list" where
  "report_calls key (Reports i event) = [CEvent (JStr i) event key]"
| "report_calls key (Finishes i) = [CFinish (JStr i) key]"
| "report_calls key _ = []"

lemma told_of_run_calls: "filter (\<lambda>k. is_run_call k \<and> told_of run_id k) ks = filter (told_of run_id) ks"
proof (rule filter_cong [OF refl])
  show "(is_run_call k \<and> told_of run_id k) = told_of run_id k" for k by (cases k) simp_all
qed

lemma acts_meaning_append:
  "acts_meaning E d c key (as @ bs) s =
     acts_meaning E d c key as s @ acts_meaning E d c key bs (fold (client_do E d c) as s)"
  by (induction as arbitrary: s) simp_all

lemma act_told:
  "\<not> offers run_id a \<Longrightarrow>
   filter (told_of run_id) (act_meaning E d key a s) = (if reports_on run_id a then report_calls key a else [])"
  by (cases a) auto

lemma reported_only:
  "\<forall>a \<in> set as. \<not> offers run_id a \<Longrightarrow>
   filter (told_of run_id) (acts_meaning E d c key as s) =
     concat (map (report_calls key) (filter (reports_on run_id) as))"
  by (induction as arbitrary: s) (simp_all add: act_told)

lemma report_calls_of:
  "concat (map (report_calls key \<circ> Reports run_id) es) = map (\<lambda>e. CEvent (JStr run_id) e key) es"
  by (induction es) simp_all

lemma client_keeps_agents: "cl_agents (fold (client_do E d c) as s) = cl_agents s"
proof (induction as arbitrary: s)
  case (Cons a as)
  have "cl_agents (client_do E d c a s) = cl_agents s"
    by (cases a) (auto simp: ask_messages_def send_event_def send_finish_def send_frame_def connection_closed_def
        fail_pending_queries_def query_timeout_def settle_def forget_def asker_resumes_def on_client_frame_def
        offer_def resolve_query_def Let_def split: if_splits sum.splits prod.splits json.splits option.splits)
  with Cons show ?case by simp
qed simp

text \<open>A run taken from the link and served, among any others, is told to core as it was served.\<close>

lemma served_run_told:
  assumes "taken_run E d n run_id dump (fold (client_do E d c) before s)" and "n \<in> cl_agents s"
    and "cl_outbound s = []" and "acts = before @ Hears (offered_frame dump (s_link g)) # after"
    and "\<forall>a \<in> set (before @ after). \<not> offers run_id a" and "filter (reports_on run_id) before = []"
    and "runtime_serves run_id given st reported over after" and "\<forall>a \<in> set acts. answers_accepted F a"
    and "sent = cl_outbound (fold (client_do E d c) acts s)"
    and "\<forall>f \<in> set sent. json_loads F (dumps f) = Inr (JObj f)" and "core_answers F"
  shows "\<exists>g'. read_loop (logged F) (over_the_wire dumps sent) g = (None, g') \<and>
    filter (told_of run_id) (calls_of g') =
      filter (told_of run_id) (calls_of g) @ run_told (conn_key (link_conn (s_link g))) run_id reported over"
proof -
  let ?key = "conn_key (link_conn (s_link g))"
  obtain fs where fs: "cl_outbound (fold (client_do E d c) acts s) = cl_outbound s @ fs" "list_all client_frame fs"
    "concat (map (run_calls F ?key) fs) = acts_meaning E d c ?key acts s"
    using acts_frames [OF assms(8)] by blast
  then have sent: "sent = fs" using assms(3,9) by simp
  let ?s = "fold (client_do E d c) before s"
  let ?heard = "Hears (offered_frame dump (s_link g))"
  have quiet: "\<forall>a \<in> set before. \<not> offers run_id a" "\<forall>a \<in> set after. \<not> offers run_id a" using assms(5) by auto
  have split: "acts_meaning E d c ?key acts s = acts_meaning E d c ?key before s @ act_meaning E d ?key ?heard ?s @
      acts_meaning E d c ?key after (client_do E d c ?heard ?s)"
    unfolding assms(4) acts_meaning_append acts_meaning.simps(2) ..
  have "filter (told_of run_id) (acts_meaning E d c ?key acts s) = run_told ?key run_id reported over"
    using assms(2,6,7) client_keeps_agents [of E d c before s]
    by (simp add: split run_taken(1) [OF assms(1)] reported_only [OF quiet(1)] reported_only [OF quiet(2)]
        runtime_serves_def report_calls_of run_told_def del: act_meaning.simps)
  moreover obtain g' where loop: "read_loop (logged F) (over_the_wire dumps sent) g = (None, g')"
    and told: "filter is_run_call (calls_of g') =
      filter is_run_call (calls_of g) @ concat (map (run_calls F ?key) sent)"
    using sent_told [OF fs(2) [folded sent] assms(10,11), of g] by blast
  moreover have "filter (told_of run_id) (calls_of g') =
      filter (told_of run_id) (calls_of g) @ filter (told_of run_id) (acts_meaning E d c ?key acts s)"
    using arg_cong [OF told, of "filter (told_of run_id)"] fs(3) sent by (simp add: told_of_run_calls)
  ultimately show ?thesis by auto
qed

section \<open>The processes\<close>

text \<open>An agent of a shipped relay: the client has it, its stream is well formed, its text is its upstream's.\<close>

lemma relay_handle:
  assumes "compat_main C T env fs = (Inr P, fs') \<or> template_main T env fs = (Inr P, fs')"
    and "map_of (po_agents P) n = Some h"
  shows "n \<in> cl_agents (po_client P) \<and> cl_outbound (po_client P) = [] \<and>
    well_bracketed (map event_type (hd_run_stream h t r ms)) \<and>
    (compat_main C T env fs = (Inr P, fs') \<longrightarrow> (\<exists>a. ac_name a = n \<and> h = compat_handle C a))"
proof -
  have agent: "n \<in> cl_agents (po_client P) \<and> cl_outbound (po_client P) = []"
    if "souk_provider T args fs = (Inr P, fs')" for args
    using souk_provider_made [OF that] by_name_in [of "pa_agents args" n h] assms(2) by (auto simp: client_init_def)
  have compat: "(\<exists>a. ac_name a = n \<and> h = compat_handle C a) \<and> (\<exists>args. souk_provider T args fs = (Inr P, fs'))"
    if "compat_main C T env fs = (Inr P, fs')"
    using compat_main_made [OF that] compat_agent_of [OF _ assms(2)] by blast
  have template: "well_bracketed (map event_type (hd_run_stream h t r ms)) \<and> (\<exists>args. souk_provider T args fs = (Inr P, fs'))"
    if up: "template_main T env fs = (Inr P, fs')"
    using template_echoes [OF up] map_of_SomeD [OF assms(2)] up unfolding template_main_def by blast
  show ?thesis using assms(1) agent compat template compat_stream_bracketed by metis
qed

section \<open>What core is told\<close>


definition terse_dump :: obj where
  "terse_dump =
     [(''runId'', JStr ''run1''), (''agentName'', JStr ''terse''),
      (''runInput'', JObj [(''threadId'', JStr ''t1''), (''runId'', JStr ''run1''), (''messages'', JList [])])]"

definition terse_events :: "obj list" where
  "terse_events =
     [run_started ''t1'' ''run1'', text_start ''run1-reply'', text_content ''run1-reply'' (JStr ''hi''), text_end ''run1-reply'',
      run_finished ''t1'' ''run1'']"

lemma terse_stream: "hd_run_stream terse_handle ''t1'' ''run1'' ms = terse_events"
  by (simp add: compat_handle_def make_run_stream_def sample_compat_def run_stream_def chunk_deltas_def dget_or_def
      delta_of_def text_events_def terse_events_def Let_def)

text \<open>Another run is reported on before the frame comes, and ends while this one is served.\<close>

definition terse_after :: "client_act list" where
  "terse_after = Finishes ''run0'' # map (Reports ''run1'') (map JObj terse_events) @ [Finishes ''run1'']"

definition terse_frames :: "obj list" where
  "terse_frames =
     report_event_frame ''run0'' (JStr ''e'') # ack_frame (JStr ''run1'') True # finish_run_frame ''run0'' #
       map (report_event_frame ''run1'') (map JObj terse_events) @ [finish_run_frame ''run1'']"

definition relay_dumps :: "obj \<Rightarrow> string" where
  "relay_dumps f =
     (case dget f ''event'' of
        JObj e \<Rightarrow> type_text e
      | _ \<Rightarrow> type_text f @ (case dget f ''runId'' of JStr i \<Rightarrow> i | _ \<Rightarrow> []))"

definition relay_core :: "sample core" where
  "relay_core = sample_core (map (\<lambda>f. (relay_dumps f, JObj f)) terse_frames)"

lemma relay_core_loads: "\<forall>f \<in> set terse_frames. json_loads relay_core (relay_dumps f) = Inr (JObj f)"
  by (simp add: relay_core_def sample_core_def terse_frames_def terse_events_def relay_dumps_def type_text_def
      ack_frame_def report_event_frame_def finish_run_frame_def run_started_def run_finished_def text_start_def
      text_content_def text_end_def)


end
