(* ===== verification/Woven_Run.thy ===== *)
theory Woven_Run
  imports Relayed_Run Agent_Run
begin

text \<open>
  A run of a pydantic-ai agent, from the queue its events and its delegations' progress share to what
  core is told: the stream of \<open>Agent_Run\<close> reported through the client of the SDK.
\<close>

section \<open>What is reported\<close>

fun item_event :: "queue_item \<Rightarrow> json" where
  "item_event (FromAgent e) = e"
| "item_event (FromTool p) = JObj p"
| "item_event DoneMark = JNull"

text \<open>What the run's loop is to the runtime: a stream that runs, ran out, or was cut.\<close>

definition stream_state :: "run_queue \<Rightarrow> stream_life" where
  "stream_state q = (case rq_end q of None \<Rightarrow> Running | Some Finished \<Rightarrow> Exhausted | Some Abandoned_run \<Rightarrow> Cut)"

lemma stream_state_simps [simp]:
  "stream_state q = Running \<longleftrightarrow> rq_end q = None" "stream_state q = Exhausted \<longleftrightarrow> rq_end q = Some Finished"
  by (simp_all add: stream_state_def split: option.split run_end.split)

lemma agent_part_prefix: "prefix xs ys \<Longrightarrow> prefix (agent_part xs) (agent_part ys)"
  by (auto simp: prefix_def)

section \<open>What core is told\<close>

text \<open>C13. A caller watches an agent and its delegations as they happened: at any moment of a run that was
  taken, served among any others, core has been told of it, under the key of the link, that it was
  accepted and then, each once and in their order, the first of the items put on the run's queue, the
  agent's own events among them a prefix of those it makes; and its end is told only once the loop
  ended: all put before the agent's task ended was told by then when the loop ended by itself, all the
  events it made included, while a cancelled run ends on what it had. The run is offered once and its
  socket outlives it; the provider package's runtime is any that reports what the stream gives and
  says when it ended.\<close>

theorem woven_run_told:
  assumes "reach (run_init events) run_step q"
    and "taken_run E d n run_id dump (fold (client_do E d c) before s)" and "n \<in> cl_agents s" and "cl_outbound s = []"
    and "acts = before @ Hears (offered_frame dump (s_link g)) # after"
    and "\<forall>a \<in> set (before @ after). \<not> offers run_id a" and "filter (reports_on run_id) before = []"
    and "runtime_serves run_id (map item_event (yielded q)) (stream_state q) reported over after"
    and "\<forall>a \<in> set acts. answers_accepted F a" and "sent = cl_outbound (fold (client_do E d c) acts s)"
    and "\<forall>f \<in> set sent. json_loads F (dumps f) = Inr (JObj f)" and "core_answers F"
  shows "\<exists>g' items. read_loop (logged F) (over_the_wire dumps sent) g = (None, g') \<and>
    filter (told_of run_id) (calls_of g') = filter (told_of run_id) (calls_of g) @
      run_told (conn_key (link_conn (s_link g))) run_id (map item_event items) over \<and>
    prefix items (shown q) \<and> prefix (agent_part items) events \<and> (over \<longrightarrow> rq_end q \<noteq> None) \<and>
    (over \<and> rq_end q = Some Finished \<longrightarrow> items = shown q \<and> agent_part items @ rq_left q = events)"
proof -
  let ?items = "take (length reported) (yielded q)"
  note runtime = assms(8) [unfolded runtime_serves_def stream_state_simps]
  have reported: "reported = map item_event ?items" using runtime by (auto simp: take_map [symmetric] prefix_def)
  note order = yielded_in_order [OF mv.reach_inv [OF assms(1)]]
  have items: "prefix ?items (yielded q)" by (rule take_is_prefix)
  have own: "prefix (agent_part ?items) events"
    using agent_part_prefix [OF items] order prefix_order.trans by blast
  have whole: "over \<and> rq_end q = Some Finished \<longrightarrow> ?items = yielded q" using runtime by auto
  from served_run_told [OF assms(2-12)] obtain g' where "read_loop (logged F) (over_the_wire dumps sent) g = (None, g')"
    "filter (told_of run_id) (calls_of g') = filter (told_of run_id) (calls_of g) @
      run_told (conn_key (link_conn (s_link g))) run_id (map item_event ?items) over"
    using reported by auto
  with own whole order items runtime prefix_order.trans show ?thesis by (metis (no_types, lifting))
qed

text \<open>The sample run once its loop took everything, on the sample client's link.\<close>

definition woven_done :: run_queue where
  "woven_done = run_at woven 4 [] False (Some Finished)"

lemma woven_done_reach: "reach (run_init [JStr ''started'', JStr ''finished'']) run_step woven_done"
proof -
  have "run_step (run_at woven i [] False None) (run_at woven (Suc i) [] False None)" if "i < 3" for i
  proof -
    have "woven ! i \<noteq> DoneMark" using that by (auto simp: less_Suc_eq eval_nat_numeral)
    with that r_takes [of "run_at woven i [] False None"] show ?thesis by (simp add: run_at_def take_next_def Let_def)
  qed
  then have "run_step (run_at woven 0 [] False None) (run_at woven 1 [] False None)"
    "run_step (run_at woven 1 [] False None) (run_at woven 2 [] False None)"
    "run_step (run_at woven 2 [] False None) (run_at woven 3 [] False None)" by (simp_all add: eval_nat_numeral)
  moreover have "run_step (run_at woven 3 [] False None) woven_done"
    using r_takes [of "run_at woven 3 [] False None"] by (simp add: run_at_def woven_done_def take_next_def Let_def eval_nat_numeral)
  ultimately show ?thesis using sample_run_reach by (meson reach_next)
qed

abbreviation woven_events :: "json list" where
  "woven_events \<equiv> [JStr ''started'', JObj [], JStr ''finished'']"

text \<open>And a run that was cancelled after its first event.\<close>

definition woven_cut :: run_queue where
  "woven_cut = run_at woven 1 [] False (Some Abandoned_run)"

lemma woven_cut_reach: "reach (run_init [JStr ''started'', JStr ''finished'']) run_step woven_cut"
proof -
  have "run_step (run_at woven 0 [] False None) (run_at woven 1 [] False None)"
    using r_takes [of "run_at woven 0 [] False None"] by (simp add: run_at_def take_next_def Let_def)
  moreover have "run_step (run_at woven 1 [] False None) woven_cut"
    using r_closed [of "run_at woven 1 [] False None"] by (simp add: run_at_def woven_cut_def)
  ultimately show ?thesis using sample_run_reach by (meson reach_next)
qed

definition woven_frames :: "json list \<Rightarrow> obj list" where
  "woven_frames es =
     ack_frame (JStr ''run1'') True # map (report_event_frame ''run1'') es @ [finish_run_frame ''run1'']"

definition woven_dumps :: "obj \<Rightarrow> string" where
  "woven_dumps f = (case dget f ''event'' of JStr e \<Rightarrow> e | JObj e \<Rightarrow> ''progress'' | _ \<Rightarrow> type_text f)"

definition woven_core :: "sample core" where
  "woven_core = sample_core (map (\<lambda>f. (woven_dumps f, JObj f)) (woven_frames woven_events))"

definition woven_after :: "json list \<Rightarrow> client_act list" where
  "woven_after es = map (Reports ''run1'') es @ [Finishes ''run1'']"

lemma woven_sent:
  "cl_outbound (fold (client_do wire_env sample_runtime (\<lambda>i r. r))
     ([] @ Hears (offered_frame wire_dump1 l) # woven_after es) sample_client) = woven_frames es"
proof -
  have taken: "taken_run wire_env sample_runtime ''echo'' ''run1'' wire_dump1 sample_client"
    by (simp add: taken_run_def wire_dump1_def untyped_def wire_env_def sample_runtime_def)
  have client: "''echo'' \<in> cl_agents sample_client" "cl_outbound sample_client = []" by (simp_all add: sample_client_def)
  have "cl_outbound (fold (client_do wire_env sample_runtime (\<lambda>i r. r)) (map (Reports ''run1'') es @ [Finishes ''run1'']) s) =
      cl_outbound s @ map (report_event_frame ''run1'') es @ [finish_run_frame ''run1'']" for s
    by (induction es arbitrary: s) (simp_all add: send_event_def send_finish_def send_frame_def dump_event_def)
  then show ?thesis
    using run_taken(2) [OF taken client(1)] client(2) by (simp add: woven_after_def woven_frames_def del: client_do.simps)
qed

theorem woven_run_told_witness:
  "(\<exists>g'. read_loop (logged woven_core) (over_the_wire woven_dumps (woven_frames woven_events))
      (sample_session (sample_state, [])) = (None, g') \<and>
    filter (told_of ''run1'') (calls_of g') = run_told ''key1'' ''run1'' woven_events True) \<and>
   (\<exists>g' items. read_loop (logged woven_core) (over_the_wire woven_dumps (woven_frames [JStr ''started'']))
      (sample_session (sample_state, [])) = (None, g') \<and>
    filter (told_of ''run1'') (calls_of g') = run_told ''key1'' ''run1'' (map item_event items) True \<and>
    prefix (agent_part items) [JStr ''started'', JStr ''finished''])"
proof -
  let ?g = "sample_session (sample_state, [] :: core_call list)"
  let ?acts = "\<lambda>es. [] @ Hears (offered_frame wire_dump1 (s_link ?g)) # woven_after es"
  have taken: "taken_run wire_env sample_runtime ''echo'' ''run1'' wire_dump1
      (fold (client_do wire_env sample_runtime (\<lambda>i r. r)) [] sample_client)"
    by (simp add: taken_run_def wire_dump1_def untyped_def wire_env_def sample_runtime_def)
  have client: "''echo'' \<in> cl_agents sample_client" "cl_outbound sample_client = []" by (simp_all add: sample_client_def)
  have once: "\<forall>a \<in> set ([] @ woven_after es). \<not> offers ''run1'' a" "filter (reports_on ''run1'') [] = []" for es
    by (auto simp: woven_after_def)
  have serves: "runtime_serves ''run1'' (map item_event (yielded woven_done)) (stream_state woven_done) woven_events True
      (woven_after woven_events)"
    "runtime_serves ''run1'' (map item_event (yielded woven_cut)) (stream_state woven_cut) [JStr ''started''] True
      (woven_after [JStr ''started''])"
    by (simp_all add: runtime_serves_def woven_after_def woven_done_def woven_cut_def run_at_def yielded_def stream_state_def)
  have loads: "\<forall>f \<in> set (woven_frames es). json_loads woven_core (woven_dumps f) = Inr (JObj f)"
    if "es = woven_events \<or> es = [JStr ''started'']" for es
    using that by (auto simp: woven_core_def sample_core_def woven_frames_def woven_dumps_def type_text_def
        ack_frame_def report_event_frame_def finish_run_frame_def)
  have core: "core_answers woven_core" by (simp add: woven_core_def sample_core_answers)
  have acked: "\<forall>a \<in> set (?acts es). answers_accepted woven_core a" for es
    unfolding offered_frame_of [OF taken]
    by (auto simp: answers_accepted_def woven_after_def dget_or_def wire_dump1_def woven_core_def sample_core_def)
  have start: "conn_key (link_conn (s_link ?g)) = ''key1''" "calls_of ?g = []" by (simp_all add: sample_session_def)
  have over: "rq_end woven_done = Some Finished" "map item_event (shown woven_done) = woven_events"
    by (simp_all add: woven_done_def run_at_def)
  note told = woven_run_told [OF _ taken client refl once _ acked woven_sent [symmetric] loads core, unfolded start]
  from told [OF woven_done_reach serves(1)] told [OF woven_cut_reach serves(2)] show ?thesis
    using over by (simp add: woven_frames_def) fastforce
qed

end
