(* ===== verification/Pydantic_Process.thy ===== *)
theory Pydantic_Process
  imports Openai_Process Agent_Setup
begin

text \<open>
  The pydantic-ai provider from its configuration file (\<open>config.py\<close>, \<open>main\<close>) to what a run starts with
  (\<open>make_run_stream\<close>, up to its queue). Unlike the other provider's, its configuration is parsed as it is
  written, without variables.
\<close>

section \<open>The configuration file\<close>

record pydantic_parts =
  yp_decode :: "string \<Rightarrow> exn + string"
  yp_validate :: "string \<Rightarrow> exn + template_config"

definition load_template_config :: "pydantic_parts \<Rightarrow> path \<Rightarrow> (filesystem, exn, template_config) call" where
  "load_template_config Y p = bind_io (read_bytes p) (\<lambda>raw.
     case yp_decode Y raw of
       Inl e \<Rightarrow> raise_io e
     | Inr text \<Rightarrow> (case yp_validate Y (universal_newlines text) of Inl e \<Rightarrow> raise_io e | Inr cfg \<Rightarrow> ret_io cfg))"

definition template_path_of :: "(string \<rightharpoonup> string) \<Rightarrow> string" where
  "template_path_of env = (case env ''AGENT_TEMPLATE_CONFIG'' of None \<Rightarrow> ''config.yaml'' | Some p \<Rightarrow> p)"

definition pydantic_main ::
  "pydantic_parts \<Rightarrow> 'k keys \<Rightarrow> os_answers \<Rightarrow> (path \<Rightarrow> (filesystem, exn, 'k) call) \<Rightarrow> (string \<Rightarrow> path) \<Rightarrow> 'k \<Rightarrow>
   (string \<rightharpoonup> string) \<Rightarrow> (filesystem, exn, 'k provider_process) call" where
  "pydantic_main Y K S package_load path_of generated env =
     bind_io (load_template_config Y (path_of (template_path_of env))) (\<lambda>cfg.
       agent_main K S package_load path_of generated env cfg)"

section \<open>The start of a run\<close>

text \<open>
  Of the dumped input, the fields the provider reads.
  The input as the agent is given it: the caller's messages or the thread's with them, the credentials
  and the conversations its tools get, and the model it runs with, if not its own.
\<close>

record run_input =
  ri_thread_id :: string
  ri_run_id :: string
  ri_messages :: "obj list"
  ri_forwarded :: json

definition input_dump :: "run_input \<Rightarrow> obj list \<Rightarrow> obj" where
  "input_dump i messages =
     [(''threadId'', JStr (ri_thread_id i)), (''runId'', JStr (ri_run_id i)), (''messages'', JList (map JObj messages)),
      (''forwardedProps'', ri_forwarded i)]"

record started_run =
  sr_input :: obj
  sr_deps :: agent_deps
  sr_contexts :: "string \<Rightarrow> json option"
  sr_model :: "chosen_model option"

definition start_run ::
  "'k keys \<Rightarrow> ('k \<Rightarrow> presenter_identity) \<Rightarrow> 'k \<Rightarrow> string \<Rightarrow> (json \<Rightarrow> string option) \<Rightarrow> agent_handle \<Rightarrow>
   bool \<Rightarrow> (string \<Rightarrow> int option \<Rightarrow> obj list option) \<Rightarrow> sub_threads \<Rightarrow> run_input \<Rightarrow> started_run" where
  "start_run K wrap signing_key souk_http_url token_of h linked thread_messages S i =
     (let messages = with_thread_history (JStr (ri_thread_id i)) linked (ah_history_limit h)
            (thread_messages (ri_thread_id i) (ah_history_limit h)) (ri_messages i);
          dump = input_dump i messages in
      \<lparr>sr_input = dump, sr_deps = run_deps K wrap signing_key (JStr (ri_thread_id i)) (ri_run_id i),
       sr_contexts = contexts_of S (JStr (ri_thread_id i)),
       sr_model = run_model (ah_use_kyok h) token_of souk_http_url dump\<rparr>)"

section \<open>Facts\<close>

lemma pydantic_main_refused:
  assumes "fst (load_template_config Y (path_of (template_path_of env)) fs) = Inl e"
  shows "pydantic_main Y K S package_load path_of generated env fs = (Inl e, fs)"
proof -
  have "snd (load_template_config Y p fs) = fs" for p
    by (simp add: load_template_config_def read_bytes_def io_simps split: option.split node.split sum.split)
  with assms have "load_template_config Y (path_of (template_path_of env)) fs = (Inl e, fs)" by (metis prod.collapse)
  then show ?thesis by (simp add: pydantic_main_def bind_io_Inl)
qed

text \<open>A run is given the thread and the run it is told of, and its own messages are all there, whatever was read.\<close>

lemma merge_keeps_own:
  assumes "m \<in> set messages"
  shows "m \<in> set (with_thread_history t linked limit answer messages) \<or>
    (truthy (dget m ''id'') \<and> (\<exists>m' \<in> set (with_thread_history t linked limit answer messages). dget m' ''id'' = dget m ''id''))"
  using assms by (auto simp: with_thread_history_def unstored_def seen_ids_def split: option.split)

lemma started_run_input:
  assumes "sr = start_run K wrap k url token_of h linked thread_messages S i"
  shows "dget (sr_input sr) ''threadId'' = JStr (ri_thread_id i)" and "dget (sr_input sr) ''runId'' = JStr (ri_run_id i)"
    and "de_run_id (sr_deps sr) = ri_run_id i"
    and "\<exists>messages. dget (sr_input sr) ''messages'' = JList (map JObj messages) \<and>
      (\<forall>m \<in> set (ri_messages i). m \<in> set messages \<or> (truthy (dget m ''id'') \<and> (\<exists>m' \<in> set messages. dget m' ''id'' = dget m ''id'')))"
proof -
  show "dget (sr_input sr) ''threadId'' = JStr (ri_thread_id i)" "dget (sr_input sr) ''runId'' = JStr (ri_run_id i)"
    "de_run_id (sr_deps sr) = ri_run_id i"
    by (simp_all add: assms start_run_def Let_def input_dump_def run_deps_def)
  let ?messages = "with_thread_history (JStr (ri_thread_id i)) linked (ah_history_limit h)
      (thread_messages (ri_thread_id i) (ah_history_limit h)) (ri_messages i)"
  have "dget (sr_input sr) ''messages'' = JList (map JObj ?messages)"
    by (simp add: assms start_run_def Let_def input_dump_def)
  then show "\<exists>messages. dget (sr_input sr) ''messages'' = JList (map JObj messages) \<and>
      (\<forall>m \<in> set (ri_messages i). m \<in> set messages \<or> (truthy (dget m ''id'') \<and> (\<exists>m' \<in> set messages. dget m' ''id'' = dget m ''id'')))"
    using merge_keeps_own [of _ "ri_messages i"] by (intro exI [of _ ?messages]) blast
qed

text \<open>A run offered no relay, or of an agent that takes none, runs with the agent's own model.\<close>

lemma started_run_own_model:
  assumes "\<not> ah_use_kyok h \<or> ri_forwarded i = JNull"
  shows "sr_model (start_run K wrap k url token_of h linked thread_messages S i) = None"
  using assms by (auto simp: start_run_def Let_def input_dump_def run_model_def resolve_kyok_model_def)

end
