(* ===== verification/Dev_Cert.thy ===== *)
theory Dev_Cert
  imports Identity
begin

text \<open>
  \<open>scripts/gen_dev_tls_cert.py\<close>: the self-signed certificate for development and its key, written into a
  directory of the file system of \<open>Identity\<close>. Key generation, the certificate builder and both
  encodings are the cryptography package's and arguments, as are the serial number and the clock.
\<close>

section \<open>The certificate\<close>

datatype alternative_name = DnsName string | IpAddress string

record 'k certificate =
  ct_subject :: "(string \<times> string) list"
  ct_issuer :: "(string \<times> string) list"
  ct_public_key :: 'k
  ct_serial :: nat
  ct_not_before :: int
  ct_not_after :: int
  ct_alternatives :: "alternative_name list"
  ct_critical :: bool

text \<open>The clock, in seconds, is read twice.\<close>

record ('s, 'k) cert_library =
  cy_generate :: "nat \<Rightarrow> nat \<Rightarrow> 's"
  cy_public_key :: "'s \<Rightarrow> 'k"
  cy_serial :: nat
  cy_now :: int
  cy_now_again :: int
  cy_sign :: "'k certificate \<Rightarrow> 's \<Rightarrow> string"
  cy_private_pem :: "'s \<Rightarrow> string"

definition common_name :: "(string \<times> string) list" where
  "common_name = [(''commonName'', ''localhost'')]"

definition dev_certificate :: "('s, 'k) cert_library \<Rightarrow> 's \<Rightarrow> 'k certificate" where
  "dev_certificate L key =
     \<lparr>ct_subject = common_name, ct_issuer = common_name, ct_public_key = cy_public_key L key, ct_serial = cy_serial L,
      ct_not_before = cy_now L, ct_not_after = cy_now_again L + 365 * 24 * 60 * 60,
      ct_alternatives = [DnsName ''localhost'', IpAddress ''127.0.0.1''], ct_critical = False\<rparr>"

section \<open>The script\<close>

text \<open>\<open>mkdir(parents=True, exist_ok=True)\<close> of the directory itself.\<close>

definition make_all :: "os_answers \<Rightarrow> path \<Rightarrow> (filesystem, exn, unit) call" where
  "make_all S p = make_dirs S (prefixes p)"

definition out_dir_of :: "string list \<Rightarrow> string" where
  "out_dir_of argv = (case argv of script # dir # rest \<Rightarrow> dir | _ \<Rightarrow> ''.'')"

text \<open>Each write may be refused on its own; what is printed are the two paths.\<close>

definition cert_main ::
  "('s, 'k) cert_library \<Rightarrow> os_answers \<Rightarrow> os_answers \<Rightarrow> (string \<Rightarrow> path) \<Rightarrow> string list \<Rightarrow>
   (filesystem, exn, path \<times> path) call" where
  "cert_main L S S' path_of argv =
     (let out_dir = path_of (out_dir_of argv);
          key = cy_generate L 65537 2048;
          cert_path = out_dir @ [''dev_cert.pem''];
          key_path = out_dir @ [''dev_key.pem''] in
      bind_io (make_all S out_dir) (\<lambda>_.
      bind_io (write_bytes S cert_path (cy_sign L (dev_certificate L key) key)) (\<lambda>_.
      bind_io (write_bytes S' key_path (cy_private_pem L key)) (\<lambda>_.
      ret_io (cert_path, key_path)))))"

section \<open>What it leaves\<close>

definition mode_after :: "os_answers \<Rightarrow> filesystem \<Rightarrow> path \<Rightarrow> 9 word" where
  "mode_after S fs p = (case node_at fs p of Some (FileNode _ m) \<Rightarrow> m | _ \<Rightarrow> 0b110110110 AND NOT (umask S))"

lemma write_bytes_mode:
  assumes "write_bytes S p raw fs = (Inr (), fs')"
  shows "fs' = fs(p \<mapsto> FileNode raw (mode_after S fs p))"
  using assms by (auto simp: write_bytes_def mode_after_def Let_def split: option.splits node.splits)

lemma make_all_grows:
  assumes "make_all S p fs = (r, fs')"
  shows "only_grows fs fs' \<and> (\<forall>q. length p < length q \<longrightarrow> node_at fs' q = node_at fs q)"
proof -
  have "q \<notin> set (prefixes p)" if "length p < length q" for q
    using that by (metis in_set_prefixes leD prefix_length_le)
  with make_dirs_grows [OF assms [unfolded make_all_def]] show ?thesis by blast
qed

text \<open>
  The pair belongs together, nothing else is touched, and both files have the permissions they had or
  else those the umask leaves: the key is never narrowed to its owner, unlike a provider's.
\<close>

lemma dev_pair_written:
  assumes "cert_main L S S' path_of argv fs = (Inr (cert_path, key_path), fs')"
  shows "\<exists>key. node_at fs' cert_path = Some (FileNode (cy_sign L (dev_certificate L key) key) (mode_after S fs cert_path)) \<and>
    node_at fs' key_path = Some (FileNode (cy_private_pem L key) (mode_after S' fs key_path)) \<and>
    ct_public_key (dev_certificate L key) = cy_public_key L key \<and>
    (\<forall>q. node_at fs q \<noteq> None \<and> q \<notin> {cert_path, key_path} \<longrightarrow> node_at fs' q = node_at fs q)"
proof -
  let ?d = "path_of (out_dir_of argv)" and ?key = "cy_generate L 65537 2048"
  from assms obtain fs1 fs2 where paths: "cert_path = ?d @ [''dev_cert.pem'']" "key_path = ?d @ [''dev_key.pem'']"
    and dirs: "make_all S ?d fs = (Inr (), fs1)"
    and cert: "write_bytes S cert_path (cy_sign L (dev_certificate L ?key) ?key) fs1 = (Inr (), fs2)"
    and key: "write_bytes S' key_path (cy_private_pem L ?key) fs2 = (Inr (), fs')"
    by (auto simp: cert_main_def Let_def io_simps split: prod.splits sum.splits)
  have paths_ne: "cert_path \<noteq> []" "key_path \<noteq> []" "cert_path \<noteq> key_path" using paths by simp_all
  note grows = make_all_grows [OF dirs]
  have same: "node_at fs1 cert_path = node_at fs cert_path" "node_at fs1 key_path = node_at fs key_path"
    using grows paths by simp_all
  have fs2: "fs2 = fs1(cert_path \<mapsto> FileNode (cy_sign L (dev_certificate L ?key) ?key) (mode_after S fs cert_path))"
    using write_bytes_mode [OF cert] same by (simp add: mode_after_def)
  have fs': "fs' = fs2(key_path \<mapsto> FileNode (cy_private_pem L ?key) (mode_after S' fs key_path))"
    using write_bytes_mode [OF key] paths_ne same by (simp add: mode_after_def fs2)
  show ?thesis
    using paths_ne grows by (intro exI [of _ ?key]) (auto simp: fs' fs2 dev_certificate_def only_grows_def)
qed

text \<open>With the usual umask a new key file can be read by everybody on the machine.\<close>

lemma dev_key_readable:
  assumes "umask S = 0b000010010" and "node_at fs p = None"
  shows "mode_after S fs p = 0b110100100"
  using assms by (simp add: mode_after_def)

text \<open>A refused key write leaves a certificate without its key.\<close>

lemma dev_pair_torn:
  assumes "fst (cert_main L S S' path_of argv fs) = Inl e" and "write_refused S = None"
    and "make_all S (path_of (out_dir_of argv)) fs = (Inr (), fs1)"
  shows "\<exists>n. write_refused S' = Some (e, n) \<and>
    (\<exists>mode. node_at (snd (cert_main L S S' path_of argv fs)) (path_of (out_dir_of argv) @ [''dev_cert.pem'']) =
      Some (FileNode (cy_sign L (dev_certificate L (cy_generate L 65537 2048)) (cy_generate L 65537 2048)) mode))"
proof -
  let ?d = "path_of (out_dir_of argv)" and ?key = "cy_generate L 65537 2048"
  obtain fs2 where cert: "write_bytes S (?d @ [''dev_cert.pem'']) (cy_sign L (dev_certificate L ?key) ?key) fs1 = (Inr (), fs2)"
    using assms(2) by (simp add: write_bytes_def Let_def)
  from write_bytes_mode [OF cert] have there:
    "node_at fs2 (?d @ [''dev_cert.pem'']) =
       Some (FileNode (cy_sign L (dev_certificate L ?key) ?key) (mode_after S fs1 (?d @ [''dev_cert.pem''])))" by simp
  have run: "cert_main L S S' path_of argv fs =
      bind_io (write_bytes S' (?d @ [''dev_key.pem'']) (cy_private_pem L ?key))
        (\<lambda>_. ret_io (?d @ [''dev_cert.pem''], ?d @ [''dev_key.pem''])) fs2"
    using assms(3) cert by (simp add: cert_main_def Let_def io_simps)
  show ?thesis
    using assms(1) there unfolding run by (auto simp: write_bytes_def Let_def io_simps split: option.splits)
qed

end
