(* ===== verification/Guides.thy ===== *)
theory Guides
  imports Market_Tools Docent
begin

text \<open>
  \<open>souk_tools.py\<close>: the developer guides, as they are written, and the tool that looks one up. A topic
  is compared without the white space around it and in lower case.
\<close>

section \<open>The guides\<close>

definition guide_architecture :: string where
  "guide_architecture = join [CHR 0x0A]
    [[],
     ''### Agent Souk Architecture Overview'',
     ''- **Relay Mechanism**: Outbound-only gRPC streams (`souk-agent-sdk`). Agents do not require public IPs, open ports, or ingress tunnels (ngrok).'',
     ''- **Dual Gateway**: Exposes AG-UI (SSE for human interfaces) and A2A (JSON-RPC for agent-to-agent) on a single FastAPI gateway.'',
     ''- **Identity**: Ed25519 cryptographic keypairs. No passwords, central DB, or registration signup flow.'',
     ''- **Actor Chains**: Multi-hop EdDSA JWT chain verification for auditable caller provenance in multi-agent workflows.'',
     ''- **Persistence**: ParadeDB / Postgres for durable threads, message history, and HITL async task pause/resume.'',
     []]"

definition guide_how_to_connect :: string where
  "guide_how_to_connect = join [CHR 0x0A]
    [[],
     ''### How to Connect a New Agent to Souk'',
     ''1. **Copy the Reference Template**: Start from `agent-template/` or use `souk-agent-sdk` in Python.'',
     ''2. **Install SDK**: `pip install souk-agent-sdk` (or add as a dependency via `uv`).'',
     ''3. **Write an AgentHandle**:'',
     ''```python'',
     ''from souk_agent_sdk import AgentHandle, SoukProvider'',
     [],
     ''async def my_agent_run(run_input: dict):'',
     ''    # Process messages from run_input'',
     ''    yield {\"type\": \"TEXT_DELTA\", \"delta\": \"Hello from my agent!\"}'',
     [],
     ''handle = AgentHandle(name=\"my-custom-agent\", description=\"My agent description\", run_stream=my_agent_run)'',
     ''provider = SoukProvider(souk_http_url=\"http://localhost:8000\", handles=[handle])'',
     ''await provider.run_forever()'',
     ''```'',
     ''4. **Run Docker or Host Process**: Launch your agent, and it will register automatically via Ed25519 identity key!'',
     []]"

definition guide_identity :: string where
  "guide_identity = join [CHR 0x0A]
    [[],
     ''### Provider & Caller Identity Model'',
     ''- **Ed25519 Keypair**: Created on first launch (default `souk_identity.key`). Back it up like any credential.'',
     ''- **Agent Ownership**: An agent *is* `(public_key, name)` '' @ em_dash @ '' souk mints no id for it, so re-registering with the same key is the same agent, and a name registered by another key is a different one.'',
     ''- **Actor Chain**: When delegating across agents, each hop appends an EdDSA JWT signed by that agent'' @ [CHR 0x27] @ ''s private key, bound to `prevHash` of the previous token.'',
     []]"

definition guide_quickstart :: string where
  "guide_quickstart = join [CHR 0x0A]
    [[],
     ''### Quickstart with Docker Compose'',
     ''Run the entire stack in 1 minute:'',
     ''```bash'',
     ''cp .env.example .env'',
     ''docker compose up --build'',
     ''```'',
     ''Then open `http://localhost:8080` for the Web Directory & Live Chat UI!'',
     []]"

definition DEV_GUIDES :: "(string \<times> string) list" where
  "DEV_GUIDES =
    [(''architecture'', guide_architecture),
     (''how_to_connect'', guide_how_to_connect),
     (''identity'', guide_identity),
     (''quickstart'', guide_quickstart)]"

section \<open>A topic as it is compared\<close>

text \<open>\<open>str.strip\<close>: the characters Python takes for white space, of one byte and of more.\<close>

definition white_space :: "string \<Rightarrow> bool" where
  "white_space p \<longleftrightarrow>
     (case p of
        [c] \<Rightarrow> (let n = of_char c :: nat in 9 \<le> n \<and> n \<le> 13 \<or> 28 \<le> n \<and> n \<le> 32)
      | _ \<Rightarrow> p \<in> {[CHR 0xC2, CHR 0x85], [CHR 0xC2, CHR 0xA0], [CHR 0xE1, CHR 0x9A, CHR 0x80],
                  [CHR 0xE2, CHR 0x80, CHR 0xA8], [CHR 0xE2, CHR 0x80, CHR 0xA9], [CHR 0xE2, CHR 0x80, CHR 0xAF],
                  [CHR 0xE2, CHR 0x81, CHR 0x9F], [CHR 0xE3, CHR 0x80, CHR 0x80]} \<or>
            (case p of [a, b, c] \<Rightarrow> a = CHR 0xE2 \<and> b = CHR 0x80 \<and> CHR 0x80 \<le> c \<and> c \<le> CHR 0x8A | _ \<Rightarrow> False))"

definition strip_points :: "string list \<Rightarrow> string list" where
  "strip_points ps = rev (dropWhile white_space (rev (dropWhile white_space ps)))"

text \<open>
  \<open>str.lower\<close>, as far as an ASCII text can come of it: the ASCII capitals, and the Kelvin sign. Every other
  character's lower case holds a character beyond ASCII, and is kept as it is.
\<close>

definition lower_point :: "string \<Rightarrow> string" where
  "lower_point p =
     (case p of
        [c] \<Rightarrow> [ascii_lower c]
      | _ \<Rightarrow> if p = [CHR 0xE2, CHR 0x84, CHR 0xAA] then ''k'' else p)"

definition topic_clean :: "string \<Rightarrow> string" where
  "topic_clean topic = concat (map lower_point (strip_points (code_points topic)))"

definition get_souk_developer_guide :: "string \<Rightarrow> string" where
  "get_souk_developer_guide topic =
     (case map_of DEV_GUIDES (topic_clean topic) of
        Some guide \<Rightarrow> guide
      | None \<Rightarrow> ''Unknown topic '' @ quote topic @ ''. Available topics: '' @ join '', '' (map fst DEV_GUIDES) @
                [CHR 0x0A, CHR 0x0A] @ guide_quickstart)"

section \<open>Facts\<close>

lemma strip_points_clean: "strip_points (strip_points ps) = strip_points ps"
proof -
  have ends: "ps = [] \<or> \<not> white_space (hd ps) \<Longrightarrow> dropWhile white_space ps = ps" for ps
    by (cases ps) auto
  have "rev (strip_points ps) = [] \<or> \<not> white_space (hd (rev (strip_points ps)))"
    unfolding strip_points_def rev_rev_ident by (metis hd_dropWhile)
  moreover have "strip_points ps = [] \<or> \<not> white_space (hd (strip_points ps))"
  proof (cases "strip_points ps")
    case (Cons q qs)
    let ?d = "dropWhile white_space ps"
    have "prefix (strip_points ps) ?d"
      unfolding strip_points_def by (metis rev_rev_ident suffix_dropWhile suffix_to_prefix)
    with Cons obtain zs where "?d = q # zs" by (auto simp: prefix_def)
    then show ?thesis using Cons hd_dropWhile [of white_space ps] by (metis list.discI list.sel(1))
  qed simp
  ultimately show ?thesis using ends [of "strip_points ps"] ends [of "rev (strip_points ps)"]
    by (simp add: strip_points_def)
qed

text \<open>Whatever is asked, a guide is told; a topic's own, whatever surrounds it, or else the first steps.\<close>

lemma guide_told:
  "\<exists>t guide words. (t, guide) \<in> set DEV_GUIDES \<and> get_souk_developer_guide topic = words @ guide \<and>
     (if topic_clean topic \<in> fst ` set DEV_GUIDES then t = topic_clean topic \<and> words = [] else t = ''quickstart'')"
proof (cases "map_of DEV_GUIDES (topic_clean topic)")
  case None
  then have "topic_clean topic \<notin> fst ` set DEV_GUIDES" by (simp add: map_of_eq_None_iff)
  with None show ?thesis
    by (intro exI [of _ "''quickstart''"] exI [of _ guide_quickstart] exI) (auto simp: get_souk_developer_guide_def DEV_GUIDES_def)
next
  case (Some guide)
  then have "(topic_clean topic, guide) \<in> set DEV_GUIDES" by (rule map_of_SomeD)
  with Some show ?thesis
    by (intro exI [of _ "topic_clean topic"] exI [of _ guide] exI [of _ "[]"])
       (force simp: get_souk_developer_guide_def)
qed

lemma topics_clean: "t \<in> fst ` set DEV_GUIDES \<Longrightarrow> topic_clean t = t"
  by (auto simp: DEV_GUIDES_def topic_clean_def strip_points_def white_space_def lower_point_def ascii_lower_def continuation_def)

lemma topic_examples:
  "topic_clean ('' '' @ ''Identity'' @ [CHR 0x0A]) = ''identity''"
  "topic_clean (''quic'' @ [CHR 0xE2, CHR 0x84, CHR 0xAA] @ ''start'') = ''quickstart''"
  by code_simp+

end
