(* ===== verification/Task_Read.thy ===== *)
theory Task_Read
  imports A2a_Client A2A_Props
begin

text \<open>
  A task read from end to end: \<open>get_task\<close> of the agent SDK against the A2A door, from the proof the
  client signs to the rule the door applies. The JSON-RPC dispatcher is another package's: an
  argument, with its documented behaviour for this one method as a hypothesis.
\<close>

section \<open>The door\<close>

text \<open>\<open>SoukA2ARequestHandler(funduq, agent, body)\<close>: bound to the agent, its hook closed over the body.\<close>

record 'c request_handler =
  rh_core :: "'c a2a_core"
  rh_presenter :: "(string \<rightharpoonup> string) \<Rightarrow> hook"

definition new_handler :: "(agent_ref \<Rightarrow> 'c a2a_core) \<Rightarrow> presenter_env \<Rightarrow> agent_ref \<Rightarrow> string \<Rightarrow> 'c request_handler" where
  "new_handler F S agent body =
     \<lparr>rh_core = F agent, rh_presenter = (\<lambda>headers. presenter_hook S headers body)\<rparr>"

text \<open>The headers as the dispatcher's context carries them.\<close>

definition context_headers :: "(string \<times> string) list \<Rightarrow> (string \<rightharpoonup> string)" where
  "context_headers hs = map_of (map (\<lambda>(k, v). (map ascii_lower k, v)) hs)"

type_synonym 'c dispatcher = "'c request_handler \<Rightarrow> (string \<rightharpoonup> string) \<Rightarrow> string \<Rightarrow> ('c, exn, obj) call"

text \<open>
  The route: the agent is resolved, then the dispatcher answers. Whatever is raised past them is an error
  status, an \<open>HTTPException\<close> its own and any other error its handler's, and the client's
  \<open>raise_for_status\<close> raises on it.
\<close>

definition a2a_door ::
  "(agent_ref \<Rightarrow> 'c a2a_core) \<Rightarrow> presenter_env \<Rightarrow> (string \<Rightarrow> string \<Rightarrow> ('c, exn, agent_ref option) call) \<Rightarrow>
   'c dispatcher \<Rightarrow> string \<Rightarrow> string \<Rightarrow> 'c poster" where
  "a2a_door F S resolve_agent dispatch provider name raw hs =
     catch_io
       (bind_io (resolve_ref resolve_agent provider name) (\<lambda>agent.
          dispatch (new_handler F S agent raw) (context_headers hs) raw))
       (\<lambda>e. raise_io http_refused)"

text \<open>
  What the dispatcher answers: a task as its JSON, nothing and any error as a JSON-RPC error, save that
  an \<open>HTTPException\<close> is raised again (\<open>_escape\<close> relies on it). It does so for a request that names the
  protocol's version 1.0 in the header \<open>A2A-Version\<close>: a request without it speaks 0.3, which has no
  \<open>GetTask\<close>, and of such a one nothing is supposed.
\<close>

record task_answers =
  an_loads :: "string \<Rightarrow> exn + json"
  an_task :: "task \<Rightarrow> json"
  an_not_found :: json
  an_error :: "exn \<Rightarrow> json"

definition task_answer :: "task_answers \<Rightarrow> json \<Rightarrow> exn + task option \<Rightarrow> obj" where
  "task_answer A i r =
     [(''jsonrpc'', JStr ''2.0''), (''id'', i)] @
     (case r of
        Inr (Some t) \<Rightarrow> [(''result'', an_task A t)]
      | Inr None \<Rightarrow> [(''error'', an_not_found A)]
      | Inl e \<Rightarrow> [(''error'', an_error A e)])"

definition serves_get_task :: "task_answers \<Rightarrow> 'c dispatcher \<Rightarrow> bool" where
  "serves_get_task A dispatch \<longleftrightarrow>
     (\<forall>H headers raw i params.
        an_loads A raw = Inr (JObj (rpc_body i ''GetTask'' params)) \<and>
        headers ''a2a-version'' = Some ''1.0'' \<longrightarrow>
        dispatch H headers raw = (\<lambda>c.
          case on_get_task (rh_core H) (rh_presenter H headers) (JObj params) c of
            (Inl (HttpExn status m hs), c') \<Rightarrow> (Inl (HttpExn status m hs), c')
          | (r, c') \<Rightarrow> (Inr (task_answer A (JStr i) r), c')))"

definition answers_told :: "task_answers \<Rightarrow> bool" where
  "answers_told A \<longleftrightarrow> an_not_found A \<noteq> JNull \<and> (\<forall>e. an_error A e \<noteq> JNull)"

section \<open>What a reader is told\<close>

definition told_task :: "task_answers \<Rightarrow> exn + task option \<Rightarrow> exn + json" where
  "told_task A r =
     (case r of
        Inr (Some t) \<Rightarrow> Inr (an_task A t)
      | Inr None \<Rightarrow> Inl (Exn RuntimeError (''GetTask failed: '' @ py_str (an_not_found A)))
      | Inl (HttpExn status m hs) \<Rightarrow> Inl http_refused
      | Inl e \<Rightarrow> Inl (Exn RuntimeError (''GetTask failed: '' @ py_str (an_error A e))))"

lemma rpc_result_told:
  "answers_told A \<Longrightarrow> (\<And>status m hs. r \<noteq> Inl (HttpExn status m hs)) \<Longrightarrow>
   rpc_result ''GetTask'' (task_answer A i r) = told_task A r"
  by (auto simp: rpc_result_def task_answer_def told_task_def answers_told_def split: sum.split option.split exn.split)

definition get_task_params :: "string \<Rightarrow> int option \<Rightarrow> obj" where
  "get_task_params tid history_length =
     (''id'', JStr tid) # (case history_length of None \<Rightarrow> [] | Some n \<Rightarrow> [(''historyLength'', JInt n)])"

text \<open>HTTP's header names do not keep their case, and the three the client sends stay apart.\<close>

lemma header_lowered:
  "context_headers [(A2A_VERSION_HEADER, x), (''Content-Type'', y)] PRESENTER_HEADER = None"
  "context_headers [(A2A_VERSION_HEADER, x), (''Content-Type'', y), (CLIENT_PRESENTER_HEADER, v)] PRESENTER_HEADER = Some v"
  by code_simp+

lemma version_lowered:
  "context_headers [(A2A_VERSION_HEADER, x), (''Content-Type'', y)] ''a2a-version'' = Some x"
  "context_headers [(A2A_VERSION_HEADER, x), (''Content-Type'', y), (CLIENT_PRESENTER_HEADER, v)] ''a2a-version'' = Some x"
  by code_simp+

lemma presented_context:
  assumes "presented E body identity chain = Inr (raw, hs)"
  shows "context_headers hs PRESENTER_HEADER = map_of hs CLIENT_PRESENTER_HEADER \<and>
    context_headers hs ''a2a-version'' = Some ''1.0''"
proof -
  let ?base = "[(A2A_VERSION_HEADER, A2A_PROTOCOL_VERSION), (''Content-Type'', ''application/json'')]"
  have ne: "CLIENT_PRESENTER_HEADER \<noteq> A2A_VERSION_HEADER" "CLIENT_PRESENTER_HEADER \<noteq> ''Content-Type''"
    by (simp_all add: CLIENT_PRESENTER_HEADER_def A2A_VERSION_HEADER_def)
  from assms consider "hs = ?base" | v where "hs = ?base @ [(CLIENT_PRESENTER_HEADER, v)]"
    using ne by (auto simp: presented_def presenter_headers_def Let_def split: if_splits option.splits sum.splits)
  then show ?thesis
    using ne not_sym [OF ne(1)] not_sym [OF ne(2)] by cases (simp_all add: header_lowered version_lowered A2A_PROTOCOL_VERSION_def)
qed

text \<open>The key the door reads is the one the client signed with, or none.\<close>

lemma presented_key:
  assumes "presented E body identity False = Inr (raw, hs)" and "pe_sha256hex S = sdk_sha256hex E" and "pe_fresh S (sdk_now E)"
    and "\<And>I payload. identity = Some I \<Longrightarrow> sdk_dumps E (JObj (proof_obj I (sdk_now E) payload)) \<noteq> [] \<and>
           pe_loads S (sdk_dumps E (JObj (proof_obj I (sdk_now E) payload))) = Inr (JObj (proof_obj I (sdk_now E) payload)) \<and>
           pe_verify S (pi_key I) (pi_sign I payload) payload"
  shows "presenter_hook S (context_headers hs) raw = Inr (map_option pi_key identity)"
proof (cases identity)
  case None
  with assms(1) have "hs = [(A2A_VERSION_HEADER, A2A_PROTOCOL_VERSION), (''Content-Type'', ''application/json'')]"
    by (auto simp: presented_def presenter_headers_def Let_def split: if_splits)
  with None presented_context [OF assms(1)] show ?thesis
    by (simp add: presenter_hook_def presenter_key_of_def CLIENT_PRESENTER_HEADER_def A2A_VERSION_HEADER_def)
next
  case (Some I)
  have "presenter_key_of S (map_of hs CLIENT_PRESENTER_HEADER) raw = Inr (Some (pi_key I))"
    by (rule presented_read [OF assms(1) [unfolded Some] assms(2)]) (use assms(3,4) Some in auto)
  with Some presented_context [OF assms(1)] show ?thesis by (simp add: presenter_hook_def)
qed

text \<open>A task told went to somebody the rule lets read its thread.\<close>

lemma told_was_admitted:
  assumes "on_get_task F (Inr key) params c = (r, c')" and "told_task A r = Inr j"
  shows "\<exists>task t c1. up_get_task F (Inr key) params c = (Inr (Some task), c1) \<and>
    may_read_at F c1 (task_context task) key \<and> (key = None \<longrightarrow> parties_seen F c1 (task_context task) = Some None) \<and>
    j = an_task A t \<and> task_id t = task_id task"
proof -
  from assms(2) obtain t where r: "r = Inr (Some t)" and j: "j = an_task A t"
    by (auto simp: told_task_def split: sum.splits option.splits exn.splits)
  from assms(1) [unfolded r] obtain task c1 c2 where up: "up_get_task F (Inr key) params c = (Inr (Some task), c1)"
    and may: "may_read F (task_context task) key c1 = (Inr True, c2)" and ann: "annotate_asks F (Some task) c2 = (Inr (Some t), c')"
    by (auto simp: on_get_task_def io_simps split: prod.splits sum.splits option.splits if_splits)
  from annotate_Some [OF ann] have "task_id t = task_id task" by (auto simp: with_asks_kept split: if_splits)
  moreover from may have admitted: "may_read_at F c1 (task_context task) key" by (simp add: may_read_at_def)
  moreover have "key = None \<longrightarrow> parties_seen F c1 (task_context task) = Some None"
    using admitted rg.anonymous_needs_unbound by (cases key) auto
  ultimately show ?thesis using up j by (intro exI [of _ task] exI [of _ t] exI [of _ c1] conjI) assumption+
qed

text \<open>C14. A task is read over the wire exactly as the door's own operation would answer the key the
  reader signed with, or nobody for a reader that signed nothing: the client speaks the version the
  dispatcher serves that method in, the answer is that operation's task, an absence or an error is
  raised, and an HTTP error is raised as one; so whatever task a reader is told, the reading rule admits its
  key to the task's thread, and an anonymous reader is only ever told of threads bound to nobody.\<close>

theorem task_read_as_presented:
  assumes "resolve_agent provider name c = (Inr (Some agent), c1)"
    and "get_task_request E (request_id_of request_id token) tid identity history_length = Inr (raw, hs)"
    and "an_loads A raw = Inr (JObj (rpc_body (request_id_of request_id token) ''GetTask'' (get_task_params tid history_length)))"
    and "serves_get_task A dispatch" and "answers_told A"
    and "pe_sha256hex S = sdk_sha256hex E" and "pe_fresh S (sdk_now E)"
    and "\<And>I payload. identity = Some I \<Longrightarrow> sdk_dumps E (JObj (proof_obj I (sdk_now E) payload)) \<noteq> [] \<and>
           pe_loads S (sdk_dumps E (JObj (proof_obj I (sdk_now E) payload))) = Inr (JObj (proof_obj I (sdk_now E) payload)) \<and>
           pe_verify S (pi_key I) (pi_sign I payload) payload"
  shows "\<exists>r c'. on_get_task (F agent) (Inr (map_option pi_key identity)) (JObj (get_task_params tid history_length)) c1 = (r, c') \<and>
    get_task E (a2a_door F S resolve_agent dispatch provider name) token request_id tid identity history_length c =
      (told_task A r, c') \<and>
    (\<forall>j. told_task A r = Inr j \<longrightarrow>
       (\<exists>task t c2. up_get_task (F agent) (Inr (map_option pi_key identity)) (JObj (get_task_params tid history_length)) c1 =
            (Inr (Some task), c2) \<and>
          may_read_at (F agent) c2 (task_context task) (map_option pi_key identity) \<and>
          (identity = None \<longrightarrow> parties_seen (F agent) c2 (task_context task) = Some None) \<and>
          j = an_task A t \<and> task_id t = task_id task))"
proof -
  let ?key = "map_option pi_key identity" and ?params = "get_task_params tid history_length"
  obtain r c' where op: "on_get_task (F agent) (Inr ?key) (JObj ?params) c1 = (r, c')" by fastforce
  from assms(2) have presented: "presented E (rpc_body (request_id_of request_id token) ''GetTask'' ?params) identity False = Inr (raw, hs)"
    by (simp add: get_task_request_def get_task_params_def)
  have hook: "presenter_hook S (context_headers hs) raw = Inr ?key"
    by (rule presented_key [OF presented assms(6,7)]) (use assms(8) in blast)
  have served: "a2a_door F S resolve_agent dispatch provider name raw hs c =
      (case r of
         Inl (HttpExn status m gs) \<Rightarrow> (Inl http_refused, c')
       | _ \<Rightarrow> (Inr (task_answer A (JStr (request_id_of request_id token)) r), c'))"
    using assms(1,3,4) op hook presented_context [OF presented]
    by (cases agent)
       (simp add: a2a_door_def resolve_ref_def io_simps serves_get_task_def new_handler_def split: sum.split exn.split)
  have "get_task E (a2a_door F S resolve_agent dispatch provider name) token request_id tid identity history_length c =
      (told_task A r, c')"
  proof (cases "\<exists>status m gs. r = Inl (HttpExn status m gs)")
    case True
    with served assms(2) show ?thesis by (auto simp: get_task_def posted_def io_simps told_task_def)
  next
    case False
    with rpc_result_told [OF assms(5), of r]
    have told: "rpc_result ''GetTask'' (task_answer A (JStr (request_id_of request_id token)) r) = told_task A r" by blast
    from False served have "a2a_door F S resolve_agent dispatch provider name raw hs c =
        (Inr (task_answer A (JStr (request_id_of request_id token)) r), c')"
      by (auto split: sum.splits exn.splits)
    with told assms(2) show ?thesis by (simp add: get_task_def posted_def io_simps split: sum.split)
  qed
  with op told_was_admitted [OF op] show ?thesis
    by (intro exI [of _ r] exI [of _ c']) (simp add: map_option_is_None)
qed

definition reader :: presenter_identity where
  "reader = \<lparr>pi_key = ''key9'', pi_sign = (\<lambda>payload. ''s9'')\<rparr>"

definition reader_sdk :: sdk_env where
  "reader_sdk = \<lparr>sdk_sha256hex = sample_hash, sdk_dumps = (\<lambda>j. ''text''), sdk_now = 17\<rparr>"

definition reading_gateway :: presenter_env where
  "reading_gateway = sample_env
     \<lparr>pe_loads := (\<lambda>t. Inr (JObj (proof_obj reader 17 []))), pe_verify := (\<lambda>key signature payload. key = ''key9'')\<rparr>"

definition sample_answers :: task_answers where
  "sample_answers =
     \<lparr>an_loads = (\<lambda>t. Inr (JObj (rpc_body ''req_7'' ''GetTask'' (get_task_params ''root'' None)))),
      an_task = (\<lambda>t. JStr (task_id t)), an_not_found = JStr ''none'', an_error = (\<lambda>e. JStr ''error'')\<rparr>"

definition sample_dispatch :: "sample dispatcher" where
  "sample_dispatch H headers raw c =
     (if headers ''a2a-version'' = Some ''1.0''
      then (case on_get_task (rh_core H) (rh_presenter H headers) (JObj (get_task_params ''root'' None)) c of
              (Inl (HttpExn status m hs), c') \<Rightarrow> (Inl (HttpExn status m hs), c')
            | (r, c') \<Rightarrow> (Inr (task_answer sample_answers (JStr ''req_7'') r), c'))
      else (Inr [(''error'', JStr ''MethodNotFoundError'')], c))"

definition sample_resolve :: "string \<Rightarrow> string \<Rightarrow> (sample, exn, agent_ref option) call" where
  "sample_resolve p n c = (Inr (Some \<lparr>ref_provider_key = p, ref_name = n\<rparr>), c)"

lemma sample_dispatch_serves: "serves_get_task sample_answers sample_dispatch"
proof -
  have "an_loads sample_answers raw = Inr (JObj (rpc_body ''req_7'' ''GetTask'' (get_task_params ''root'' None)))" for raw
    by (simp add: sample_answers_def)
  then have the: "i = ''req_7'' \<and> p = get_task_params ''root'' None"
    if "an_loads sample_answers raw = Inr (JObj (rpc_body i ''GetTask'' p))" for raw i p
    using that by (simp add: rpc_body_def)
  show ?thesis
    unfolding serves_get_task_def
    by (intro allI impI ext, elim conjE, drule the, elim conjE, hypsubst, simp add: sample_dispatch_def)
qed

lemma sealed_task:
  "on_get_task (sample_a2a ''sealed'') (Inr (Some ''key9'')) p sample_state =
     (Inr (Some (with_asks (sample_a2a ''sealed'') [''b'', ''a''] (sample_task ''sealed''))), sample_state)"
  by (simp add: on_get_task_def may_read_def annotate_asks_def with_asks_def io_simps sample_a2a_simps sample_simps)

theorem task_read_as_presented_witness:
  "get_task reader_sdk (a2a_door (\<lambda>agent. sample_a2a ''sealed'') reading_gateway sample_resolve
      sample_dispatch ''key1'' ''echo'')
      ''7'' None ''root'' (Some reader) None sample_state = (Inr (JStr ''root''), sample_state)"
proof -
  have "\<exists>hs. get_task_request reader_sdk (request_id_of None ''7'') ''root'' (Some reader) None = Inr (''text'', hs)"
  proof -
    have "presenter_payload sample_hash ''key9'' 17 ''text'' = Inr (payload_text sample_hash ''key9'' 17 ''text'')"
      by code_simp
    then show ?thesis
      by (simp add: get_task_request_def presented_def Let_def presenter_headers_def presenter_proof_def
          signed_payload_agrees reader_sdk_def reader_def)
  qed
  then obtain hs where request:
    "get_task_request reader_sdk (request_id_of None ''7'') ''root'' (Some reader) None = Inr (''text'', hs)" by blast
  have found: "sample_resolve ''key1'' ''echo'' sample_state =
      (Inr (Some \<lparr>ref_provider_key = ''key1'', ref_name = ''echo''\<rparr>), sample_state)" by (simp add: sample_resolve_def)
  have read: "an_loads sample_answers ''text'' =
      Inr (JObj (rpc_body (request_id_of None ''7'') ''GetTask'' (get_task_params ''root'' None)))"
    by (simp add: sample_answers_def request_id_of_def)
  have told: "answers_told sample_answers" by (simp add: answers_told_def sample_answers_def)
  have env: "pe_sha256hex reading_gateway = sdk_sha256hex reader_sdk" "pe_fresh reading_gateway (sdk_now reader_sdk)"
    by (simp_all add: reading_gateway_def reader_sdk_def sample_env_def)
  have signs: "sdk_dumps reader_sdk (JObj (proof_obj I (sdk_now reader_sdk) payload)) \<noteq> [] \<and>
      pe_loads reading_gateway (sdk_dumps reader_sdk (JObj (proof_obj I (sdk_now reader_sdk) payload))) =
        Inr (JObj (proof_obj I (sdk_now reader_sdk) payload)) \<and>
      pe_verify reading_gateway (pi_key I) (pi_sign I payload) payload" if "Some reader = Some I" for I payload
    using that by (auto simp: reading_gateway_def reader_sdk_def proof_obj_def reader_def)
  have key: "map_option pi_key (Some reader) = Some ''key9''" by (simp add: reader_def)
  have answer: "told_task sample_answers (Inr (Some (with_asks F a (sample_task ''sealed'')))) = Inr (JStr ''root'')" for F :: "sample a2a_core" and a
    by (simp add: told_task_def sample_answers_def with_asks_kept) (simp add: sample_task_def)
  from task_read_as_presented [where resolve_agent = sample_resolve and provider = "''key1''" and name = "''echo''"
      and c = sample_state and identity = "Some reader" and F = "\<lambda>agent. sample_a2a ''sealed''",
      OF found request read sample_dispatch_serves told env signs]
  show ?thesis unfolding key sealed_task by (auto simp: answer)
qed

end
