(* ===== verification/Kyok_Call.thy ===== *)
theory Kyok_Call
  imports Link_Opening Llm_Bridge Task_Read
begin

text \<open>
  A completion call from end to end: the request \<open>KyokSigningAuth.auth_flow\<close> signs against the KYOK
  route that lifts the token, the time and the signature off it. The request's headers are listed by
  their lowered names, as both sides look them up; what the signer sets stands before them, since it
  replaces what the request carried under the same name.
\<close>

definition signed_headers ::
  "(string \<Rightarrow> int \<Rightarrow> string \<Rightarrow> string) \<Rightarrow> (string \<Rightarrow> string) \<Rightarrow> (string \<Rightarrow> string) \<Rightarrow> int \<Rightarrow>
   (string \<times> string) list \<Rightarrow> string \<Rightarrow> (string \<times> string) list" where
  "signed_headers call_payload sha256hex sign now headers content =
     kyok_headers call_payload sha256hex sign now headers content @ headers"

definition names_lowered :: "(string \<times> string) list \<Rightarrow> bool" where
  "names_lowered headers \<longleftrightarrow> list_all (\<lambda>(k, v). map ascii_lower k = k) headers"

lemma context_headers_lowered: "names_lowered headers \<Longrightarrow> context_headers headers = map_of headers"
  unfolding context_headers_def names_lowered_def
  by (rule arg_cong [of _ _ map_of], rule map_idI) (auto simp: list_all_iff)

lemma context_headers_append: "context_headers (hs @ ks) = context_headers ks ++ context_headers hs"
  by (simp add: context_headers_def)

text \<open>The signer and the route read the token off the header in the same way.\<close>

lemma starts_with_prefix: "starts_with p s \<longleftrightarrow> prefix p s"
proof
  assume "starts_with p s"
  then have "s = p @ drop (length p) s" unfolding starts_with_def by (metis append_take_drop_id)
  then show "prefix p s" by (rule prefixI)
qed (auto simp: starts_with_def prefix_def)

lemma bearer_removeprefix:
  "bearer h = (let a = (case h of None \<Rightarrow> [] | Some v \<Rightarrow> v) in if prefix ''Bearer '' a then drop 7 a else a)"
  by (simp add: bearer_def starts_with_prefix Let_def numeral_eq_Suc)

lemma set_headers_lowered:
  "context_headers [(''X-Souk-Kyok-Timestamp'', t), (''X-Souk-Kyok-Signature'', s)] =
     [''x-souk-kyok-timestamp'' \<mapsto> t, ''x-souk-kyok-signature'' \<mapsto> s]"
proof -
  have cons: "context_headers ((k, v) # hs) = (context_headers hs)(map ascii_lower k \<mapsto> v)" for k v hs
    by (simp add: context_headers_def)
  have nil: "context_headers [] = Map.empty" by (simp add: context_headers_def)
  have low: "map ascii_lower ''X-Souk-Kyok-Timestamp'' = ''x-souk-kyok-timestamp''"
    "map ascii_lower ''X-Souk-Kyok-Signature'' = ''x-souk-kyok-signature''" by code_simp+
  have ne: "''x-souk-kyok-timestamp'' \<noteq> ''x-souk-kyok-signature''" by simp
  show ?thesis unfolding cons nil low by (rule fun_upd_twist [OF ne [symmetric]])
qed

text \<open>
  The route hands core the token of the request, its body, the time of the call and a signature over
  just those three, whatever the request had carried under the two names the signer sets.
\<close>

theorem completion_call_as_signed:
  assumes "names_lowered headers"
  defines "token \<equiv> bearer (map_of headers ''authorization'')"
  shows "chat_completions S kyok_complete
      (context_headers (signed_headers call_payload sha256hex sign now headers content)) content =
    bind_io (kyok_complete token content (int_text now) (sign (call_payload token now (sha256hex content))))
      (\<lambda>relay.
        if \<not> stream_requested relay
        then (case collapsed relay of Inl e \<Rightarrow> raise_io e | Inr j \<Rightarrow> ret_io (JsonReply j))
        else ret_io (SseReply (sse S (relay_items relay) (relay_end relay))))"
proof -
  have token: "(let a = (case map_of headers ''authorization'' of None \<Rightarrow> [] | Some v \<Rightarrow> v)
      in if prefix ''Bearer '' a then drop 7 a else a) = token"
    by (simp only: token_def bearer_removeprefix)
  have "signed_headers call_payload sha256hex sign now headers content =
      [(''X-Souk-Kyok-Timestamp'', int_text now),
       (''X-Souk-Kyok-Signature'', sign (call_payload token now (sha256hex content)))] @ headers"
    using token by (simp add: signed_headers_def kyok_headers_def Let_def)
  then have "context_headers (signed_headers call_payload sha256hex sign now headers content) =
      map_of headers ++ [''x-souk-kyok-timestamp'' \<mapsto> int_text now,
        ''x-souk-kyok-signature'' \<mapsto> sign (call_payload token now (sha256hex content))]"
    by (simp only: context_headers_append set_headers_lowered context_headers_lowered [OF assms(1)])
  then show ?thesis by (simp add: chat_completions_def token_def)
qed

text \<open>A request that already carried a signature is signed afresh.\<close>

lemma completion_call_example:
  "chat_completions S (\<lambda>token body time signature c.
       (Inl (Exn RuntimeError (token @ body @ time @ signature)), c))
     (context_headers (signed_headers (\<lambda>t n h. t @ int_text n @ h) (\<lambda>b. b @ ''#'') (\<lambda>p. ''<'' @ p @ ''>'') 7
        [(''authorization'', ''Bearer tok''), (''x-souk-kyok-signature'', ''old'')] ''{}'')) ''{}'' c =
   (Inl (Exn RuntimeError ''tok{}7<tok7{}#>''), c)"
proof -
  have low: "names_lowered [(''authorization'', ''Bearer tok''), (''x-souk-kyok-signature'', ''old'')]" by code_simp
  have "int_text 7 = ''7''" by code_simp
  then show ?thesis
    by (simp add: completion_call_as_signed [OF low] bind_io_def bearer_def starts_with_def)
qed

end
