(* ===== verification/Thread_Creation.thy ===== *)
theory Thread_Creation
  imports Agui_Flow
begin

text \<open>
  A thread made ahead of its first run: \<open>SoukClient.create_thread\<close> against \<open>POST /threads/{provider}/{name}\<close>
  and its models, the one field each side sends.
\<close>

section \<open>The route\<close>

text \<open>\<open>CreateThreadRequest\<close>: metadata, empty unless given; \<open>None\<close> is the framework's refusal of the body.\<close>

definition create_thread_request :: "obj \<Rightarrow> obj option" where
  "create_thread_request body =
     (case map_of body ''metadata'' of None \<Rightarrow> Some [] | Some (JObj m) \<Rightarrow> Some m | Some _ \<Rightarrow> None)"

definition create_thread_response :: "string \<Rightarrow> obj" where
  "create_thread_response thread_id = [(''thread_id'', JStr thread_id)]"

definition post_thread ::
  "('c, 'z) agui_core_scheme \<Rightarrow> string \<Rightarrow> string \<Rightarrow> obj \<Rightarrow> ('c, exn, obj option) call" where
  "post_thread F provider name body =
     (case create_thread_request body of
        None \<Rightarrow> ret_io None
      | Some metadata \<Rightarrow>
          bind_io (create_thread F provider name metadata) (\<lambda>t. ret_io (Some (create_thread_response t))))"

section \<open>The client\<close>

definition thread_body :: "obj \<Rightarrow> obj" where
  "thread_body metadata = (if metadata = [] then [] else [(''metadata'', JObj metadata)])"

definition client_create_thread ::
  "('c, 'z) agui_core_scheme \<Rightarrow> string \<Rightarrow> string \<Rightarrow> obj \<Rightarrow> ('c, exn, json) call" where
  "client_create_thread F provider name metadata = (\<lambda>c.
     case post_thread F provider name (thread_body metadata) c of
       (Inr (Some answer), c') \<Rightarrow>
         (case map_of answer ''thread_id'' of Some t \<Rightarrow> Inr t | None \<Rightarrow> Inl (Exn KeyError ''thread_id''), c')
     | (_, c') \<Rightarrow> (Inl http_refused, c'))"

section \<open>Facts\<close>

lemma thread_body_read: "create_thread_request (thread_body metadata) = Some metadata"
  by (simp add: create_thread_request_def thread_body_def)

text \<open>
  The thread is made with exactly the metadata meant, its id comes back as it is, and what the gateway
  refused raises; a run without a thread makes its own the same way.
\<close>

lemma thread_made_as_meant:
  "client_create_thread F provider name metadata c =
     (case create_thread F provider name metadata c of
        (Inr t, c') \<Rightarrow> (Inr (JStr t), c') | (Inl e, c') \<Rightarrow> (Inl http_refused, c'))"
  by (simp add: client_create_thread_def post_thread_def thread_body_read create_thread_response_def io_simps
      split: prod.split sum.split)

lemma run_makes_its_thread:
  assumes "rn_thread r = None"
  shows "thread_for F provider name r c =
    (case client_create_thread F provider name [] c of
       (Inr (JStr t), c') \<Rightarrow> (Inr t, c') | (_, c') \<Rightarrow> (Inl http_refused, c'))"
  using assms
  by (simp add: thread_for_def thread_made_as_meant io_simps split: prod.split sum.split)

text \<open>A thread of an agent nobody registered is refused before core is asked to make one.\<close>

lemma unknown_agent_no_thread:
  assumes "resolve_agent F provider name c = (Inr None, c')"
  shows "client_create_thread F provider name metadata c = (Inl http_refused, c')"
  using assms by (simp add: thread_made_as_meant create_thread_def resolve_ref_def io_simps)

end
