(* ===== verification/Spec2Isabelle.thy ===== *)
theory Spec2Isabelle
  imports Provider_Flow Kyok_Wire Kyok_Liveness A2A_Props A2a_Client Agui_Door Docent Settings Openai_Agent
    Agent_Run Market_Tools Lifecycle Reconnect Roster_Wire Agui_Flow Delegation_Tasks Registry Serving
    Agent_Setup Relayed_Run Woven_Run Pydantic_Process Dev_Cert Guides Task_Read Kyok_Call Thread_Creation
begin

text \<open>
  A verification development for funduq-server (souk): the gateway that puts a funduq core on the
  network, the SDKs its providers and callers link with, and the providers shipped beside it.

  The program. Providers hold one WebSocket open to the gateway: agents on \<open>/ws/provider\<close>,
  LLM providers on \<open>/ws/kyok\<close>. Each opens with a ticket, a signed hello and a welcome that proves the
  gateway's key in turn; then a roster is published, and runs (or completions) go down the socket
  while verdicts, events and chunks come back. Callers use HTTP doors: AG-UI, A2A, the registry,
  the MCP docent, and the OpenAI-shaped bridge that relays completions of a run to its caller's own
  LLM. All doors share the reading rule for threads, the presenter proof of who is asking and one
  mapping from domain errors to answers. Every decision about runs, threads and tickets is made by
  the core, a separate package.

  The theories, and the code they model (paths under \<open>src/\<close>):

  \<^item> \<open>Prelude\<close>: awaited calls as functions from a world to an exception or a result with the world
    left behind; the locales \<open>machine_invariant\<close> and \<open>machine_log\<close> for step relations; lists and maps.
  \<^item> \<open>Py_Values\<close>: JSON values, truthiness, dictionary access and update, \<open>repr\<close>.
  \<^item> \<open>Funduq_Core\<close>, \<open>Sample_Core\<close>: the operations of core, its contract models and the JSON decoder as
    record arguments, and a concrete core for the witnesses.
  \<^item> \<open>Ws_Common\<close>, \<open>Handshake\<close>, \<open>Reads\<close>, \<open>Presenter\<close>, \<open>Http_Errors\<close>: \<open>souk_server/ws_common.py\<close>,
    \<open>handshake.py\<close>, \<open>reads.py\<close>, \<open>presenter.py\<close>, \<open>deps.py\<close>.
  \<^item> \<open>Provider_Link\<close>, \<open>Provider_Socket\<close>: \<open>souk_server/ws_provider.py\<close>. The object core holds is the
    record \<open>link\<close>, the open socket the record \<open>session\<close>; one function per frame handler, and
    \<open>provider_step\<close> interleaves frames, calls of core on the link, query tasks, the watcher, the
    writer and the teardown. \<open>Provider_Facts\<close>, \<open>Provider_Calls\<close>, \<open>Provider_Roster\<close>, \<open>Provider_Answers\<close> and
    \<open>Provider_Props\<close> hold its invariants, the log of its calls on core, and what it guarantees.
  \<^item> \<open>Kyok_Link\<close>, \<open>Kyok_Socket\<close>: \<open>souk_server/ws_kyok.py\<close>. Completions in flight are streams with a queue,
    a count of items taken and an end; the table of answers names the stream of each request id.
    \<open>Kyok_Facts\<close>, \<open>Kyok_Props\<close> and \<open>Kyok_Liveness\<close> are its library and guarantees.
  \<^item> \<open>A2A_Door\<close>, \<open>A2A_Props\<close>, \<open>Agui_Door\<close>, \<open>Llm_Bridge\<close>, \<open>Docent\<close>, \<open>Settings\<close>: \<open>api_a2a.py\<close>,
    \<open>api_agui.py\<close>, \<open>api_llm_bridge.py\<close>, \<open>mcp_docent.py\<close>, and \<open>config.py\<close> with \<open>api_registry.py\<close> and
    \<open>api_health.py\<close>. \<open>Registry\<close>: the rows and tickets of \<open>models.py\<close> against the clients that read them.
    \<open>Serving\<close>: \<open>server.py\<close> and \<open>ServingSettings\<close>, the app as a value and the life of the process as the
    record of what happened in it.
  \<^item> \<open>Agent_Client\<close>, \<open>A2a_Client\<close>: \<open>souk-agent-sdk\<close>, the provider's end of the socket and the caller of
    the A2A door. \<open>Kyok_Bridge\<close>, \<open>Caller_Client\<close>: \<open>souk-client-sdk\<close>, the LLM provider's end of the
    KYOK socket and the caller of the AG-UI door. \<open>Link_Opening\<close> and
    \<open>Lifecycle\<close>: how both providers open their link, stay connected and find the socket's address,
    and the signature of \<open>kyok_auth.py\<close>. \<open>Identity\<close>: \<open>identity.py\<close>, the key file and the actor chains.
  \<^item> \<open>Provider_Wire\<close>, \<open>Provider_Flow\<close>, \<open>Kyok_Wire\<close>: the two ends of each socket put together: single
    exchanges, and whole conversations as a list of a client's acts against the gateway's read loop.
    \<open>Provider_Vocabulary\<close>: the wire's seven kinds of frame and their fields. \<open>Roster_Wire\<close>: the publication of a roster. \<open>Reconnect\<close>: the provider's queue and its writer over
    any number of connections. \<open>Agui_Flow\<close>: a caller's run through the AG-UI door, from its thread to
    the last event it is yielded.
  \<^item> \<open>Openai_Agent\<close>, \<open>Pydantic_Agent\<close>, \<open>Delegation\<close>, \<open>Delegation_Tasks\<close>, \<open>Agent_Run\<close>, \<open>Agent_Setup\<close>,
    \<open>Market_Tools\<close>, \<open>Guides\<close>: the shipped providers, with the
    agent template: the relay of an OpenAI-shaped stream, the history merge, name resolution, the tool
    that delegates to another agent, alone and several at once, the requests it sends, the
    conversations and the merged stream of a run, the choice of its model, the market tools with their
    guides, and the process made from a configuration.
  \<^item> \<open>Provider_Object\<close>, \<open>Expandvars\<close>, \<open>Openai_Process\<close>, \<open>Pydantic_Process\<close>: what a process makes of the SDK's
    \<open>SoukProvider\<close>, the variables of a configuration, and the \<open>main\<close> of each provider from its file on.
    \<open>Relayed_Run\<close>, \<open>Woven_Run\<close>: a run of a shipped relay, and of a pydantic-ai agent, from the frame it
    comes in to what core is told.
    \<open>Task_Read\<close>, \<open>Thread_Creation\<close>, \<open>Kyok_Call\<close>: the SDKs' calls put against the doors that serve them.
    \<open>Dev_Cert\<close>: \<open>scripts/gen_dev_tls_cert.py\<close>.

  State and effects. A call into core is a function of core's state; a read loop is a fold over the
  raw messages; a queue is a list with its whole history, or with a count of what was taken from
  it; a task is an entry of a list of pending work. Between two awaits the code runs alone, so one
  step of a relation is the code between two awaits, or a handler whose only await is one core call.
  Where that call can be interrupted by another task (registration and deletion on either socket)
  it is split or the calls core makes on the link meanwhile are part of its answer. Exceptions are
  values that carry the class the code names; a handler that ends the connection returns the
  exception that ended it. Strings are their UTF-8 bytes; JSON numbers are unbounded integers or
  rationals with the text Python prints; keys that the code compares are compared as JSON values,
  so that \<open>1\<close> and \<open>true\<close>, which Python takes for one dictionary key, stay apart.

  Interfaces. \<open>machine_invariant\<close> and its extension \<open>machine_log\<close> are interpreted on the provider socket
  (\<open>pv\<close>, \<open>cv\<close>, \<open>rv\<close>, \<open>vocab\<close>), the KYOK socket (\<open>kv\<close>), the provider client (\<open>wv\<close>) and its connections (\<open>dv\<close>),
  the bridge (\<open>bv\<close>), the queue of a run (\<open>mv\<close>) and its delegations (\<open>tv\<close>);
  \<open>reader_gate\<close> on the one reading rule (\<open>rg\<close>), which the doors use; \<open>guarded_opening\<close> on the openings
  of both clients (\<open>co\<close>, \<open>bo\<close>).

  What is shown. Sockets open only on a proof core verified, and clients reveal nothing to a peer
  that did not prove its key; an honest pair always opens. Frames are sent in order, nothing after
  the close, every call on core that acts under the proven key and the detach last, with only the reads
  of questions still pending after it; which malformed messages end a connection is listed. Answers are accepted only
  for the requests of this socket and reach their own consumer, in order and validated; a normal end
  means the provider said so; a disconnect fails what was open, and a consumer is then brought to an
  end. Whatever completions the bridge serves at once, the gateway queues for each what its handler
  produced. Reads go only to those the rule admits, on every door. A presented key is one whose
  holder signed this body, freshly. Error answers follow the table. Names are never guessed.
  A roster is published as its client means it.
  Whatever a provider's client does, core is told exactly that, and both ends speak one vocabulary;
  over reconnects no report is doubled, and the reports lost are those a writer took as its connection
  ended, those core was not handed, and those written to a socket that was dying and never read. A
  run's stream weaves its events with its delegations' progress, and ends; delegations made at once
  end as they would alone, and the gateway attributes each to the provider's one key, which outlives
  its process. A run of a shipped provider is told to core as it happened, among any other runs, each
  event once, and a relay's whole when its stream ran out. A task is read over the wire as the door would answer the key the reader signed with. Listed agents can
  be resolved and addressed, and a caller is yielded core's own events of a run. Requests reach only a
  started core, and core is closed once, last. The round trips of a run, a question and a presented call
  through both ends give back what was meant.

  Arguments and hypotheses. Core, the contract package (payloads, signatures, validators), the JSON
  decoder and serializer, hashes, clocks, the HTTP exchanges, the LLM library and the model client
  are arguments. What a theorem needs of them is in its statement: that the decoder gives an object
  back for its text, that a signature made with a key verifies under it, that a dumped model has
  distinct keys none of which is the transport's, that core does not call back into a link in ways its interface rules out and hands down the published
  envelope, that the provider package's runtime reports what a run's stream gives and says when it ended
  (\<open>runtime_serves\<close>), that the A2A dispatcher serves \<open>GetTask\<close> to a request that names version 1.0
  (\<open>serves_get_task\<close>). The last two are what the repository's own comments say it relies on. Each such theorem has a concrete instance.

  Bounds. Two loops have fuel, the consumer of a completion, \<open>consume n\<close>, and of a run, \<open>drain n\<close>, which
  take at most \<open>n\<close> items; the items queued and not yet taken are enough, as \<open>kyok_consumer_ends\<close> and
  \<open>run_stream_ends\<close> show. The loop over the variables of a text has a measure, the text not yet looked
  at; every other recursion is structural; the endless loops that connect again
  are run over a list of rounds.

  Not modelled, and why: the route declarations and the routers' order of matching (the framework's); the
  escaping of paths (the URL library's); an exception that a finished watcher hands to the teardown,
  which then leaves it early; the coercion of values by pydantic, and its reading of \<open>SOUK_*\<close> variables; TLS contexts (calls into
  a library); when asyncio delivers a cancellation and wakes a waiter, where it and not the code decides;
  symbolic links; the pydantic-ai agent, which is a library's; YAML; the dependency getters of
  \<open>deps.py\<close>, which hand on what the app holds; the Go probe, which is another program.
\<close>

end
